(* ===== verification/Prelude.thy ===== *)
theory Prelude
  imports Main "HOL-Library.Word" "HOL-Library.AList"
begin

text \<open>
  Shared vocabulary of the development: the machine integers of the Rust sources, the
  \<open>Result<T, String>\<close> type as a sum, state-passing actions that may fail (the shape of every
  \<open>async fn ... -> Result<_, String>\<close> of the daemon), hash maps as association lists with
  distinct keys, and the interface locales that several components share: a keyed store,
  an encoder with its decoder, and a machine whose steps keep an invariant.
\<close>

named_theorems act_simps \<open>how the primitive actions compute\<close>
named_theorems wp_simps \<open>weakest preconditions of the control structure\<close>
named_theorems yields_intros \<open>introduction rules for facts about the value an action returns\<close>
named_theorems pres_intros \<open>introduction rules for preservation of a state predicate\<close>

section \<open>Machine integers and results\<close>

type_synonym u8 = "8 word"
type_synonym u16 = "16 word"
type_synonym u32 = "32 word"
type_synonym u64 = "64 word"

type_synonym 'a result = "string + 'a"

fun is_ok :: "'e + 'a \<Rightarrow> bool" where
  "is_ok (Inr a) = True"
| "is_ok (Inl e) = False"

lemma is_ok_iff: "is_ok r \<longleftrightarrow> (\<exists>a. r = Inr a)"
  by (cases r) auto

lemma not_is_ok_iff: "\<not> is_ok r \<longleftrightarrow> (\<exists>e. r = Inl e)"
  by (cases r) auto

text \<open>The \<open>?\<close> operator on a plain result.\<close>

definition andThen :: "'a result \<Rightarrow> ('a \<Rightarrow> 'b result) \<Rightarrow> 'b result" where
  "andThen r f = (case r of Inl e \<Rightarrow> Inl e | Inr a \<Rightarrow> f a)"

lemma andThen_simps [simp]: "andThen (Inl e) f = Inl e" "andThen (Inr a) f = f a"
  by (simp_all add: andThen_def)

lemma andThen_Inr: "andThen r f = Inr b \<longleftrightarrow> (\<exists>a. r = Inr a \<and> f a = Inr b)"
  by (cases r) simp_all

lemma andThen_Inl: "andThen r f = Inl e \<longleftrightarrow> r = Inl e \<or> (\<exists>a. r = Inr a \<and> f a = Inl e)"
  by (cases r) simp_all

lemma map_filter_map_id:
  "(\<And>x. x \<in> set xs \<Longrightarrow> f (g x) = Some x) \<Longrightarrow> List.map_filter f (map g xs) = xs"
  by (induction xs) (simp_all add: List.map_filter_simps)

section \<open>Actions: state passing with early return\<close>

text \<open>
  An action takes the state, and returns a result together with the new state. \<open>bindA\<close> is the
  \<open>?\<close> operator followed by the rest of the function: an error returns at once and keeps the
  effects done so far.
\<close>

type_synonym ('s, 'a) act = "'s \<Rightarrow> 'a result \<times> 's"

definition ok :: "'a \<Rightarrow> ('s, 'a) act" where
  "ok a s = (Inr a, s)"

definition err :: "string \<Rightarrow> ('s, 'a) act" where
  "err e s = (Inl e, s)"

definition bindA :: "('s, 'a) act \<Rightarrow> ('a \<Rightarrow> ('s, 'b) act) \<Rightarrow> ('s, 'b) act" where
  "bindA m f s = (case m s of (r, s') \<Rightarrow> (case r of Inl e \<Rightarrow> (Inl e, s') | Inr a \<Rightarrow> f a s'))"

text \<open>\<open>map_err\<close> rewrites the message; \<open>ignore\<close> is \<open>let _ = ...\<close>; \<open>attempt\<close> hands the result on.\<close>

definition map_err :: "(string \<Rightarrow> string) \<Rightarrow> ('s, 'a) act \<Rightarrow> ('s, 'a) act" where
  "map_err g m s = (case m s of (r, s') \<Rightarrow> (case r of Inl e \<Rightarrow> (Inl (g e), s') | Inr a \<Rightarrow> (Inr a, s')))"

definition attempt :: "('s, 'a) act \<Rightarrow> ('s, 'a result) act" where
  "attempt m s = (case m s of (r, s') \<Rightarrow> (Inr r, s'))"

definition ignore :: "('s, 'a) act \<Rightarrow> ('s, unit) act" where
  "ignore m s = (Inr (), snd (m s))"

definition modify :: "('s \<Rightarrow> 's) \<Rightarrow> ('s, unit) act" where
  "modify f s = (Inr (), f s)"

definition gets :: "('s \<Rightarrow> 'a) \<Rightarrow> ('s, 'a) act" where
  "gets f s = (Inr (f s), s)"

fun forA :: "'a list \<Rightarrow> ('a \<Rightarrow> ('s, unit) act) \<Rightarrow> ('s, unit) act" where
  "forA [] f = ok ()"
| "forA (x # xs) f = bindA (f x) (\<lambda>_. forA xs f)"

text \<open>A plain result as an action.\<close>

definition lift_result :: "'a result \<Rightarrow> ('s, 'a) act" where
  "lift_result r = (case r of Inl e \<Rightarrow> err e | Inr a \<Rightarrow> ok a)"

text \<open>Run an action on a part of a larger state.\<close>

definition zoom :: "('t \<Rightarrow> 's) \<Rightarrow> ('s \<Rightarrow> 't \<Rightarrow> 't) \<Rightarrow> ('s, 'a) act \<Rightarrow> ('t, 'a) act" where
  "zoom get put m t = (case m (get t) of (r, s') \<Rightarrow> (r, put s' t))"

lemmas act_defs = ok_def err_def bindA_def map_err_def attempt_def ignore_def modify_def
  gets_def zoom_def

lemma bindA_ok [simp]: "bindA (ok a) f = f a"
  by (rule ext) (simp add: bindA_def ok_def)

lemma bindA_err [simp]: "bindA (err e) f = err e"
  by (rule ext) (simp add: bindA_def err_def)

lemma bindA_ok_right [simp]: "bindA m ok = m"
  by (rule ext) (simp add: bindA_def ok_def split: prod.split sum.split)

lemma bindA_assoc: "bindA (bindA m f) g = bindA m (\<lambda>x. bindA (f x) g)"
  by (rule ext) (simp add: bindA_def split: prod.split sum.split)

lemma bindA_modify [simp]: "bindA (modify f) g s = g () (f s)"
  by (simp add: bindA_def modify_def)

lemma bindA_gets [simp]: "bindA (gets f) g s = g (f s) s"
  by (simp add: bindA_def gets_def)

lemma bindA_ignore [simp]: "bindA (ignore m) f s = f () (snd (m s))"
  by (simp add: bindA_def ignore_def)

lemma bindA_value: "m s = (Inr a, s1) \<Longrightarrow> bindA m f s = f a s1"
  by (simp add: bindA_def)

lemma bindA_Inr:
  "bindA m f s = (Inr b, s2) \<longleftrightarrow> (\<exists>a s1. m s = (Inr a, s1) \<and> f a s1 = (Inr b, s2))"
  by (auto simp: bindA_def split: prod.splits sum.splits)

lemma bindA_Inl:
  "bindA m f s = (Inl e, s2) \<longleftrightarrow>
     m s = (Inl e, s2) \<or> (\<exists>a s1. m s = (Inr a, s1) \<and> f a s1 = (Inl e, s2))"
  by (auto simp: bindA_def split: prod.splits sum.splits)

lemma snd_bindA:
  "snd (bindA m f s) = (case fst (m s) of Inl e \<Rightarrow> snd (m s) | Inr a \<Rightarrow> snd (f a (snd (m s))))"
  by (simp add: bindA_def split: prod.split sum.split)

lemma fst_bindA:
  "fst (bindA m f s) = (case fst (m s) of Inl e \<Rightarrow> Inl e | Inr a \<Rightarrow> fst (f a (snd (m s))))"
  by (simp add: bindA_def split: prod.split sum.split)

lemma modify_run [simp]: "fst (modify f s) = Inr ()" "snd (modify f s) = f s"
  by (simp_all add: modify_def)

lemma map_err_Inr [simp]: "map_err g m s = (Inr a, s') \<longleftrightarrow> m s = (Inr a, s')"
  by (auto simp: map_err_def split: prod.splits sum.splits)

lemma ok_eq [simp]: "ok a s = (r, s') \<longleftrightarrow> r = Inr a \<and> s' = s"
  by (auto simp: ok_def)

lemma err_eq [simp]: "err e s = (r, s') \<longleftrightarrow> r = Inl e \<and> s' = s"
  by (auto simp: err_def)

lemma forA_append: "forA (xs @ ys) f = bindA (forA xs f) (\<lambda>_. forA ys f)"
  by (induction xs) (simp_all add: bindA_assoc)

lemma forA_cong: "(\<And>x. x \<in> set xs \<Longrightarrow> f x = g x) \<Longrightarrow> forA xs f = forA xs g"
  by (induction xs) simp_all

subsection \<open>Preservation of a state predicate\<close>

definition preserves :: "('s \<Rightarrow> bool) \<Rightarrow> ('s, 'a) act \<Rightarrow> bool" where
  "preserves P m \<longleftrightarrow> (\<forall>s. P s \<longrightarrow> P (snd (m s)))"

lemma preservesD: "preserves P m \<Longrightarrow> P s \<Longrightarrow> P (snd (m s))"
  by (simp add: preserves_def)

lemma preserves_ok [pres_intros]: "preserves P (ok a)"
  by (simp add: preserves_def ok_def)

lemma preserves_err [pres_intros]: "preserves P (err e)"
  by (simp add: preserves_def err_def)

lemma preserves_gets [pres_intros]: "preserves P (gets f)"
  by (simp add: preserves_def gets_def)

lemma preserves_modify: "(\<And>s. P s \<Longrightarrow> P (f s)) \<Longrightarrow> preserves P (modify f)"
  by (simp add: preserves_def modify_def)

lemma preserves_bindA [pres_intros]:
  "preserves P m \<Longrightarrow> (\<And>a. preserves P (f a)) \<Longrightarrow> preserves P (bindA m f)"
  by (fastforce simp: preserves_def bindA_def split: prod.split sum.split)

lemma preserves_map_err [pres_intros]: "preserves P m \<Longrightarrow> preserves P (map_err g m)"
  by (fastforce simp: preserves_def map_err_def split: prod.split sum.split)

lemma preserves_ignore [pres_intros]: "preserves P m \<Longrightarrow> preserves P (ignore m)"
  by (simp add: preserves_def ignore_def)

lemma preserves_attempt [pres_intros]: "preserves P m \<Longrightarrow> preserves P (attempt m)"
  by (fastforce simp: preserves_def attempt_def split: prod.split)

lemma preserves_if [pres_intros]:
  "preserves P m \<Longrightarrow> preserves P n \<Longrightarrow> preserves P (if b then m else n)"
  by simp

lemma preserves_option [pres_intros]:
  "preserves P m \<Longrightarrow> (\<And>a. preserves P (f a)) \<Longrightarrow> preserves P (case x of None \<Rightarrow> m | Some a \<Rightarrow> f a)"
  by (cases x) simp_all

lemma preserves_sum [pres_intros]:
  "(\<And>e. preserves P (f e)) \<Longrightarrow> (\<And>a. preserves P (g a)) \<Longrightarrow>
   preserves P (case x of Inl e \<Rightarrow> f e | Inr a \<Rightarrow> g a)"
  by (cases x) simp_all

lemma preserves_lift_result [pres_intros]: "preserves P (lift_result r)"
  by (simp add: lift_result_def pres_intros)

lemma preserves_forA [pres_intros]:
  "(\<And>x. preserves P (f x)) \<Longrightarrow> preserves P (forA xs f)"
  by (induction xs) (auto intro: pres_intros)

subsection \<open>Weakest preconditions\<close>

text \<open>
  \<open>wp m Q E s\<close>: run from \<open>s\<close>, the action ends with a value and a state in \<open>Q\<close>, or with an error
  and a state in \<open>E\<close>. The collection \<open>wp_simps\<close> computes it through the control structure of a
  handler, so that only the calls with a specification of their own are left.
\<close>

definition wp :: "('s, 'a) act \<Rightarrow> ('a \<Rightarrow> 's \<Rightarrow> bool) \<Rightarrow> (string \<Rightarrow> 's \<Rightarrow> bool) \<Rightarrow> 's \<Rightarrow> bool" where
  "wp m Q E s = (case m s of (r, s') \<Rightarrow> (case r of Inl e \<Rightarrow> E e s' | Inr a \<Rightarrow> Q a s'))"

lemma wp_ok [wp_simps]: "wp (ok a) Q E s = Q a s"
  by (simp add: wp_def ok_def)

lemma wp_err [wp_simps]: "wp (err e) Q E s = E e s"
  by (simp add: wp_def err_def)

lemma wp_gets [wp_simps]: "wp (gets f) Q E s = Q (f s) s"
  by (simp add: wp_def gets_def)

lemma wp_modify [wp_simps]: "wp (modify f) Q E s = Q () (f s)"
  by (simp add: wp_def modify_def)

lemma wp_bindA [wp_simps]: "wp (bindA m f) Q E s = wp m (\<lambda>a. wp (f a) Q E) E s"
  by (simp add: wp_def bindA_def split: prod.split sum.split)

lemma wp_map_err [wp_simps]: "wp (map_err g m) Q E s = wp m Q (\<lambda>e. E (g e)) s"
  by (simp add: wp_def map_err_def split: prod.split sum.split)

lemma wp_ignore [wp_simps]: "wp (ignore m) Q E s = wp m (\<lambda>_. Q ()) (\<lambda>_. Q ()) s"
  by (simp add: wp_def ignore_def split: prod.split sum.split)

lemma wp_attempt [wp_simps]: "wp (attempt m) Q E s = wp m (\<lambda>a. Q (Inr a)) (\<lambda>e. Q (Inl e)) s"
  by (simp add: wp_def attempt_def split: prod.split sum.split)

lemma wp_if [wp_simps]: "wp (if b then m else n) Q E s = (if b then wp m Q E s else wp n Q E s)"
  by simp

lemma wp_option [wp_simps]:
  "wp (case x of None \<Rightarrow> m | Some a \<Rightarrow> f a) Q E s = (case x of None \<Rightarrow> wp m Q E s | Some a \<Rightarrow> wp (f a) Q E s)"
  by (cases x) simp_all

lemma wp_sum [wp_simps]:
  "wp (case x of Inl e \<Rightarrow> f e | Inr a \<Rightarrow> g a) Q E s = (case x of Inl e \<Rightarrow> wp (f e) Q E s | Inr a \<Rightarrow> wp (g a) Q E s)"
  by (cases x) simp_all

lemma wp_lift_result [wp_simps]:
  "wp (lift_result r) Q E s = (case r of Inl e \<Rightarrow> E e s | Inr a \<Rightarrow> Q a s)"
  by (cases r) (simp_all add: lift_result_def wp_ok wp_err)

lemma wp_zoom: "wp (zoom get put m) Q E s = wp m (\<lambda>a t. Q a (put t s)) (\<lambda>e t. E e (put t s)) (get s)"
  by (simp add: wp_def zoom_def split: prod.split)

text \<open>The same rules where the state is not written, as in a continuation.\<close>

lemma wp_bindA_fun: "wp (bindA m f) Q E = wp m (\<lambda>a. wp (f a) Q E) E"
  by (rule ext) (rule wp_bindA)

lemma wp_map_err_fun: "wp (map_err g m) Q E = wp m Q (\<lambda>e. E (g e))"
  by (rule ext) (rule wp_map_err)

lemma wp_lift_fun: "wp (lift_result (Inr b)) Q E = Q b"
  by (rule ext) (simp add: wp_lift_result)

lemmas wp_funs = wp_bindA_fun wp_map_err_fun wp_lift_fun

lemma wp_mono:
  "wp m Q E s \<Longrightarrow> (\<And>a s'. Q a s' \<Longrightarrow> Q' a s') \<Longrightarrow> (\<And>e s'. E e s' \<Longrightarrow> E' e s') \<Longrightarrow> wp m Q' E' s"
  by (simp add: wp_def split: prod.splits sum.splits)

lemma wp_conj:
  "wp m Q E s \<Longrightarrow> wp m Q' E' s \<Longrightarrow> wp m (\<lambda>a s. Q a s \<and> Q' a s) (\<lambda>e s. E e s \<and> E' e s) s"
  by (simp add: wp_def split: prod.splits sum.splits)

lemma wp_Inr: "wp m Q E s \<Longrightarrow> m s = (Inr a, s') \<Longrightarrow> Q a s'"
  by (simp add: wp_def)

lemma wp_Inl: "wp m Q E s \<Longrightarrow> m s = (Inl e, s') \<Longrightarrow> E e s'"
  by (simp add: wp_def)

lemma wp_snd: "wp m (\<lambda>_. P) (\<lambda>_. P) s \<longleftrightarrow> P (snd (m s))"
  by (simp add: wp_def split: prod.split sum.split)

lemma preserves_wp: "preserves P m \<longleftrightarrow> (\<forall>s. P s \<longrightarrow> wp m (\<lambda>_. P) (\<lambda>_. P) s)"
  by (simp add: preserves_def wp_snd)

lemma wp_True: "wp m (\<lambda>_ _. True) (\<lambda>_ _. True) s"
  by (simp add: wp_def split: prod.split sum.split)

lemma wp_any: "(\<And>a s'. Q a s') \<Longrightarrow> (\<And>e s'. E e s') \<Longrightarrow> wp m Q E s"
  by (simp add: wp_def split: prod.split sum.split)

lemma preserves_wpD: "preserves P m \<Longrightarrow> P s \<Longrightarrow> wp m (\<lambda>_. P) (\<lambda>_. P) s"
  by (simp add: preserves_wp)

lemma wp_no_error: "wp m (\<lambda>_. P) (\<lambda>_ _. False) s \<Longrightarrow> P (snd (m s))"
  by (simp add: wp_def split: prod.splits sum.splits)

lemma wp_run: "\<exists>s'. m s = (Inr a, s') \<and> P s' \<Longrightarrow> (\<And>s'. P s' \<Longrightarrow> Q a s') \<Longrightarrow> wp m Q E s"
  by (auto simp: wp_def)

lemma wp_bindA_value: "m s = (Inr a, s1) \<Longrightarrow> wp (bindA m f) Q E s = wp (f a) Q E s1"
  by (simp add: wp_def bindA_def)

lemma wp_fails: "\<not> is_ok (fst (m s)) \<Longrightarrow> (\<And>e s'. E e s') \<Longrightarrow> wp m Q E s"
  by (auto simp: wp_def not_is_ok_iff split: prod.split)

lemma wp_forA:
  "I xs s \<Longrightarrow> (\<And>x ys t. x \<in> set xs \<Longrightarrow> I (x # ys) t \<Longrightarrow> wp (f x) (\<lambda>_. I ys) E t) \<Longrightarrow> wp (forA xs f) (\<lambda>_. I []) E s"
proof (induction xs arbitrary: s)
  case (Cons x xs)
  have "wp (f x) (\<lambda>_. I xs) E s"
    using Cons.prems by simp
  moreover have "wp (forA xs f) (\<lambda>_. I []) E t" if "I xs t" for t
    using Cons.prems(2) that by (intro Cons.IH) auto
  ultimately show ?case
    by (auto simp: wp_simps elim: wp_mono)
qed (simp add: wp_simps)

text \<open>\<open>yields Q m\<close>: whatever the state, a value that the action returns is in \<open>Q\<close>.\<close>

definition yields :: "('a \<Rightarrow> bool) \<Rightarrow> ('s, 'a) act \<Rightarrow> bool" where
  "yields Q m \<longleftrightarrow> (\<forall>s. wp m (\<lambda>a _. Q a) (\<lambda>_ _. True) s)"

lemma yieldsD: "yields Q m \<Longrightarrow> m s = (Inr a, s') \<Longrightarrow> Q a"
  by (auto simp: yields_def elim: wp_Inr)

lemma yields_ok [yields_intros]: "Q a \<Longrightarrow> yields Q (ok a)"
  by (simp add: yields_def wp_simps)

lemma yields_err [yields_intros]: "yields Q (err e)"
  by (simp add: yields_def wp_simps)

lemma yields_bindA: "yields R m \<Longrightarrow> (\<And>a. R a \<Longrightarrow> yields Q (f a)) \<Longrightarrow> yields Q (bindA m f)"
  by (fastforce simp: yields_def wp_simps elim: wp_mono)

lemma yields_bindA_any [yields_intros]: "(\<And>a. yields Q (f a)) \<Longrightarrow> yields Q (bindA m f)"
  by (simp add: yields_def wp_simps wp_any)

lemma yields_if [yields_intros]:
  "(b \<Longrightarrow> yields Q m) \<Longrightarrow> (\<not> b \<Longrightarrow> yields Q n) \<Longrightarrow> yields Q (if b then m else n)"
  by simp

lemma yields_option [yields_intros]:
  "yields Q m \<Longrightarrow> (\<And>a. yields Q (f a)) \<Longrightarrow> yields Q (case x of None \<Rightarrow> m | Some a \<Rightarrow> f a)"
  by (cases x) simp_all

lemma yields_sum [yields_intros]:
  "(\<And>e. yields Q (f e)) \<Longrightarrow> (\<And>a. yields Q (g a)) \<Longrightarrow> yields Q (case x of Inl e \<Rightarrow> f e | Inr a \<Rightarrow> g a)"
  by (cases x) simp_all

lemma yields_prod [yields_intros]:
  "(\<And>a b. yields Q (f a b)) \<Longrightarrow> yields Q (case x of (a, b) \<Rightarrow> f a b)"
  by (cases x) simp

lemma preserves_prod [pres_intros]:
  "(\<And>a b. preserves P (f a b)) \<Longrightarrow> preserves P (case x of (a, b) \<Rightarrow> f a b)"
  by (cases x) simp

section \<open>Hash maps\<close>

text \<open>
  A \<open>HashMap\<close> is an association list with distinct keys. Rust leaves the iteration order
  unspecified; the list order stands for the order of one run, and no statement of the
  development depends on how it came about.
\<close>

type_synonym ('k, 'v) hmap = "('k \<times> 'v) list"

abbreviation hm_get :: "('k, 'v) hmap \<Rightarrow> 'k \<Rightarrow> 'v option" where
  "hm_get \<equiv> map_of"

abbreviation hm_insert :: "'k \<Rightarrow> 'v \<Rightarrow> ('k, 'v) hmap \<Rightarrow> ('k, 'v) hmap" where
  "hm_insert \<equiv> AList.update"

abbreviation hm_remove :: "'k \<Rightarrow> ('k, 'v) hmap \<Rightarrow> ('k, 'v) hmap" where
  "hm_remove \<equiv> AList.delete"

abbreviation hm_keys :: "('k, 'v) hmap \<Rightarrow> 'k list" where
  "hm_keys m \<equiv> map fst m"

definition hm_wf :: "('k, 'v) hmap \<Rightarrow> bool" where
  "hm_wf m \<longleftrightarrow> distinct (map fst m)"

text \<open>\<open>HashMap::extend\<close>: insert every pair, later ones win.\<close>

definition hm_extend :: "('k, 'v) hmap \<Rightarrow> ('k, 'v) hmap \<Rightarrow> ('k, 'v) hmap" where
  "hm_extend m n = fold (\<lambda>(k, v). hm_insert k v) n m"

lemma hm_get_insert: "hm_get (hm_insert k v m) = (hm_get m)(k \<mapsto> v)"
  by (rule update_conv')

lemma hm_get_remove: "hm_get (hm_remove k m) = (hm_get m)(k := None)"
  by (rule delete_conv')

lemma hm_wf_Nil [simp]: "hm_wf []"
  by (simp add: hm_wf_def)

lemma hm_wf_insert: "hm_wf m \<Longrightarrow> hm_wf (hm_insert k v m)"
  by (simp add: hm_wf_def distinct_update)

lemma hm_wf_remove: "hm_wf m \<Longrightarrow> hm_wf (hm_remove k m)"
  by (simp add: hm_wf_def distinct_delete)

lemma hm_keys_insert: "set (hm_keys (hm_insert k v m)) = insert k (set (hm_keys m))"
  using dom_update [of k v m] by (simp add: dom_map_of_conv_image_fst)

lemma hm_keys_remove: "set (hm_keys (hm_remove k m)) = set (hm_keys m) - {k}"
  by (auto simp: AList.delete_eq)

lemma hm_get_None: "hm_get m k = None \<longleftrightarrow> k \<notin> set (hm_keys m)"
  by (simp add: map_of_eq_None_iff)

lemma hm_insert_fresh: "k \<notin> set (hm_keys m) \<Longrightarrow> hm_insert k v m = m @ [(k, v)]"
  by (induction m) auto

lemma hm_insert_present:
  "k \<in> set (hm_keys m) \<Longrightarrow> hm_keys (hm_insert k v m) = hm_keys m"
  by (induction m) auto

lemma hm_length_insert:
  "length (hm_insert k v m) = (if k \<in> set (hm_keys m) then length m else Suc (length m))"
  by (induction m) auto

lemma hm_remove_absent: "k \<notin> set (hm_keys m) \<Longrightarrow> hm_remove k m = m"
  by (force simp: AList.delete_eq filter_id_conv)

lemma hm_length_remove:
  "hm_wf m \<Longrightarrow> k \<in> set (hm_keys m) \<Longrightarrow> Suc (length (hm_remove k m)) = length m"
proof (induction m)
  case (Cons p m)
  show ?case
  proof (cases "fst p = k")
    case True
    with Cons.prems have "hm_remove k m = m"
      by (intro hm_remove_absent) (simp add: hm_wf_def)
    with True show ?thesis by (cases p) simp
  next
    case False
    with Cons show ?thesis by (cases p) (auto simp: hm_wf_def)
  qed
qed simp

lemma hm_remove_insert_fresh: "k \<notin> set (hm_keys m) \<Longrightarrow> hm_remove k (hm_insert k v m) = m"
  by (induction m) (auto simp: hm_remove_absent)

lemma hm_in_get: "hm_wf m \<Longrightarrow> (k, v) \<in> set m \<longleftrightarrow> hm_get m k = Some v"
  by (simp add: hm_wf_def)

lemma hm_get_key: "hm_get m k = Some v \<Longrightarrow> k \<in> set (hm_keys m)"
  by (force dest: map_of_SomeD)

lemma hm_set_insert: "hm_wf m \<Longrightarrow> set (hm_insert k v m) = insert (k, v) {x \<in> set m. fst x \<noteq> k}"
  by (induction m) (auto simp: hm_wf_def image_iff)

lemma hm_set_remove: "set (hm_remove k m) = {x \<in> set m. fst x \<noteq> k}"
  by (auto simp: AList.delete_eq)

lemma hm_insert_twice [simp]: "hm_insert k v (hm_insert k u m) = hm_insert k v m"
  by (induction m) auto

lemma hm_remove_insert [simp]: "hm_remove k (hm_insert k v m) = hm_remove k m"
  by (induction m) (auto simp: AList.delete_eq)

lemma hm_all_insert:
  "(\<forall>p\<in>set m. P p) \<Longrightarrow> P (k, v) \<Longrightarrow> (\<forall>p\<in>set (hm_insert k v m). P p)"
  by (induction m) auto

lemma hm_all_remove: "(\<forall>p\<in>set m. P p) \<Longrightarrow> (\<forall>p\<in>set (hm_remove k m). P p)"
  by (auto simp: AList.delete_eq)

lemma hm_wf_extend: "hm_wf m \<Longrightarrow> hm_wf (hm_extend m n)"
  unfolding hm_extend_def by (induction n arbitrary: m) (auto intro: hm_wf_insert)

lemma hm_get_extend:
  "hm_wf n \<Longrightarrow> hm_get (hm_extend m n) k = (case hm_get n k of None \<Rightarrow> hm_get m k | Some v \<Rightarrow> Some v)"
proof (induction n arbitrary: m)
  case Nil
  then show ?case by (simp add: hm_extend_def)
next
  case (Cons p n)
  obtain a b where p: "p = (a, b)" by (cases p)
  have wf: "hm_wf n" and fresh: "hm_get n a = None"
    using Cons.prems by (auto simp: hm_wf_def p map_of_eq_None_iff)
  have "hm_get (hm_extend m (p # n)) k = hm_get (hm_extend (hm_insert a b m) n) k"
    by (simp add: hm_extend_def p)
  also have "\<dots> = (case hm_get n k of None \<Rightarrow> hm_get (hm_insert a b m) k | Some v \<Rightarrow> Some v)"
    using wf by (rule Cons.IH)
  finally show ?case using fresh by (auto simp: p hm_get_insert split: option.split)
qed

section \<open>Interfaces shared by the components\<close>

subsection \<open>A keyed store\<close>

locale keyed_store =
  fixes get :: "'m \<Rightarrow> 'k \<Rightarrow> 'v option"
    and put :: "'k \<Rightarrow> 'v \<Rightarrow> 'm \<Rightarrow> 'm"
    and del :: "'k \<Rightarrow> 'm \<Rightarrow> 'm"
    and wf :: "'m \<Rightarrow> bool"
  assumes get_put: "wf m \<Longrightarrow> get (put k v m) = (get m)(k \<mapsto> v)"
    and get_del: "wf m \<Longrightarrow> get (del k m) = (get m)(k := None)"
    and wf_put: "wf m \<Longrightarrow> wf (put k v m)"
    and wf_del: "wf m \<Longrightarrow> wf (del k m)"
begin

lemma wf_put_all: "wf m \<Longrightarrow> wf (fold (\<lambda>(k, v). put k v) kvs m)"
  by (induction kvs arbitrary: m) (auto intro: wf_put)

lemma get_put_all:
  "wf m \<Longrightarrow> get (fold (\<lambda>(k, v). put k v) kvs m) = get m ++ map_of (rev kvs)"
proof (induction kvs arbitrary: m)
  case (Cons p kvs)
  then show ?case
    by (cases p) (simp add: wf_put get_put map_add_def fun_eq_iff split: option.split)
qed simp

lemma wf_del_all: "wf m \<Longrightarrow> wf (fold del ks m)"
  by (induction ks arbitrary: m) (auto intro: wf_del)

lemma get_del_all: "wf m \<Longrightarrow> get (fold del ks m) k = (if k \<in> set ks then None else get m k)"
  by (induction ks arbitrary: m) (auto simp: wf_del get_del)

lemma put_put_same: "wf m \<Longrightarrow> get (put k v (put k u m)) = get (put k v m)"
  by (simp add: wf_put get_put)

lemma del_put_same: "wf m \<Longrightarrow> get (del k (put k v m)) = get (del k m)"
  by (simp add: wf_put wf_del get_put get_del)

end

interpretation hm: keyed_store hm_get hm_insert hm_remove hm_wf
  by unfold_locales (simp_all add: hm_get_insert hm_get_remove hm_wf_insert hm_wf_remove)

subsection \<open>An encoder and its decoder\<close>

locale codec =
  fixes enc :: "'a \<Rightarrow> 'b"
    and dec :: "'b \<Rightarrow> 'a option"
    and valid :: "'a \<Rightarrow> bool"
  assumes dec_enc: "valid a \<Longrightarrow> dec (enc a) = Some a"
begin

lemma enc_inj: "valid a \<Longrightarrow> valid b \<Longrightarrow> enc a = enc b \<longleftrightarrow> a = b"
  by (metis dec_enc option.inject)

lemma enc_inj_on: "inj_on enc {a. valid a}"
  by (auto simp: inj_on_def enc_inj)

lemma dec_enc_list: "list_all valid as \<Longrightarrow> map (dec \<circ> enc) as = map Some as"
  by (induction as) (auto simp: dec_enc)

end

subsection \<open>A machine that keeps an invariant\<close>

locale machine =
  fixes init :: "'s \<Rightarrow> bool"
    and step :: "'i \<Rightarrow> 's \<Rightarrow> 's"
    and inv :: "'s \<Rightarrow> bool"
  assumes inv_init: "init s \<Longrightarrow> inv s"
    and inv_step: "inv s \<Longrightarrow> inv (step i s)"
begin

lemma inv_run: "inv s \<Longrightarrow> inv (fold step is s)"
  by (induction "is" arbitrary: s) (auto intro: inv_step)

lemma inv_from_init: "init s \<Longrightarrow> inv (fold step is s)"
  by (intro inv_run inv_init)

end

end
