(* ===== verification/Rust_Str.thy ===== *)
theory Rust_Str
  imports Prelude
begin

text \<open>
  The parts of Rust's \<open>str\<close> that the sources use: \<open>split\<close>, \<open>splitn\<close>, \<open>split_once\<close>,
  \<open>join\<close>, \<open>trim\<close>, \<open>trim_matches\<close>, \<open>strip_prefix\<close>, \<open>contains\<close>, \<open>lines\<close>, and the
  decimal printing and parsing of unsigned integers. A text is a list of characters, each a
  Unicode scalar value below 256; white space and the alphanumeric class are exact on that
  range.
\<close>

section \<open>Splitting and joining\<close>

fun split_on :: "char \<Rightarrow> string \<Rightarrow> string list" where
  "split_on c [] = [[]]"
| "split_on c (x # xs) =
     (if x = c then [] # split_on c xs
      else (case split_on c xs of [] \<Rightarrow> [[x]] | p # ps \<Rightarrow> (x # p) # ps))"

fun join_with :: "string \<Rightarrow> string list \<Rightarrow> string" where
  "join_with sep [] = []"
| "join_with sep [p] = p"
| "join_with sep (p # q # ps) = p @ sep @ join_with sep (q # ps)"

fun split_once :: "char \<Rightarrow> string \<Rightarrow> (string \<times> string) option" where
  "split_once c [] = None"
| "split_once c (x # xs) =
     (if x = c then Some ([], xs)
      else map_option (\<lambda>(a, b). (x # a, b)) (split_once c xs))"

text \<open>\<open>splitn(2, c)\<close>.\<close>

definition splitn2 :: "char \<Rightarrow> string \<Rightarrow> string list" where
  "splitn2 c s = (case split_once c s of None \<Rightarrow> [s] | Some (a, b) \<Rightarrow> [a, b])"

lemma split_on_nonempty [simp]: "split_on c s \<noteq> []"
  by (induction s) (auto split: list.split)

lemma split_on_no_sep: "c \<notin> set s \<Longrightarrow> split_on c s = [s]"
  by (induction s) auto

lemma split_on_append: "split_on c (a @ c # b) = split_on c a @ split_on c b"
proof (induction a)
  case (Cons x a)
  then show ?case by (cases "split_on c a") (auto simp: split_on_nonempty)
qed simp

lemma split_on_sep: "p \<in> set (split_on c s) \<Longrightarrow> c \<notin> set p"
proof (induction s arbitrary: p)
  case (Cons x s)
  then show ?case
    by (cases "split_on c s") (auto split: if_splits)
qed simp

lemma join_split [simp]: "join_with [c] (split_on c s) = s"
proof (induction s)
  case (Cons x s)
  then show ?case
    by (cases "split_on c s"; cases "tl (split_on c s)") auto
qed simp

lemma split_join:
  "ps \<noteq> [] \<Longrightarrow> (\<And>p. p \<in> set ps \<Longrightarrow> c \<notin> set p) \<Longrightarrow> split_on c (join_with [c] ps) = ps"
proof (induction "[c]" ps rule: join_with.induct)
  case (3 p q ps)
  then show ?case by (simp add: split_on_append split_on_no_sep)
qed (auto simp: split_on_no_sep)

lemma length_split_on: "length (split_on c s) = Suc (count_list s c)"
  by (induction s) (auto split: list.split)

lemma split_once_Some: "split_once c s = Some (a, b) \<longleftrightarrow> s = a @ c # b \<and> c \<notin> set a"
proof (induction s arbitrary: a b)
  case (Cons x s)
  then show ?case by (cases a) auto
qed simp

lemma split_once_None: "split_once c s = None \<longleftrightarrow> c \<notin> set s"
  by (induction s) auto

section \<open>Prefixes and substrings\<close>

definition starts_with :: "string \<Rightarrow> string \<Rightarrow> bool" where
  "starts_with p s \<longleftrightarrow> take (length p) s = p"

definition ends_with :: "string \<Rightarrow> string \<Rightarrow> bool" where
  "ends_with p s \<longleftrightarrow> starts_with (rev p) (rev s)"

definition strip_prefix :: "string \<Rightarrow> string \<Rightarrow> string option" where
  "strip_prefix p s = (if starts_with p s then Some (drop (length p) s) else None)"

fun contains_str :: "string \<Rightarrow> string \<Rightarrow> bool" where
  "contains_str p [] \<longleftrightarrow> p = []"
| "contains_str p (x # s) \<longleftrightarrow> starts_with p (x # s) \<or> contains_str p s"

lemma starts_with_iff: "starts_with p s \<longleftrightarrow> (\<exists>t. s = p @ t)"
  by (auto simp: starts_with_def) (metis append_take_drop_id)

lemma starts_with_append [simp]: "starts_with p (p @ s)"
  by (simp add: starts_with_def)

lemma strip_prefix_Some: "strip_prefix p s = Some t \<longleftrightarrow> s = p @ t"
  by (auto simp: strip_prefix_def starts_with_iff)

lemma strip_prefix_append [simp]: "strip_prefix p (p @ t) = Some t"
  by (simp add: strip_prefix_Some)

lemma contains_str_iff: "contains_str p s \<longleftrightarrow> (\<exists>a b. s = a @ p @ b)"
proof (induction s)
  case (Cons x s)
  show ?case
  proof
    assume "contains_str p (x # s)"
    then show "\<exists>a b. x # s = a @ p @ b"
      using Cons.IH starts_with_iff [of p "x # s"] by (metis append_Cons append_Nil contains_str.simps(2))
  next
    assume "\<exists>a b. x # s = a @ p @ b"
    then obtain a b where eq: "x # s = a @ p @ b" by blast
    show "contains_str p (x # s)"
    proof (cases a)
      case Nil
      with eq have "starts_with p (x # s)" by (auto simp: starts_with_iff)
      then show ?thesis by simp
    next
      case (Cons y a')
      with eq Cons.IH show ?thesis by auto
    qed
  qed
qed auto

section \<open>White space and trimming\<close>

definition is_ws :: "char \<Rightarrow> bool" where
  "is_ws c = (let n = (of_char c :: nat) in
     9 \<le> n \<and> n \<le> 13 \<or> n = 32 \<or> n = 133 \<or> n = 160)"

definition trim_with :: "(char \<Rightarrow> bool) \<Rightarrow> string \<Rightarrow> string" where
  "trim_with p s = rev (dropWhile p (rev (dropWhile p s)))"

definition trim :: "string \<Rightarrow> string" where
  "trim = trim_with is_ws"

definition trim_matches :: "char \<Rightarrow> string \<Rightarrow> string" where
  "trim_matches c = trim_with (\<lambda>x. x = c)"

definition trim_start_matches :: "char \<Rightarrow> string \<Rightarrow> string" where
  "trim_start_matches c = dropWhile (\<lambda>x. x = c)"

lemma trim_with_id:
  "s = [] \<or> (\<not> p (hd s) \<and> \<not> p (last s)) \<Longrightarrow> trim_with p s = s"
proof (cases s)
  case (Cons x xs)
  assume "s = [] \<or> (\<not> p (hd s) \<and> \<not> p (last s))"
  with Cons have "dropWhile p s = s" and "\<not> p (hd (rev s))"
    by (simp, metis Cons hd_rev list.distinct(1))
  moreover from this Cons have "dropWhile p (rev s) = rev s"
    by (cases "rev s") simp_all
  ultimately show ?thesis by (simp add: trim_with_def)
qed (simp add: trim_with_def)

lemma trim_with_ends: "trim_with p s = [] \<or> (\<not> p (hd (trim_with p s)) \<and> \<not> p (last (trim_with p s)))"
proof (cases "trim_with p s = []")
  case False
  define t where "t = dropWhile p s"
  have ne: "dropWhile p (rev t) \<noteq> []"
    using False by (simp add: trim_with_def t_def)
  have l: "\<not> p (last (trim_with p s))"
    using ne by (simp add: trim_with_def t_def [symmetric] last_rev hd_dropWhile)
  have "t \<noteq> []" using ne by auto
  then have ht: "\<not> p (hd t)" by (simp add: t_def hd_dropWhile)
  obtain u where "rev t = u @ dropWhile p (rev t)"
    by (metis takeWhile_dropWhile_id)
  then have "t = trim_with p s @ rev u"
    by (metis rev_append rev_rev_ident t_def trim_with_def)
  then have "hd (trim_with p s) = hd t"
    using False by (metis hd_append2)
  with ht l show ?thesis by simp
qed simp

lemma trim_with_idem [simp]: "trim_with p (trim_with p s) = trim_with p s"
  by (rule trim_with_id) (rule trim_with_ends)

lemma trim_idem [simp]: "trim (trim s) = trim s"
  by (simp add: trim_def)

lemma set_trim_with: "set (trim_with p s) \<subseteq> set s"
  by (auto simp: trim_with_def dest!: set_dropWhileD)

section \<open>Lines\<close>

abbreviation newline :: char where "newline \<equiv> CHR 0x0A"
abbreviation carriage :: char where "carriage \<equiv> CHR 0x0D"

definition strip_cr :: "string \<Rightarrow> string" where
  "strip_cr l = (if l \<noteq> [] \<and> last l = carriage then butlast l else l)"

text \<open>A line ends at a newline, with one carriage return before it removed; text after the last newline counts.\<close>

definition lines_of :: "string \<Rightarrow> string list" where
  "lines_of s = (let ps = split_on newline s in
     map strip_cr (butlast ps) @ (if last ps = [] then [] else [last ps]))"

lemma lines_of_Nil [simp]: "lines_of [] = []"
  by (simp add: lines_of_def)

lemma lines_of_line:
  "newline \<notin> set l \<Longrightarrow> lines_of (l @ newline # s) = strip_cr l # lines_of s"
  by (simp add: lines_of_def split_on_append split_on_no_sep Let_def)

lemma lines_of_unlines:
  "(\<And>l. l \<in> set ls \<Longrightarrow> newline \<notin> set l \<and> (l = [] \<or> last l \<noteq> carriage)) \<Longrightarrow>
   lines_of (concat (map (\<lambda>l. l @ [newline]) ls)) = ls"
proof (induction ls)
  case (Cons l ls)
  have "newline \<notin> set l" and "strip_cr l = l"
    using Cons.prems [of l] by (auto simp: strip_cr_def)
  with Cons show ?case by (simp add: lines_of_line)
qed simp

section \<open>Decimal numbers\<close>

definition digit_char :: "nat \<Rightarrow> char" where
  "digit_char d = char_of (48 + d)"

definition is_digit :: "char \<Rightarrow> bool" where
  "is_digit c = (let n = (of_char c :: nat) in 48 \<le> n \<and> n \<le> 57)"

definition digit_val :: "char \<Rightarrow> nat" where
  "digit_val c = of_char c - 48"

fun show_nat :: "nat \<Rightarrow> string" where
  "show_nat n = (if n < 10 then [digit_char n] else show_nat (n div 10) @ [digit_char (n mod 10)])"

declare show_nat.simps [simp del]

definition digits_val :: "string \<Rightarrow> nat" where
  "digits_val s = foldl (\<lambda>a c. 10 * a + digit_val c) 0 s"

text \<open>
  \<open>str::parse\<close> for an unsigned integer of \<open>w\<close> bits: one leading plus is allowed, then at least
  one decimal digit, and a value out of range is an error.
\<close>

definition parse_uint :: "nat \<Rightarrow> string \<Rightarrow> nat option" where
  "parse_uint w s =
     (let ds = (case s of [] \<Rightarrow> [] | c # t \<Rightarrow> if c = CHR ''+'' then t else s) in
      if ds \<noteq> [] \<and> list_all is_digit ds \<and> digits_val ds < 2 ^ w then Some (digits_val ds) else None)"

definition parse_u16 :: "string \<Rightarrow> u16 option" where
  "parse_u16 s = map_option of_nat (parse_uint 16 s)"

definition parse_u64 :: "string \<Rightarrow> u64 option" where
  "parse_u64 s = map_option of_nat (parse_uint 64 s)"

definition show_word :: "'w::len word \<Rightarrow> string" where
  "show_word x = show_nat (unat x)"

lemma digit_char_props:
  assumes "d < 10"
  shows "is_digit (digit_char d)" and "digit_val (digit_char d) = d"
proof -
  have "of_char (digit_char d) = 48 + d"
    using assms by (simp add: digit_char_def)
  then show "is_digit (digit_char d)" and "digit_val (digit_char d) = d"
    using assms by (simp_all add: is_digit_def digit_val_def)
qed

lemma digits_val_snoc: "digits_val (s @ [c]) = 10 * digits_val s + digit_val c"
  by (simp add: digits_val_def)

lemma show_nat_nonempty [simp]: "show_nat n \<noteq> []"
  by (subst show_nat.simps) simp

lemma show_nat_digits: "list_all is_digit (show_nat n)"
proof (induction n rule: show_nat.induct)
  case (1 n)
  then show ?case
    by (cases "n < 10") (simp_all add: show_nat.simps [of n] digit_char_props)
qed

lemma digits_val_show: "digits_val (show_nat n) = n"
proof (induction n rule: show_nat.induct)
  case (1 n)
  then show ?case
    by (cases "n < 10")
      (simp_all add: show_nat.simps [of n] digits_val_snoc digit_char_props, simp add: digits_val_def digit_char_props)
qed

lemma not_digit_punct:
  "\<not> is_digit (CHR '':'')" "\<not> is_digit (CHR ''+'')" "\<not> is_digit (CHR '','')" "\<not> is_digit (CHR ''/'')"
  by (simp_all add: is_digit_def)

lemma show_nat_no_char: "\<not> is_digit c \<Longrightarrow> c \<notin> set (show_nat n)"
  using show_nat_digits [of n] by (auto simp: list_all_iff)

lemma parse_show_uint: "n < 2 ^ w \<Longrightarrow> parse_uint w (show_nat n) = Some n"
proof -
  assume n: "n < 2 ^ w"
  have "hd (show_nat n) \<noteq> CHR ''+''"
    using show_nat_no_char [OF not_digit_punct(2), of n] by (metis hd_in_set show_nat_nonempty)
  then have "(case show_nat n of [] \<Rightarrow> [] | c # t \<Rightarrow> if c = CHR ''+'' then t else show_nat n) = show_nat n"
    by (cases "show_nat n") auto
  with n show ?thesis
    by (simp add: parse_uint_def show_nat_digits digits_val_show)
qed

lemma parse_uint_bound: "parse_uint w s = Some n \<Longrightarrow> n < 2 ^ w"
  by (auto simp: parse_uint_def Let_def split: if_splits)

lemma parse_show_u16 [simp]: "parse_u16 (show_word p) = Some p"
proof -
  have "unat p < 2 ^ 16" using unsigned_less [of p, where ?'a = nat] by simp
  then show ?thesis by (simp add: parse_u16_def show_word_def parse_show_uint)
qed

lemma parse_show_u64 [simp]: "parse_u64 (show_word p) = Some p"
proof -
  have "unat p < 2 ^ 64" using unsigned_less [of p, where ?'a = nat] by simp
  then show ?thesis by (simp add: parse_u64_def show_word_def parse_show_uint)
qed

lemma show_word_no_char: "\<not> is_digit c \<Longrightarrow> c \<notin> set (show_word p)"
  by (simp add: show_word_def show_nat_no_char)

interpretation dec16: codec show_word parse_u16 "\<lambda>_. True"
  by unfold_locales simp

interpretation dec64: codec show_word parse_u64 "\<lambda>_. True"
  by unfold_locales simp

section \<open>Character classes\<close>

text \<open>\<open>char::is_alphanumeric\<close> below 256: ASCII letters and digits, and the Latin-1 letters and numerals.\<close>

definition is_alphanumeric :: "char \<Rightarrow> bool" where
  "is_alphanumeric c = (let n = (of_char c :: nat) in
     48 \<le> n \<and> n \<le> 57 \<or> 65 \<le> n \<and> n \<le> 90 \<or> 97 \<le> n \<and> n \<le> 122
     \<or> n = 170 \<or> n = 178 \<or> n = 179 \<or> n = 181 \<or> n = 185 \<or> n = 186
     \<or> 188 \<le> n \<and> n \<le> 190 \<or> 192 \<le> n \<and> n \<noteq> 215 \<and> n \<noteq> 247)"

section \<open>Splitting at a text\<close>

text \<open>\<open>str::split\<close> with a text as the separator; the empty separator is not used by the sources.\<close>

function split_str :: "string \<Rightarrow> string \<Rightarrow> string list" where
  "split_str p [] = [[]]"
| "split_str p (x # s) =
     (if p \<noteq> [] \<and> starts_with p (x # s) then [] # split_str p (drop (length p) (x # s))
      else (case split_str p s of [] \<Rightarrow> [[x]] | q # qs \<Rightarrow> (x # q) # qs))"
  by pat_completeness auto
termination by (relation "measure (\<lambda>(p, s). length s)") auto

lemma split_str_nonempty [simp]: "split_str p s \<noteq> []"
  by (induction p s rule: split_str.induct) (auto split: list.split)

lemma split_str_none: "\<not> contains_str p s \<Longrightarrow> split_str p s = [s]"
  by (induction s) auto

lemma split_str_first:
  assumes "c \<notin> set p" and "\<not> contains_str (c # p) a"
  shows "split_str (c # p) (a @ (c # p) @ b) = a # split_str (c # p) b"
  using assms(2)
proof (induction a)
  case Nil
  then show ?case by (simp add: starts_with_def)
next
  case (Cons x a)
  have "\<not> starts_with (c # p) (x # a @ (c # p) @ b)"
  proof
    assume st: "starts_with (c # p) (x # a @ (c # p) @ b)"
    then have x: "x = c" and t: "take (length p) (a @ (c # p) @ b) = p" by (simp_all add: starts_with_def)
    have "length p \<le> length a"
    proof (rule ccontr)
      assume "\<not> length p \<le> length a"
      then have "c \<in> set (take (length p) (a @ (c # p) @ b))"
        by (cases "length p - length a") (auto simp: take_append)
      with t assms(1) show False by simp
    qed
    with x t have "starts_with (c # p) (x # a)" by (simp add: starts_with_def)
    with Cons.prems show False by simp
  qed
  with Cons show ?case by simp
qed

lemma trim_with_outer: "list_all p a \<Longrightarrow> list_all p b \<Longrightarrow> trim_with p (a @ s @ b) = trim_with p s"
proof -
  assume a: "list_all p a" and b: "list_all p b"
  have drop: "list_all p xs \<Longrightarrow> dropWhile p (xs @ ys) = dropWhile p ys" for xs ys by (induction xs) auto
  show ?thesis
  proof (cases "dropWhile p s = []")
    case True
    then have "list_all p s" by (simp add: list_all_iff)
    with a b have "dropWhile p (a @ s @ b) = []" by (simp only: dropWhile_eq_Nil_conv list_all_iff set_append ball_Un simp_thms)
    with True show ?thesis unfolding trim_with_def by (simp only:)
  next
    case False
    have "dropWhile p (a @ s @ b) = dropWhile p s @ b"
      using drop [OF a, of "s @ b"] False by (auto simp: dropWhile_append)
    moreover have "list_all p (rev b)" using b by (simp add: list_all_iff)
    ultimately show ?thesis using drop [of "rev b"] by (simp add: trim_with_def)
  qed
qed

end
