(* ===== verification/Rust_Path.thy ===== *)
theory Rust_Path
  imports Rust_Str "HOL-Library.Sublist"
begin

text \<open>
  \<open>std::path\<close> on Unix as far as the sources use it: the components of a path, \<open>join\<close>,
  \<open>file_name\<close>, \<open>parent\<close>, \<open>extension\<close> and the component-wise \<open>starts_with\<close>. None of these
  touches the file system, so none resolves \<open>..\<close>; the last section makes that precise for
  the traversal checks of the sources.
\<close>

section \<open>Components\<close>

datatype comp = RootDir | CurDir | ParentDir | Normal string

definition body_comps :: "string list \<Rightarrow> comp list" where
  "body_comps ps = map (\<lambda>x. if x = ''..'' then ParentDir else Normal x)
     (filter (\<lambda>x. x \<noteq> '''' \<and> x \<noteq> ''.'') ps)"

definition is_absolute :: "string \<Rightarrow> bool" where
  "is_absolute p \<longleftrightarrow> starts_with ''/'' p"

definition components :: "string \<Rightarrow> comp list" where
  "components p =
     (let ps = split_on (CHR ''/'') p in
      if is_absolute p then RootDir # body_comps ps
      else if hd ps = ''.'' then CurDir # body_comps ps
      else body_comps ps)"

definition path_starts_with :: "string \<Rightarrow> string \<Rightarrow> bool" where
  "path_starts_with p base \<longleftrightarrow> prefix (components base) (components p)"

definition path_join :: "string \<Rightarrow> string \<Rightarrow> string" where
  "path_join base p =
     (if is_absolute p then p
      else if base = [] \<or> last base = CHR ''/'' then base @ p
      else base @ ''/'' @ p)"

definition file_name :: "string \<Rightarrow> string option" where
  "file_name p = (case rev (components p) of Normal x # _ \<Rightarrow> Some x | _ \<Rightarrow> None)"

fun show_comp :: "comp \<Rightarrow> string" where
  "show_comp RootDir = ''''"
| "show_comp CurDir = ''.''"
| "show_comp ParentDir = ''..''"
| "show_comp (Normal x) = x"

definition show_comps :: "comp list \<Rightarrow> string" where
  "show_comps cs = (if cs = [RootDir] then ''/'' else join_with ''/'' (map show_comp cs))"

text \<open>\<open>parent\<close>: all components but the last, unless there is none or only the root.\<close>

definition path_parent :: "string \<Rightarrow> string option" where
  "path_parent p =
     (case rev (components p) of
        [] \<Rightarrow> None
      | RootDir # _ \<Rightarrow> None
      | _ # rs \<Rightarrow> Some (show_comps (rev rs)))"

text \<open>\<open>extension\<close>: the text after the last dot of the file name, if that dot is not its first character.\<close>

definition extension :: "string \<Rightarrow> string option" where
  "extension p =
     (case file_name p of
        None \<Rightarrow> None
      | Some f \<Rightarrow> (case split_once (CHR ''.'') (rev f) of
                     None \<Rightarrow> None
                   | Some (e, b) \<Rightarrow> if b = [] then None else Some (rev e)))"

lemma is_absolute_iff: "is_absolute p \<longleftrightarrow> (\<exists>q. p = CHR ''/'' # q)"
  by (auto simp: is_absolute_def starts_with_iff)

lemma body_comps_append [simp]: "body_comps (a @ b) = body_comps a @ body_comps b"
  by (simp add: body_comps_def)

lemma body_comps_no_root [simp]: "RootDir \<notin> set (body_comps ps)" "CurDir \<notin> set (body_comps ps)"
  by (auto simp: body_comps_def)

lemma components_Nil [simp]: "components [] = []"
  by (simp add: components_def body_comps_def is_absolute_iff)

section \<open>Joining\<close>

text \<open>The components that a relative path adds when it is joined behind another one: a leading \<open>.\<close> vanishes.\<close>

definition rel_comps :: "string \<Rightarrow> comp list" where
  "rel_comps p = body_comps (split_on (CHR ''/'') p)"

lemma components_sep:
  assumes "b \<noteq> []"
  shows "components (b @ CHR ''/'' # p) = components b @ rel_comps p"
proof -
  obtain x b' where b: "b = x # b'" using assms by (cases b) auto
  have abs: "is_absolute (b @ CHR ''/'' # p) \<longleftrightarrow> is_absolute b"
    by (auto simp: b is_absolute_iff)
  have hd: "hd (split_on (CHR ''/'') (b @ CHR ''/'' # p)) = hd (split_on (CHR ''/'') b)"
    by (simp add: split_on_append)
  show ?thesis
    by (simp add: components_def Let_def abs hd split_on_append rel_comps_def)
qed

lemma components_trailing:
  assumes "last b = CHR ''/''" and "b \<noteq> []" and "b \<noteq> ''/''"
  shows "components (b @ p) = components b @ rel_comps p"
proof -
  obtain c where c: "b = c @ [CHR ''/'']" and ne: "c \<noteq> []"
    using assms by (metis append_Nil append_butlast_last_id)
  have "components b = components c @ rel_comps []"
    using components_sep [OF ne, of "[]"] by (simp add: c)
  then show ?thesis
    using components_sep [OF ne, of p] by (simp add: c rel_comps_def body_comps_def)
qed

lemma components_root: "components (CHR ''/'' # p) = RootDir # rel_comps p"
  by (simp add: components_def is_absolute_iff rel_comps_def body_comps_def Let_def)

lemma components_join:
  assumes "base \<noteq> []" and "\<not> is_absolute p"
  shows "components (path_join base p) = components base @ rel_comps p"
proof (cases "last base = CHR ''/''")
  case False
  with assms show ?thesis by (simp add: path_join_def components_sep)
next
  case True
  show ?thesis
  proof (cases "base = ''/''")
    case True
    with assms show ?thesis
      by (simp add: path_join_def components_root rel_comps_def body_comps_def)
  next
    case False
    with True assms show ?thesis by (simp add: path_join_def components_trailing)
  qed
qed

lemma join_relative_starts_with:
  "base \<noteq> [] \<Longrightarrow> \<not> is_absolute p \<Longrightarrow> path_starts_with (path_join base p) base"
  by (simp add: path_starts_with_def components_join)

lemma join_absolute: "is_absolute p \<Longrightarrow> path_join base p = p"
  by (simp add: path_join_def)

lemma path_starts_with_refl [simp]: "path_starts_with p p"
  by (simp add: path_starts_with_def)

lemma path_starts_with_trans:
  "path_starts_with p q \<Longrightarrow> path_starts_with q r \<Longrightarrow> path_starts_with p r"
  by (auto simp: path_starts_with_def intro: prefix_order.trans)

lemma trim_start_not_absolute: "\<not> is_absolute (trim_start_matches (CHR ''/'') s)"
  by (induction s) (auto simp: trim_start_matches_def is_absolute_iff)

text \<open>The last name of a path is a single plain component, and it is the last name of any path it is joined to.\<close>

lemma split_on_pieces: "x \<in> set (split_on c s) \<Longrightarrow> c \<notin> set x"
  by (induction s arbitrary: x) (auto split: list.splits if_splits)

lemma file_name_plain:
  assumes "file_name p = Some f"
  shows "CHR ''/'' \<notin> set f" and "f \<noteq> ''''" and "f \<noteq> ''.''" and "f \<noteq> ''..''"
proof -
  have "Normal f \<in> set (components p)"
    using assms by (auto simp: file_name_def split: list.splits comp.splits)
  then have "Normal f \<in> set (body_comps (split_on (CHR ''/'') p))"
    by (auto simp: components_def Let_def split: if_splits)
  then have "f \<in> set (split_on (CHR ''/'') p) \<and> f \<noteq> '''' \<and> f \<noteq> ''.'' \<and> f \<noteq> ''..''"
    by (auto simp: body_comps_def split: if_splits)
  then show "CHR ''/'' \<notin> set f" and "f \<noteq> ''''" and "f \<noteq> ''.''" and "f \<noteq> ''..''"
    using split_on_pieces by auto
qed

lemma rel_comps_file_name: "file_name p = Some f \<Longrightarrow> rel_comps f = [Normal f]"
  using file_name_plain [of p f] by (simp add: rel_comps_def body_comps_def split_on_no_sep)

lemma file_name_join:
  assumes "file_name p = Some f" and "base \<noteq> []"
  shows "file_name (path_join base f) = Some f"
proof -
  have "\<not> is_absolute f" using file_name_plain(1) [OF assms(1)] by (auto simp: is_absolute_iff)
  then show ?thesis
    using assms by (simp add: file_name_def [of "path_join base f"] components_join rel_comps_file_name)
qed

section \<open>Paths the operating system resolves\<close>

text \<open>
  The kernel walks the components from the root or the working directory; without symbolic
  links \<open>..\<close> steps back one name. A resolved path is the list of names from the root.
\<close>

type_synonym rpath = "string list"

fun walk :: "rpath \<Rightarrow> comp list \<Rightarrow> rpath" where
  "walk acc [] = acc"
| "walk acc (RootDir # cs) = walk [] cs"
| "walk acc (CurDir # cs) = walk acc cs"
| "walk acc (ParentDir # cs) = walk (butlast acc) cs"
| "walk acc (Normal x # cs) = walk (acc @ [x]) cs"

definition resolve :: "rpath \<Rightarrow> string \<Rightarrow> rpath" where
  "resolve cwd p = walk cwd (components p)"

lemma walk_append: "walk acc (cs @ ds) = walk (walk acc cs) ds"
  by (induction acc cs rule: walk.induct) simp_all

lemma resolve_join:
  "base \<noteq> [] \<Longrightarrow> \<not> is_absolute p \<Longrightarrow> resolve cwd (path_join base p) = walk (resolve cwd base) (rel_comps p)"
  by (simp add: resolve_def components_join walk_append)

text \<open>With only names in it, a relative path stays below the directory it is joined to.\<close>

definition plain_relative :: "string \<Rightarrow> bool" where
  "plain_relative p \<longleftrightarrow> \<not> is_absolute p \<and> ParentDir \<notin> set (rel_comps p)"

lemma walk_names:
  "ParentDir \<notin> set cs \<Longrightarrow> RootDir \<notin> set cs \<Longrightarrow> prefix acc (walk acc cs)"
proof (induction acc cs rule: walk.induct)
  case (5 acc x cs)
  then have "prefix (acc @ [x]) (walk (acc @ [x]) cs)" by simp
  then show ?case by (auto simp: prefix_def)
qed auto

lemma plain_relative_inside:
  "base \<noteq> [] \<Longrightarrow> plain_relative p \<Longrightarrow> prefix (resolve cwd base) (resolve cwd (path_join base p))"
  by (simp add: plain_relative_def resolve_join walk_names rel_comps_def)

end
