(* ===== verification/Rust_Fs.thy ===== *)
theory Rust_Fs
  imports Rust_Path
begin

text \<open>
  The calls of \<open>std::fs\<close> that the sources make, on a file system with a tree of names over
  inodes. Names and contents are separate because two behaviours of the program depend on it:
  a process that keeps a log file open while the file is renamed, and a copy of a file onto
  itself. Symbolic links are absent from the tree; \<open>canonicalize\<close> is answered by a field of the
  state, so that statements about it hold whatever links exist. A second field may let any
  call fail with an operating-system message.
\<close>

section \<open>State\<close>

datatype node = Dir | File nat

datatype fsop = OpRead | OpWrite | OpMkdir | OpRemove | OpRename | OpCopy | OpReadDir | OpMeta

record fsys =
  fs_cwd :: rpath
  fs_tree :: "(rpath, node) hmap"
  fs_data :: "nat \<Rightarrow> string"
  fs_mode :: "nat \<Rightarrow> nat"
  fs_next :: nat
  fs_fault :: "fsop \<Rightarrow> rpath \<Rightarrow> string option"
  fs_canon :: "string \<Rightarrow> string result"

definition enoent :: string where "enoent = ''No such file or directory (os error 2)''"
definition eexist :: string where "eexist = ''File exists (os error 17)''"
definition enotdir :: string where "enotdir = ''Not a directory (os error 20)''"
definition eisdir :: string where "eisdir = ''Is a directory (os error 21)''"
definition enotempty :: string where "enotempty = ''Directory not empty (os error 39)''"
definition enametoolong :: string where "enametoolong = ''File name too long (os error 36)''"
definition einval_copy :: string where
  "einval_copy = ''the source path is neither a regular file nor a symlink to a regular file''"

definition fs_node :: "fsys \<Rightarrow> rpath \<Rightarrow> node option" where
  "fs_node fs k = (if k = [] then Some Dir else hm_get (fs_tree fs) k)"

abbreviation fs_res :: "fsys \<Rightarrow> string \<Rightarrow> rpath" where
  "fs_res fs p \<equiv> resolve (fs_cwd fs) p"

definition fs_exists :: "string \<Rightarrow> fsys \<Rightarrow> bool" where
  "fs_exists p fs \<longleftrightarrow> fs_node fs (fs_res fs p) \<noteq> None"

definition fs_is_dir :: "string \<Rightarrow> fsys \<Rightarrow> bool" where
  "fs_is_dir p fs \<longleftrightarrow> fs_node fs (fs_res fs p) = Some Dir"

definition fs_is_file :: "string \<Rightarrow> fsys \<Rightarrow> bool" where
  "fs_is_file p fs \<longleftrightarrow> (\<exists>i. fs_node fs (fs_res fs p) = Some (File i))"

lemma fs_is_file_code [code]:
  "fs_is_file p fs = (case fs_node fs (fs_res fs p) of Some (File i) \<Rightarrow> True | _ \<Rightarrow> False)"
  by (auto simp: fs_is_file_def split: option.split node.split)

text \<open>What a path holds, for statements.\<close>

definition fs_content :: "fsys \<Rightarrow> string \<Rightarrow> string option" where
  "fs_content fs p = (case fs_node fs (fs_res fs p) of Some (File i) \<Rightarrow> Some (fs_data fs i) | _ \<Rightarrow> None)"

section \<open>Calls\<close>

definition guarded :: "fsop \<Rightarrow> string \<Rightarrow> (fsys, 'a) act \<Rightarrow> (fsys, 'a) act" where
  "guarded op p m fs = (case fs_fault fs op (fs_res fs p) of Some e \<Rightarrow> (Inl e, fs) | None \<Rightarrow> m fs)"

definition new_file :: "rpath \<Rightarrow> (fsys, nat) act" where
  "new_file k fs =
     (case fs_node fs (butlast k) of
        None \<Rightarrow> (Inl enoent, fs)
      | Some (File _) \<Rightarrow> (Inl enotdir, fs)
      | Some Dir \<Rightarrow> (let i = fs_next fs in
          (Inr i, fs\<lparr>fs_tree := hm_insert k (File i) (fs_tree fs), fs_data := (fs_data fs)(i := []),
                     fs_mode := (fs_mode fs)(i := 420), fs_next := Suc i\<rparr>)))"

text \<open>Open for writing, created if missing, cut to length zero.\<close>

definition open_trunc :: "string \<Rightarrow> (fsys, nat) act" where
  "open_trunc p fs =
     (case fs_node fs (fs_res fs p) of
        Some Dir \<Rightarrow> (Inl eisdir, fs)
      | Some (File i) \<Rightarrow> (Inr i, fs\<lparr>fs_data := (fs_data fs)(i := [])\<rparr>)
      | None \<Rightarrow> new_file (fs_res fs p) fs)"

text \<open>Open for appending, created if missing.\<close>

definition open_append :: "string \<Rightarrow> (fsys, nat) act" where
  "open_append p = guarded OpWrite p (\<lambda>fs.
     (case fs_node fs (fs_res fs p) of
        Some Dir \<Rightarrow> (Inl eisdir, fs)
      | Some (File i) \<Rightarrow> (Inr i, fs)
      | None \<Rightarrow> new_file (fs_res fs p) fs))"

definition fd_write :: "nat \<Rightarrow> string \<Rightarrow> fsys \<Rightarrow> fsys" where
  "fd_write i d fs = fs\<lparr>fs_data := (fs_data fs)(i := fs_data fs i @ d)\<rparr>"

definition fs_write :: "string \<Rightarrow> string \<Rightarrow> (fsys, unit) act" where
  "fs_write p d = guarded OpWrite p (bindA (open_trunc p) (\<lambda>i. modify (fd_write i d)))"

definition fs_read :: "string \<Rightarrow> (fsys, string) act" where
  "fs_read p = guarded OpRead p (\<lambda>fs.
     (case fs_node fs (fs_res fs p) of
        None \<Rightarrow> (Inl enoent, fs)
      | Some Dir \<Rightarrow> (Inl eisdir, fs)
      | Some (File i) \<Rightarrow> (Inr (fs_data fs i), fs)))"

text \<open>
  \<open>std::fs::copy\<close> opens the source, then the destination with truncation, then copies the bytes
  that the source holds now and its permission bits.
\<close>

definition fs_copy :: "string \<Rightarrow> string \<Rightarrow> (fsys, unit) act" where
  "fs_copy src dst = guarded OpCopy src (\<lambda>fs.
     (case fs_node fs (fs_res fs src) of
        None \<Rightarrow> (Inl enoent, fs)
      | Some Dir \<Rightarrow> (Inl einval_copy, fs)
      | Some (File i) \<Rightarrow>
          bindA (open_trunc dst) (\<lambda>j. modify (\<lambda>fs.
            fs\<lparr>fs_data := (fs_data fs)(j := fs_data fs i), fs_mode := (fs_mode fs)(j := fs_mode fs i)\<rparr>)) fs))"

fun mkdirs :: "rpath \<Rightarrow> rpath \<Rightarrow> (fsys, unit) act" where
  "mkdirs acc [] fs = (Inr (), fs)"
| "mkdirs acc (x # xs) fs =
     (let k = acc @ [x] in
      case fs_node fs k of
        Some Dir \<Rightarrow> mkdirs k xs fs
      | Some (File _) \<Rightarrow> (Inl (if xs = [] then eexist else enotdir), fs)
      | None \<Rightarrow> mkdirs k xs (fs\<lparr>fs_tree := hm_insert k Dir (fs_tree fs)\<rparr>))"

definition fs_create_dir_all :: "string \<Rightarrow> (fsys, unit) act" where
  "fs_create_dir_all p = guarded OpMkdir p (\<lambda>fs. mkdirs [] (fs_res fs p) fs)"

definition fs_remove_file :: "string \<Rightarrow> (fsys, unit) act" where
  "fs_remove_file p = guarded OpRemove p (\<lambda>fs.
     (case fs_node fs (fs_res fs p) of
        None \<Rightarrow> (Inl enoent, fs)
      | Some Dir \<Rightarrow> (Inl eisdir, fs)
      | Some (File _) \<Rightarrow> (Inr (), fs\<lparr>fs_tree := hm_remove (fs_res fs p) (fs_tree fs)\<rparr>)))"

definition fs_remove_dir_all :: "string \<Rightarrow> (fsys, unit) act" where
  "fs_remove_dir_all p = guarded OpRemove p (\<lambda>fs.
     (let k = fs_res fs p in
      case fs_node fs k of
        None \<Rightarrow> (Inl enoent, fs)
      | Some (File _) \<Rightarrow> (Inl enotdir, fs)
      | Some Dir \<Rightarrow> (Inr (), fs\<lparr>fs_tree := filter (\<lambda>(q, _). \<not> prefix k q) (fs_tree fs)\<rparr>)))"

definition has_children :: "fsys \<Rightarrow> rpath \<Rightarrow> bool" where
  "has_children fs k \<longleftrightarrow> list_ex (\<lambda>(q, _). strict_prefix k q) (fs_tree fs)"

text \<open>A rename moves a file over an existing one, or a directory with all below it.\<close>

definition fs_rename :: "string \<Rightarrow> string \<Rightarrow> (fsys, unit) act" where
  "fs_rename a b = guarded OpRename a (\<lambda>fs.
     (let k = fs_res fs a; l = fs_res fs b in
      case fs_node fs k of
        None \<Rightarrow> (Inl enoent, fs)
      | Some (File i) \<Rightarrow>
          (if fs_node fs l = Some Dir then (Inl eisdir, fs)
           else if fs_node fs (butlast l) \<noteq> Some Dir then (Inl enoent, fs)
           else (Inr (), fs\<lparr>fs_tree := hm_insert l (File i) (hm_remove k (fs_tree fs))\<rparr>))
      | Some Dir \<Rightarrow>
          (case fs_node fs l of
             Some (File _) \<Rightarrow> (Inl enotdir, fs)
           | Some Dir \<Rightarrow> if has_children fs l then (Inl enotempty, fs)
                         else (Inr (), fs\<lparr>fs_tree := map (\<lambda>(q, n). (if prefix k q then l @ drop (length k) q else q, n))
                                (hm_remove l (fs_tree fs))\<rparr>)
           | None \<Rightarrow> (Inr (), fs\<lparr>fs_tree := map (\<lambda>(q, n). (if prefix k q then l @ drop (length k) q else q, n))
                                (fs_tree fs)\<rparr>))))"

definition fs_len :: "string \<Rightarrow> (fsys, nat) act" where
  "fs_len p = guarded OpMeta p (\<lambda>fs.
     (case fs_node fs (fs_res fs p) of
        None \<Rightarrow> (Inl enoent, fs)
      | Some Dir \<Rightarrow> (Inr 4096, fs)
      | Some (File i) \<Rightarrow> (Inr (length (fs_data fs i)), fs)))"

definition fs_read_dir :: "string \<Rightarrow> (fsys, string list) act" where
  "fs_read_dir p = guarded OpReadDir p (\<lambda>fs.
     (let k = fs_res fs p in
      case fs_node fs k of
        None \<Rightarrow> (Inl enoent, fs)
      | Some (File _) \<Rightarrow> (Inl enotdir, fs)
      | Some Dir \<Rightarrow> (Inr (map (last \<circ> fst) (filter (\<lambda>(q, _). q \<noteq> [] \<and> butlast q = k) (fs_tree fs))), fs)))"

definition fs_set_mode :: "string \<Rightarrow> nat \<Rightarrow> (fsys, unit) act" where
  "fs_set_mode p m = guarded OpMeta p (\<lambda>fs.
     (case fs_node fs (fs_res fs p) of
        None \<Rightarrow> (Inl enoent, fs)
      | Some Dir \<Rightarrow> (Inr (), fs)
      | Some (File i) \<Rightarrow> (Inr (), fs\<lparr>fs_mode := (fs_mode fs)(i := m)\<rparr>)))"

section \<open>Laws\<close>

definition fs_quiet :: "fsys \<Rightarrow> bool" where
  "fs_quiet fs \<longleftrightarrow> (\<forall>op k. fs_fault fs op k = None)"

lemma guarded_quiet [simp]: "fs_quiet fs \<Longrightarrow> guarded op p m fs = m fs"
  by (simp add: guarded_def fs_quiet_def)

lemma fs_read_iff:
  "fs_quiet fs \<Longrightarrow> fst (fs_read p fs) = Inr d \<longleftrightarrow> fs_content fs p = Some d"
  by (simp add: fs_read_def fs_content_def split: option.split node.split)

lemma fs_read_state [simp]: "snd (fs_read p fs) = fs"
  by (simp add: fs_read_def guarded_def split: option.split node.split)

lemma fs_len_state [simp]: "snd (fs_len p fs) = fs"
  by (simp add: fs_len_def guarded_def split: option.split node.split)

lemma fs_read_dir_state [simp]: "snd (fs_read_dir p fs) = fs"
  by (simp add: fs_read_dir_def guarded_def Let_def split: option.split node.split)

text \<open>What was written is read back, on a path that was free or held a file.\<close>

lemma fs_read_after_write:
  assumes "fs_write p d fs = (Inr (), fs')"
  shows "fs_content fs' p = Some d"
  using assms
  by (auto simp: fs_write_def guarded_def bindA_def open_trunc_def new_file_def modify_def fd_write_def
      fs_content_def fs_node_def Let_def update_conv' split: option.splits node.splits if_splits)

text \<open>Copying between different inodes reproduces the content.\<close>

lemma fs_copy_content:
  assumes "fs_quiet fs" and src: "fs_node fs (fs_res fs src) = Some (File i)"
    and dst: "fs_node fs (fs_res fs dst) = Some (File j)" and "i \<noteq> j"
  shows "fst (fs_copy src dst fs) = Inr () \<and>
    fs_content (snd (fs_copy src dst fs)) dst = Some (fs_data fs i)"
  using assms
  by (simp add: fs_copy_def bindA_def open_trunc_def modify_def fs_content_def fs_node_def split: if_splits)

text \<open>
  Copying a file onto itself succeeds and leaves it empty: the destination is cut before the
  source is read.
\<close>

lemma fs_copy_self:
  assumes "fs_quiet fs" and same: "fs_res fs src = fs_res fs dst"
    and src: "fs_node fs (fs_res fs src) = Some (File i)"
  shows "fst (fs_copy src dst fs) = Inr () \<and>
    fs_content (snd (fs_copy src dst fs)) dst = Some []"
  using assms
  by (simp add: fs_copy_def bindA_def open_trunc_def modify_def fs_content_def fs_node_def split: if_splits)

text \<open>No call of this theory changes the working directory or the two fields that stand for the environment.\<close>

definition fs_env :: "fsys \<Rightarrow> rpath \<times> (fsop \<Rightarrow> rpath \<Rightarrow> string option) \<times> (string \<Rightarrow> string result)" where
  "fs_env fs = (fs_cwd fs, fs_fault fs, fs_canon fs)"

lemma mkdirs_env: "fs_env (snd (mkdirs acc xs fs)) = fs_env fs"
  by (induction acc xs fs rule: mkdirs.induct)
    (auto simp: Let_def fs_env_def split: option.split node.split)

lemma fs_create_dir_all_env: "fs_env (snd (fs_create_dir_all p fs)) = fs_env fs"
  by (simp add: fs_create_dir_all_def guarded_def mkdirs_env split: option.split)

text \<open>Once made, a directory chain is found complete, and making it again changes nothing.\<close>

definition dirs_from :: "rpath \<Rightarrow> rpath \<Rightarrow> fsys \<Rightarrow> bool" where
  "dirs_from acc xs fs \<longleftrightarrow> (\<forall>ys. prefix ys xs \<longrightarrow> ys \<noteq> [] \<longrightarrow> fs_node fs (acc @ ys) = Some Dir)"

lemma dirs_from_Cons:
  "dirs_from acc (x # xs) fs \<longleftrightarrow> fs_node fs (acc @ [x]) = Some Dir \<and> dirs_from (acc @ [x]) xs fs"
proof
  assume all: "dirs_from acc (x # xs) fs"
  have "fs_node fs (acc @ [x]) = Some Dir"
    using all by (simp add: dirs_from_def)
  moreover have "fs_node fs (acc @ x # ys) = Some Dir" if "prefix ys xs" for ys
    using all that by (simp add: dirs_from_def)
  ultimately show "fs_node fs (acc @ [x]) = Some Dir \<and> dirs_from (acc @ [x]) xs fs"
    by (simp add: dirs_from_def)
next
  assume "fs_node fs (acc @ [x]) = Some Dir \<and> dirs_from (acc @ [x]) xs fs"
  then show "dirs_from acc (x # xs) fs"
    by (auto simp: dirs_from_def prefix_Cons)
qed

lemma mkdirs_mono: "fs_node fs k = Some n \<Longrightarrow> fs_node (snd (mkdirs acc xs fs)) k = Some n"
  by (induction acc xs fs rule: mkdirs.induct)
    (auto simp: Let_def fs_node_def update_conv' split: option.split node.split if_splits)

lemma mkdirs_made: "mkdirs acc xs fs = (Inr (), fs') \<Longrightarrow> dirs_from acc xs fs'"
proof (induction acc xs fs arbitrary: fs' rule: mkdirs.induct)
  case (2 acc x xs fs)
  show ?case
  proof (cases "fs_node fs (acc @ [x])")
    case None
    let ?fs1 = "fs\<lparr>fs_tree := hm_insert (acc @ [x]) Dir (fs_tree fs)\<rparr>"
    have "fs_node ?fs1 (acc @ [x]) = Some Dir" by (simp add: fs_node_def update_conv')
    then have "fs_node fs' (acc @ [x]) = Some Dir"
      using "2.prems" None mkdirs_mono [of ?fs1 "acc @ [x]" Dir "acc @ [x]" xs] by (simp add: Let_def)
    then show ?thesis
      using "2.IH"(1) [OF refl None] "2.prems" None by (simp add: dirs_from_Cons Let_def)
  next
    case (Some n)
    with "2.prems" have n: "n = Dir" by (cases n) (simp_all add: Let_def)
    then have "fs_node fs' (acc @ [x]) = Some Dir"
      using "2.prems" Some mkdirs_mono [of fs "acc @ [x]" Dir "acc @ [x]" xs] by (simp add: Let_def)
    then show ?thesis
      using "2.IH"(2) [OF refl _ n] "2.prems" Some n by (simp add: dirs_from_Cons Let_def)
  qed
qed (simp add: dirs_from_def)

lemma mkdirs_again: "dirs_from acc xs fs \<Longrightarrow> mkdirs acc xs fs = (Inr (), fs)"
  by (induction acc xs fs rule: mkdirs.induct) (simp_all add: dirs_from_Cons Let_def)

lemma dirs_from_mono:
  "dirs_from acc xs fs \<Longrightarrow> (\<And>k. fs_node fs k = Some Dir \<Longrightarrow> fs_node fs' k = Some Dir) \<Longrightarrow> dirs_from acc xs fs'"
  by (simp add: dirs_from_def)

text \<open>A successful copy leaves a file at the destination and every directory in place.\<close>

lemma fs_copy_result:
  assumes "fs_copy src dst fs = (Inr (), fs')"
  shows "\<exists>j. fs_node fs' (fs_res fs dst) = Some (File j)"
    and "fs_node fs k = Some Dir \<Longrightarrow> fs_node fs' k = Some Dir"
    and "fs_env fs' = fs_env fs"
  using assms
  by (auto simp: fs_copy_def guarded_def bindA_def open_trunc_def new_file_def modify_def fs_node_def fs_env_def Let_def
      update_conv' split: option.splits node.splits if_splits sum.splits prod.splits)

lemma fs_set_mode_tree [simp]:
  "fs_tree (snd (fs_set_mode p m fs)) = fs_tree fs" "fs_data (snd (fs_set_mode p m fs)) = fs_data fs"
  "fs_env (snd (fs_set_mode p m fs)) = fs_env fs"
  by (simp_all add: fs_set_mode_def guarded_def fs_env_def split: option.split node.split)

lemma fs_env_quiet: "fs_env fs' = fs_env fs \<Longrightarrow> fs_quiet fs' = fs_quiet fs"
  by (simp add: fs_env_def fs_quiet_def)

lemma fs_env_res: "fs_env fs' = fs_env fs \<Longrightarrow> fs_cwd fs' = fs_cwd fs"
  by (simp add: fs_env_def)

lemma fs_set_mode_node [simp]: "fs_node (snd (fs_set_mode p m fs)) = fs_node fs"
  by (rule ext) (simp add: fs_node_def)

end
