(* ===== verification/Protocol.thy ===== *)
theory Protocol
  imports Rust_Str
begin

text \<open>
  \<open>src/protocol.rs\<close>: the data that the daemon and its clients exchange, and the wire format of a
  message, a four-byte big-endian length before the JSON text. The JSON library is a parameter
  (a serialiser and a parser), and so are the asynchronous reader and writer: actions on some
  stream state. Theorems instantiate the streams with an in-memory byte queue.
\<close>

unbundle bit_operations_syntax

section \<open>Process types\<close>

datatype process_mode = Bin | Run

record port_mapping =
  pm_host :: "string option"
  pm_public_port :: u16
  pm_app_port :: "u16 option"

record ssl_config =
  ssl_cert_path :: string
  ssl_key_path :: string

record process_config =
  pc_name :: string
  pc_path :: string
  pc_args :: "string list"
  pc_env_vars :: "(string, string) hmap"
  pc_env_file :: "string option"
  pc_mode :: process_mode
  pc_port_mapping :: "port_mapping option"
  pc_spa :: bool
  pc_ssl :: "ssl_config option"
  pc_acme :: "string option"
  pc_deny :: "string list"
  pc_allow :: "string list"
  pc_is_oci :: bool
  pc_oci_reference :: "string option"
  pc_pid_file :: "string option"
  pc_volumes :: "string list"

datatype process_status = Running | Stopped | Errored | Starting

text \<open>Times are milliseconds.\<close>

record process_info =
  pi_name :: string
  pi_pid :: "u32 option"
  pi_status :: process_status
  pi_mode :: process_mode
  pi_path :: string
  pi_port_mapping :: "port_mapping option"
  pi_started_at :: "int option"
  pi_restart_count :: u32
  pi_uptime_secs :: "u64 option"

section \<open>Messages\<close>

datatype request =
    ReqBin process_config
  | ReqRun process_config
  | ReqLs
  | ReqDel string
  | ReqRestart string
  | ReqReload string
  | ReqUpdate (upd_name: string) (upd_port: "string option") (upd_ssl: "string list option")
      (upd_acme: "string option") (upd_env_file: "string option") (upd_args: "string option")
      (upd_image: "string option")
  | ReqLogs string nat
  | ReqSet string string
  | ReqExport
  | ReqSave
  | ReqKill
  | ReqLink string
  | ReqUnlink
  | ReqMetricsEnable u16
  | ReqMetricsDisable

datatype response =
    RespOk string
  | RespProcessList "process_info list"
  | RespConfigList "process_config list"
  | RespLogs string
  | RespError string

section \<open>Wire format\<close>

definition to_be_bytes :: "u32 \<Rightarrow> u8 list" where
  "to_be_bytes x = [ucast (drop_bit 24 x), ucast (drop_bit 16 x), ucast (drop_bit 8 x), ucast x]"

fun from_be_bytes :: "u8 list \<Rightarrow> u32" where
  "from_be_bytes [a, b, c, d] =
     push_bit 24 (ucast a) OR push_bit 16 (ucast b) OR push_bit 8 (ucast c) OR ucast d"
| "from_be_bytes _ = 0"

definition write_message ::
  "('m \<Rightarrow> u8 list result) \<Rightarrow> (u8 list \<Rightarrow> ('w, unit) act) \<Rightarrow> ('w, unit) act \<Rightarrow> 'm \<Rightarrow> ('w, unit) act" where
  "write_message to_vec write_all flush msg =
     (case to_vec msg of
        Inl e \<Rightarrow> err e
      | Inr data \<Rightarrow>
          bindA (write_all (to_be_bytes (of_nat (length data)))) (\<lambda>_.
          bindA (write_all data) (\<lambda>_. flush)))"

definition max_message :: nat where
  "max_message = 10 * 1024 * 1024"

definition read_message ::
  "(u8 list \<Rightarrow> 'm result) \<Rightarrow> (nat \<Rightarrow> ('r, u8 list) act) \<Rightarrow> ('r, 'm) act" where
  "read_message from_slice read_exact =
     bindA (read_exact 4) (\<lambda>len_buf.
       let len = unat (from_be_bytes len_buf) in
       if len > max_message then err ''message too large''
       else bindA (read_exact len) (\<lambda>buf.
         case from_slice buf of Inl e \<Rightarrow> err e | Inr m \<Rightarrow> ok m))"

text \<open>An in-memory stream: a queue of bytes.\<close>

definition mem_write_all :: "u8 list \<Rightarrow> (u8 list, unit) act" where
  "mem_write_all d s = (Inr (), s @ d)"

definition mem_flush :: "(u8 list, unit) act" where
  "mem_flush s = (Inr (), s)"

definition mem_read_exact :: "nat \<Rightarrow> (u8 list, u8 list) act" where
  "mem_read_exact n s = (if n \<le> length s then (Inr (take n s), drop n s) else (Inl ''early eof'', []))"

lemma be_bytes_roundtrip [simp]: "from_be_bytes (to_be_bytes x) = x"
proof -
  have "push_bit 24 (ucast (ucast (drop_bit 24 x) :: u8)) OR push_bit 16 (ucast (ucast (drop_bit 16 x) :: u8))
      OR push_bit 8 (ucast (ucast (drop_bit 8 x) :: u8)) OR ucast (ucast x :: u8) = (x :: u32)"
  proof (rule bit_word_eqI)
    fix n
    assume n: "n < LENGTH(32)"
    consider "n < 8" | "8 \<le> n \<and> n < 16" | "16 \<le> n \<and> n < 24" | "24 \<le> n \<and> n < 32"
      using n by fastforce
    then show "bit (push_bit 24 (ucast (ucast (drop_bit 24 x) :: u8)) OR push_bit 16 (ucast (ucast (drop_bit 16 x) :: u8))
      OR push_bit 8 (ucast (ucast (drop_bit 8 x) :: u8)) OR (ucast (ucast x :: u8) :: u32)) n = bit x n"
      by cases (auto simp: bit_simps)
  qed
  then show ?thesis by (simp add: to_be_bytes_def)
qed

lemma to_be_bytes_length [simp]: "length (to_be_bytes x) = 4"
  by (simp add: to_be_bytes_def)

interpretation be32: codec to_be_bytes "\<lambda>b. Some (from_be_bytes b)" "\<lambda>_. True"
  by unfold_locales simp

lemma unat_of_len: "n < 2 ^ 32 \<Longrightarrow> unat (of_nat n :: u32) = n"
  by (simp add: unat_of_nat take_bit_nat_eq_self)

lemma write_message_mem:
  "to_vec m = Inr d \<Longrightarrow>
   write_message to_vec mem_write_all mem_flush m s = (Inr (), s @ to_be_bytes (of_nat (length d)) @ d)"
  by (simp add: write_message_def bindA_def mem_write_all_def mem_flush_def)

lemma read_header: "mem_read_exact 4 (to_be_bytes x @ s) = (Inr (to_be_bytes x), s)"
  by (simp add: mem_read_exact_def to_be_bytes_def)

text \<open>C20: A message written to a stream is read back unchanged, and what follows it in the stream is left for the next read.\<close>

theorem message_roundtrip:
  assumes "to_vec m = Inr d" and "from_slice d = Inr m" and "length d \<le> max_message"
  shows "read_message from_slice mem_read_exact
     (snd (write_message to_vec mem_write_all mem_flush m []) @ rest) = (Inr m, rest)"
proof -
  have len: "unat (of_nat (length d) :: u32) = length d"
    using assms(3) by (intro unat_of_len) (simp add: max_message_def)
  have "snd (write_message to_vec mem_write_all mem_flush m []) @ rest
      = to_be_bytes (of_nat (length d)) @ d @ rest"
    by (simp add: write_message_mem [of to_vec m d, OF assms(1)])
  then show ?thesis
    using assms(2,3)
    by (simp add: read_message_def bindA_def read_header len Let_def) (simp add: mem_read_exact_def)
qed

theorem message_roundtrip_witness:
  "read_message (\<lambda>b. Inr b) mem_read_exact
     (snd (write_message (\<lambda>b. Inr b) mem_write_all mem_flush [7, 8, 9] []) @ [1, 2]) = (Inr [7, 8, 9], [1, 2])"
  by (rule message_roundtrip [where d = "[7, 8, 9]"]) (simp_all add: max_message_def)

text \<open>A message longer than ten mebibytes (and below four gibibytes) is refused by the reader after the length, before any of its body is read.\<close>

theorem message_too_large:
  assumes "to_vec m = Inr d" and "max_message < length d" and "length d < 2 ^ 32"
  shows "read_message from_slice mem_read_exact
     (snd (write_message to_vec mem_write_all mem_flush m []) @ rest) = (Inl ''message too large'', d @ rest)"
proof -
  have "snd (write_message to_vec mem_write_all mem_flush m []) @ rest
      = to_be_bytes (of_nat (length d)) @ d @ rest"
    by (simp add: write_message_mem [of to_vec m d, OF assms(1)])
  then show ?thesis
    using assms(2) unat_of_len [OF assms(3)]
    by (simp add: read_message_def bindA_def read_header Let_def err_def)
qed

theorem message_too_large_witness:
  "read_message (\<lambda>b. Inr b) mem_read_exact
     (snd (write_message (\<lambda>n. Inr (replicate n 0)) mem_write_all mem_flush 10485761 []) @ [1])
   = (Inl ''message too large'', replicate 10485761 0 @ [1])"
  by (rule message_too_large) (simp_all add: max_message_def)

text \<open>
  C21: The reader never asks its stream for more than ten mebibytes at once: two streams that agree
  on requests up to that size give the same result and the same final state.
\<close>

theorem read_message_bounded:
  assumes "\<And>n. n \<le> max_message \<Longrightarrow> rd n = rd' n"
  shows "read_message from_slice rd = read_message from_slice rd'"
proof
  fix s
  have four: "rd 4 = rd' 4" using assms by (simp add: max_message_def)
  show "read_message from_slice rd s = read_message from_slice rd' s"
    by (auto simp: read_message_def bindA_def four Let_def assms split: prod.split sum.split)
qed

theorem read_message_bounded_witness:
  "read_message (\<lambda>b. Inr b) mem_read_exact
   = read_message (\<lambda>b. Inr b) (\<lambda>n. if n \<le> max_message then mem_read_exact n else err ''refused'')"
  by (rule read_message_bounded) simp

end
