(* ===== verification/World.thy ===== *)
theory World
  imports Rust_Fs Protocol
begin

text \<open>
  What the program runs against. The state of the world has the file system, the calls made so
  far on the metrics handles, and the rest, a type variable: child processes, clocks,
  registries, the key-value database. Code that is not part of the repository (tokio's child
  processes, the OCI client, the tar and JSON libraries, shlex, OpenSSL, SlateDB) is a field of
  the record \<open>xt\<close>, an argument of every definition that uses it.
\<close>

section \<open>Values that cross the boundary\<close>

datatype json = JNull | JBool bool | JNum string | JStr string | JArr "json list" | JObj "(string \<times> json) list"

fun json_get :: "string \<Rightarrow> json \<Rightarrow> json option" where
  "json_get k (JObj kvs) = map_of kvs k"
| "json_get k _ = None"

fun json_str :: "json \<Rightarrow> string option" where
  "json_str (JStr s) = Some s"
| "json_str _ = None"

fun json_array :: "json \<Rightarrow> json list option" where
  "json_array (JArr xs) = Some xs"
| "json_array _ = None"

text \<open>A child process handle, and the process id it reports.\<close>

record child =
  ch_handle :: nat
  ch_id :: "u32 option"

text \<open>A command to spawn; the sandbox part is the \<open>pre_exec\<close> closure's captured arguments.\<close>

record command =
  cmd_program :: string
  cmd_args :: "string list"
  cmd_env :: "(string, string) hmap"
  cmd_sandbox :: "(string list \<times> string list \<times> string) option"

record oci_layer =
  ly_digest :: string
  ly_media_type :: string

record image_manifest =
  im_config :: string
  im_layers :: "oci_layer list"

record tar_entry =
  te_path :: "string result"
  te_unpack :: "string \<Rightarrow> fsys \<Rightarrow> fsys"

section \<open>Metrics calls\<close>

datatype metric_op =
    ManagedInc | ManagedDec | ManagedSet int
  | RestartInc string
  | CpuSet string int | MemSet string int
  | OciPullInc | OciPullErrInc
  | ActiveInc | ActiveDec
  | CacheHit | CacheMiss
  | RequestInc string u16 string
  | DurationObserve int
  | ReceivedInc string u64 | SentInc string u64
  | SizeObserve u64
  | UpstreamErrInc string

text \<open>The value of the \<open>managed_processes\<close> gauge after a sequence of calls.\<close>

fun managed_step :: "metric_op \<Rightarrow> int \<Rightarrow> int" where
  "managed_step ManagedInc v = v + 1"
| "managed_step ManagedDec v = v - 1"
| "managed_step (ManagedSet n) v = n"
| "managed_step _ v = v"

definition managed_gauge :: "metric_op list \<Rightarrow> int" where
  "managed_gauge ops = fold managed_step ops 0"

lemma managed_gauge_snoc [simp]: "managed_gauge (ops @ [m]) = managed_step m (managed_gauge ops)"
  by (simp add: managed_gauge_def)

lemma managed_gauge_Nil [simp]: "managed_gauge [] = 0"
  by (simp add: managed_gauge_def)

section \<open>External code\<close>

record 'e xt =
  x_spawn :: "command \<Rightarrow> fsys \<Rightarrow> ('e, child) act"
  x_kill :: "child \<Rightarrow> 'e \<Rightarrow> 'e"
  x_try_wait :: "child \<Rightarrow> ('e, bool option) act"
  x_now :: "'e \<Rightarrow> int"
  x_proc_stats :: "u32 list \<Rightarrow> 'e \<Rightarrow> (u32, int \<times> int) hmap \<times> 'e"
  x_free_port :: "('e, u16) act"
  x_parse_reference :: "string \<Rightarrow> string option"
  x_pull_manifest :: "string \<Rightarrow> ('e, image_manifest) act"
  x_pull_blob :: "string \<Rightarrow> string \<Rightarrow> ('e, string) act"
  x_tar_entries :: "bool \<Rightarrow> string \<Rightarrow> (tar_entry result) list result"
  x_json_parse :: "string \<Rightarrow> json option"
  x_json_show :: "json \<Rightarrow> string"
  x_config_json :: "process_config \<Rightarrow> string result"
  x_config_parse :: "string \<Rightarrow> process_config result"
  x_configs_parse :: "string \<Rightarrow> process_config list result"
  x_shlex_split :: "string \<Rightarrow> string list option"
  x_shlex_join :: "string list \<Rightarrow> string option"
  x_db_put :: "string \<Rightarrow> string \<Rightarrow> ('e, unit) act"
  x_db_get :: "string \<Rightarrow> ('e, string option) act"
  x_db_delete :: "string \<Rightarrow> ('e, unit) act"
  x_db_scan :: "string \<Rightarrow> ('e, (string \<times> string) list \<times> string option) act"
  x_db_flush :: "('e, unit) act"
  x_db_close :: "('e, unit) act"
  x_parse_cert :: "string \<Rightarrow> string option"
  x_parse_key :: "string \<Rightarrow> string option"
  x_parse_chain :: "string \<Rightarrow> string list result"

text \<open>
  \<open>x_spawn\<close>: the spawned child or the error; \<open>x_kill\<close>: \<open>kill\<close> followed by \<open>wait\<close>, results
  dropped; \<open>x_try_wait\<close>: whether the child has exited, and if so whether with success;
  \<open>x_proc_stats\<close>: processor and memory use of the live processes among the given ids;
  \<open>x_free_port\<close>: the port of a listener bound to port 0; \<open>x_parse_reference\<close>,
  \<open>x_parse_cert\<close> and \<open>x_parse_key\<close>: the error message, if any; \<open>x_parse_chain\<close>: the
  certificates of a PEM text in order; \<open>x_tar_entries\<close>: the entries of
  a layer, decompressed first if the flag is set; \<open>x_db_scan\<close>: the pairs under a prefix and the
  error that ended the iteration, if one did.
\<close>

section \<open>World\<close>

record 'e world =
  w_fs :: fsys
  w_metrics :: "metric_op list"
  w_x :: 'e

definition onF :: "(fsys, 'a) act \<Rightarrow> ('e world, 'a) act" where
  "onF = zoom w_fs (\<lambda>fs w. w\<lparr>w_fs := fs\<rparr>)"

definition onX :: "('e, 'a) act \<Rightarrow> ('e world, 'a) act" where
  "onX = zoom w_x (\<lambda>e w. w\<lparr>w_x := e\<rparr>)"

definition metric :: "metric_op \<Rightarrow> ('e world, unit) act" where
  "metric m = modify (\<lambda>w. w\<lparr>w_metrics := w_metrics w @ [m]\<rparr>)"

text \<open>\<open>if let Some(m) = &self.metrics\<close>: the handle may be absent.\<close>

definition metric_if :: "bool \<Rightarrow> metric_op \<Rightarrow> ('e world, unit) act" where
  "metric_if present m = (if present then metric m else ok ())"

lemma onF_metrics [simp]: "w_metrics (snd (onF m w)) = w_metrics w"
  by (simp add: onF_def zoom_def split: prod.split)

lemma onX_metrics [simp]: "w_metrics (snd (onX m w)) = w_metrics w"
  by (simp add: onX_def zoom_def split: prod.split)

lemma onF_x [simp]: "w_x (snd (onF m w)) = w_x w"
  by (simp add: onF_def zoom_def split: prod.split)

lemma onX_fs [simp]: "w_fs (snd (onX m w)) = w_fs w"
  by (simp add: onX_def zoom_def split: prod.split)

lemma wp_onF [wp_simps]:
  "wp (onF m) Q E w = wp m (\<lambda>a fs. Q a (w\<lparr>w_fs := fs\<rparr>)) (\<lambda>e fs. E e (w\<lparr>w_fs := fs\<rparr>)) (w_fs w)"
  by (simp add: wp_def onF_def zoom_def split: prod.split sum.split)

lemma wp_onX [wp_simps]:
  "wp (onX m) Q E w = wp m (\<lambda>a e. Q a (w\<lparr>w_x := e\<rparr>)) (\<lambda>x e. E x (w\<lparr>w_x := e\<rparr>)) (w_x w)"
  by (simp add: wp_def onX_def zoom_def split: prod.split sum.split)

text \<open>The gauge of managed processes is left alone by everything but its own calls.\<close>

definition gauge_is :: "int \<Rightarrow> 'e world \<Rightarrow> bool" where
  "gauge_is v w \<longleftrightarrow> managed_gauge (w_metrics w) = v"

lemma gauge_onF [pres_intros]: "preserves (gauge_is v) (onF m)"
  by (simp add: preserves_def gauge_is_def)

lemma gauge_onX [pres_intros]: "preserves (gauge_is v) (onX m)"
  by (simp add: preserves_def gauge_is_def)

lemma gauge_metric:
  "(\<And>v. managed_step m v = v) \<Longrightarrow> preserves (gauge_is v) (metric m)"
  by (simp add: preserves_def gauge_is_def metric_def modify_def)

lemma gauge_metric_if:
  "(\<And>v. managed_step m v = v) \<Longrightarrow> preserves (gauge_is v) (metric_if b m)"
  by (simp add: metric_if_def gauge_metric pres_intros)

section \<open>A small concrete world\<close>

text \<open>
  Used where a statement is applied to a concrete input: a file system with nothing but the
  directories named, in which no call fails, and external code whose state is the number of
  processes started. Programs called \<open>bad\<close> fail to start, children with an odd id have exited
  with an error, and the database and the registry are down.
\<close>

definition sample_fs :: fsys where
  "sample_fs = \<lparr>fs_cwd = [''home''], fs_tree = [([''home''], Dir), ([''var''], Dir), ([''etc''], Dir)],
     fs_data = (\<lambda>_. []), fs_mode = (\<lambda>_. 420), fs_next = 1,
     fs_fault = (\<lambda>_ _. None), fs_canon = (\<lambda>p. Inr p)\<rparr>"

definition sample_xt :: "nat xt" where
  "sample_xt = \<lparr>
     x_spawn = (\<lambda>c fs n. if cmd_program c = ''bad'' then (Inl enoent, n)
                         else (Inr \<lparr>ch_handle = n, ch_id = Some (of_nat n)\<rparr>, Suc n)),
     x_kill = (\<lambda>_ n. n),
     x_try_wait = (\<lambda>c n. (Inr (if odd (ch_handle c) then Some False else None), n)),
     x_now = (\<lambda>n. int n),
     x_proc_stats = (\<lambda>_ n. ([], n)),
     x_free_port = (\<lambda>n. (Inr 40000, n)),
     x_parse_reference = (\<lambda>_. None),
     x_pull_manifest = (\<lambda>_ n. (Inl ''registry unreachable'', n)),
     x_pull_blob = (\<lambda>_ _ n. (Inl ''registry unreachable'', n)),
     x_tar_entries = (\<lambda>_ _. Inr []),
     x_json_parse = (\<lambda>_. None),
     x_json_show = (\<lambda>_. ''{}''),
     x_config_json = (\<lambda>_. Inl ''unsupported''),
     x_config_parse = (\<lambda>_. Inl ''unsupported''),
     x_configs_parse = (\<lambda>_. Inl ''unsupported''),
     x_shlex_split = (\<lambda>s. Some (split_on (CHR '' '') s)),
     x_shlex_join = (\<lambda>xs. Some (join_with '' '' xs)),
     x_db_put = (\<lambda>_ _ n. (Inl ''database down'', n)),
     x_db_get = (\<lambda>_ n. (Inl ''database down'', n)),
     x_db_delete = (\<lambda>_ n. (Inl ''database down'', n)),
     x_db_scan = (\<lambda>_ n. (Inl ''database down'', n)),
     x_db_flush = (\<lambda>n. (Inr (), n)),
     x_db_close = (\<lambda>n. (Inr (), n)),
     x_parse_cert = (\<lambda>_. None),
     x_parse_key = (\<lambda>_. None),
     x_parse_chain = (\<lambda>p. Inr [p])\<rparr>"

definition sample_world :: "nat world" where
  "sample_world = \<lparr>w_fs = sample_fs, w_metrics = [], w_x = 2\<rparr>"

definition sample_config :: process_config where
  "sample_config = \<lparr>pc_name = ''web'', pc_path = ''/srv/web'', pc_args = [], pc_env_vars = [], pc_env_file = None,
     pc_mode = Bin, pc_port_mapping = None, pc_spa = False, pc_ssl = None, pc_acme = None, pc_deny = [], pc_allow = [],
     pc_is_oci = False, pc_oci_reference = None, pc_pid_file = None, pc_volumes = []\<rparr>"

lemma sample_fs_quiet [simp]: "fs_quiet sample_fs"
  by (simp add: fs_quiet_def sample_fs_def)

end
