(* ===== verification/Oci.thy ===== *)
theory Oci
  imports World
begin

text \<open>
  \<open>src/oci.rs\<close>: recognising and completing image references, the default registry setting, the
  pull and extraction of an image into \<open>/var/run/nyrun/oci/<name>\<close>, and the choice of the
  program to run. The registry client and the tar reader are external.
\<close>

section \<open>References\<close>

definition oci_dir :: string where "oci_dir = ''/var/run/nyrun/oci''"
definition default_registry :: string where "default_registry = ''docker.io''"
definition settings_file :: string where "settings_file = ''/var/run/nyrun/settings.json''"

text \<open>A first segment with a dot or a colon, before a slash, is a registry.\<close>

definition has_registry :: "string \<Rightarrow> bool" where
  "has_registry p \<longleftrightarrow> CHR ''/'' \<in> set p \<and>
     (let first_segment = hd (split_on (CHR ''/'') p) in
      CHR ''.'' \<in> set first_segment \<or> CHR '':'' \<in> set first_segment)"

definition is_oci_reference :: "string \<Rightarrow> bool" where
  "is_oci_reference p =
     (if starts_with ''/'' p \<or> starts_with ''./'' p \<or> starts_with ''../'' p then False
      else if has_registry p then True
      else if CHR ''/'' \<notin> set p \<and> CHR '':'' \<in> set p then
        (let name = hd (splitn2 (CHR '':'') p) in
         name \<noteq> [] \<and> list_all (\<lambda>c. is_alphanumeric c \<or> c = CHR ''-'' \<or> c = CHR ''_'') name)
      else False)"

definition load_default_registry :: "'e xt \<Rightarrow> fsys \<Rightarrow> string" where
  "load_default_registry X fs =
     (case fst (fs_read settings_file fs) of
        Inl _ \<Rightarrow> default_registry
      | Inr data \<Rightarrow>
          (case x_json_parse X data of
             None \<Rightarrow> default_registry
           | Some settings \<Rightarrow>
               (case Option.bind (json_get ''default-registry'' settings) json_str of
                  None \<Rightarrow> default_registry
                | Some reg \<Rightarrow> reg)))"

definition normalize_reference :: "'e xt \<Rightarrow> fsys \<Rightarrow> string \<Rightarrow> string" where
  "normalize_reference X fs r =
     (if has_registry r then r
      else (let registry = load_default_registry X fs in
            if registry = ''docker.io'' then registry @ ''/library/'' @ r
            else registry @ ''/'' @ r))"

text \<open>
  \<open>settings["default-registry"] = ...\<close> on a JSON value: an object gets the key, null becomes an
  object, and any other value panics. The outer \<open>None\<close> of \<open>save_default_registry\<close> is that panic.
\<close>

fun json_set :: "string \<Rightarrow> json \<Rightarrow> json \<Rightarrow> json option" where
  "json_set k v (JObj kvs) = Some (JObj (hm_insert k v kvs))"
| "json_set k v JNull = Some (JObj [(k, v)])"
| "json_set k v _ = None"

definition save_default_registry :: "'e xt \<Rightarrow> string \<Rightarrow> fsys \<Rightarrow> (unit result \<times> fsys) option" where
  "save_default_registry X registry fs =
     (let settings = (case fst (fs_read settings_file fs) of
             Inr d \<Rightarrow> (case x_json_parse X d of Some v \<Rightarrow> v | None \<Rightarrow> JObj [])
           | Inl _ \<Rightarrow> JObj []) in
      case json_set ''default-registry'' (JStr registry) settings of
        None \<Rightarrow> None
      | Some settings' \<Rightarrow> Some (
          bindA (map_err (\<lambda>e. ''failed to create dir: '' @ e) (fs_create_dir_all ''/var/run/nyrun'')) (\<lambda>_.
            map_err (\<lambda>e. ''failed to write settings: '' @ e) (fs_write settings_file (x_json_show X settings'))) fs))"

definition image_name_from_ref :: "string \<Rightarrow> string" where
  "image_name_from_ref r =
     (let without_tag = hd (split_on (CHR '':'') r);
          without_digest = hd (split_on (CHR ''@'') without_tag)
      in last (split_on (CHR ''/'') without_digest))"

section \<open>Pulling and extracting\<close>

text \<open>One tar entry: a whiteout deletes its target, a path outside is skipped, anything else is unpacked.\<close>

definition extract_entry :: "string \<Rightarrow> tar_entry \<Rightarrow> (fsys, unit) act" where
  "extract_entry dest_dir entry =
     (case te_path entry of
        Inl e \<Rightarrow> err (''tar path error: '' @ e)
      | Inr path \<Rightarrow>
          (case Option.bind (file_name path) (strip_prefix ''.wh.'') of
             Some target_name \<Rightarrow>
               (let target = path_join (path_join dest_dir (case path_parent path of None \<Rightarrow> '''' | Some p \<Rightarrow> p)) target_name in
                bindA (ignore (fs_remove_file target)) (\<lambda>_. ignore (fs_remove_dir_all target)))
           | None \<Rightarrow>
               if \<not> path_starts_with (path_join dest_dir path) dest_dir then ok ()
               else modify (te_unpack entry dest_dir)))"

definition extract_tar_entries :: "'e xt \<Rightarrow> bool \<Rightarrow> string \<Rightarrow> string \<Rightarrow> (fsys, unit) act" where
  "extract_tar_entries X gz data dest_dir =
     (case x_tar_entries X gz data of
        Inl e \<Rightarrow> err (''tar entries error: '' @ e)
      | Inr entries \<Rightarrow> forA entries (\<lambda>entry.
          case entry of Inl e \<Rightarrow> err (''tar entry error: '' @ e) | Inr t \<Rightarrow> extract_entry dest_dir t))"

definition extract_layer :: "'e xt \<Rightarrow> string \<Rightarrow> string \<Rightarrow> string \<Rightarrow> (fsys, unit) act" where
  "extract_layer X data media_type dest_dir =
     (if contains_str ''gzip'' media_type then extract_tar_entries X True data dest_dir
      else if contains_str ''tar'' media_type then extract_tar_entries X False data dest_dir
      else ok ())"

definition pull_layer :: "'e xt \<Rightarrow> string \<Rightarrow> string \<Rightarrow> oci_layer \<Rightarrow> ('e world, unit) act" where
  "pull_layer X reference dest_dir layer =
     bindA (map_err (\<lambda>e. ''failed to pull layer '' @ ly_digest layer @ '': '' @ e)
              (onX (x_pull_blob X reference (ly_digest layer)))) (\<lambda>layer_data.
       onF (extract_layer X layer_data (ly_media_type layer) dest_dir))"

definition pull_and_extract :: "'e xt \<Rightarrow> string \<Rightarrow> string \<Rightarrow> ('e world, string) act" where
  "pull_and_extract X reference name =
     (let dest_dir = path_join oci_dir name in
      case x_parse_reference X reference of
        Some e \<Rightarrow> err (''invalid OCI reference '' @ [CHR 0x27] @ reference @ [CHR 0x27] @ '': '' @ e)
      | None \<Rightarrow>
          bindA (map_err (\<lambda>e. ''failed to pull manifest: '' @ e) (onX (x_pull_manifest X reference))) (\<lambda>img_manifest.
          bindA (map_err (\<lambda>e. ''failed to create dir '' @ dest_dir @ '': '' @ e) (onF (fs_create_dir_all dest_dir))) (\<lambda>_.
          bindA (map_err (\<lambda>e. ''failed to pull config: '' @ e) (onX (x_pull_blob X reference (im_config img_manifest)))) (\<lambda>config_data.
          bindA (map_err (\<lambda>e. ''failed to write config: '' @ e)
                  (onF (fs_write (path_join dest_dir ''.oci-config.json'') config_data))) (\<lambda>_.
          bindA (forA (im_layers img_manifest) (pull_layer X reference dest_dir)) (\<lambda>_.
          ok dest_dir))))))"

section \<open>Choosing the program\<close>

definition resolve_binary :: "fsys \<Rightarrow> string \<Rightarrow> string \<Rightarrow> string" where
  "resolve_binary fs extract_dir bin =
     (if starts_with ''/'' bin \<and> fs_exists (path_join extract_dir (tl bin)) fs
      then path_join extract_dir (tl bin)
      else if fs_exists (path_join extract_dir bin) fs then path_join extract_dir bin
      else bin)"

definition is_executable :: "fsys \<Rightarrow> string \<Rightarrow> bool" where
  "is_executable fs p =
     (case fs_node fs (fs_res fs p) of
        Some (File i) \<Rightarrow> (word_of_nat (fs_mode fs i) AND (73 :: u32)) \<noteq> 0
      | Some Dir \<Rightarrow> True
      | None \<Rightarrow> False)"

text \<open>The strings of a JSON array, and the program with its arguments they give, if any.\<close>

definition string_parts :: "string \<Rightarrow> json \<Rightarrow> string list" where
  "string_parts key cfg =
     (case Option.bind (json_get key cfg) json_array of
        None \<Rightarrow> []
      | Some vs \<Rightarrow> List.map_filter json_str vs)"

definition first_executable :: "fsys \<Rightarrow> string \<Rightarrow> string option" where
  "first_executable fs search_dir =
     (case fst (fs_read_dir search_dir fs) of
        Inl _ \<Rightarrow> None
      | Inr names \<Rightarrow> find (\<lambda>p. fs_is_file p fs \<and> is_executable fs p) (map (path_join search_dir) names))"

definition find_entrypoint :: "'e xt \<Rightarrow> string \<Rightarrow> fsys \<Rightarrow> (string \<times> string list) result" where
  "find_entrypoint X extract_dir fs =
     (let cfg = (case fst (fs_read (path_join extract_dir ''.oci-config.json'') fs) of
            Inl _ \<Rightarrow> None
          | Inr data \<Rightarrow> Option.bind (x_json_parse X data) (json_get ''config''));
          entry = (case cfg of None \<Rightarrow> [] | Some c \<Rightarrow> string_parts ''Entrypoint'' c);
          cmd = (case cfg of None \<Rightarrow> [] | Some c \<Rightarrow> string_parts ''Cmd'' c) in
      case entry of
        p # ps \<Rightarrow> Inr (resolve_binary fs extract_dir p, ps)
      | [] \<Rightarrow>
          (case cmd of
             p # ps \<Rightarrow> Inr (resolve_binary fs extract_dir p, ps)
           | [] \<Rightarrow>
               (case List.map_filter (\<lambda>d. first_executable fs (path_join extract_dir d))
                       [''usr/local/bin'', ''usr/bin'', ''bin'', ''app'', ''.''] of
                  p # _ \<Rightarrow> Inr (p, [])
                | [] \<Rightarrow> Inl (''no entrypoint found in OCI image at '' @ extract_dir))))"

section \<open>Properties of references\<close>

lemma has_registry_slash:
  "has_registry (a @ CHR ''/'' # b) \<longleftrightarrow>
     CHR ''.'' \<in> set (hd (split_on (CHR ''/'') a)) \<or> CHR '':'' \<in> set (hd (split_on (CHR ''/'') a))"
  by (simp add: has_registry_def Let_def split_on_append)

lemma hd_split_on_append: "c \<notin> set a \<Longrightarrow> hd (split_on c (a @ c # b)) = a"
  by (simp add: split_on_append split_on_no_sep)

lemma last_split_on_append: "c \<notin> set b \<Longrightarrow> last (split_on c (a @ c # b)) = b"
  by (simp add: split_on_append split_on_no_sep)

lemma image_name_general:
  assumes "CHR '':'' \<notin> set pre" "CHR ''@'' \<notin> set pre"
    and "CHR '':'' \<notin> set name" "CHR ''@'' \<notin> set name" "CHR ''/'' \<notin> set name"
  shows "image_name_from_ref (pre @ CHR ''/'' # name @ CHR '':'' # tag) = name"
proof -
  have "hd (split_on (CHR '':'') ((pre @ CHR ''/'' # name) @ CHR '':'' # tag)) = pre @ CHR ''/'' # name"
    using assms by (intro hd_split_on_append) simp
  moreover have "hd (split_on (CHR ''@'') (pre @ CHR ''/'' # name)) = pre @ CHR ''/'' # name"
    using assms by (simp add: split_on_no_sep)
  ultimately show ?thesis
    using assms(5) by (simp add: image_name_from_ref_def Let_def last_split_on_append)
qed

text \<open>
  Completing a reference is idempotent, if the default registry itself has a dot or a colon in
  its first segment (as \<open>docker.io\<close> and \<open>ghcr.io\<close> do): the completed reference names its registry
  and is never completed again.
\<close>

theorem normalize_reference_idem:
  assumes "has_registry (load_default_registry X fs @ ''/'')"
  shows "has_registry (normalize_reference X fs r) \<and>
    normalize_reference X fs (normalize_reference X fs r) = normalize_reference X fs r"
proof -
  have "has_registry (load_default_registry X fs @ CHR ''/'' # b)" for b
    using assms has_registry_slash [of "load_default_registry X fs" "[]"]
      has_registry_slash [of "load_default_registry X fs" b] by simp
  then have reg: "has_registry (load_default_registry X fs @ CHR ''/'' # ''library/'' @ r)"
    "has_registry (load_default_registry X fs @ CHR ''/'' # r)" by blast+
  have "has_registry (normalize_reference X fs r)"
    using reg by (cases "load_default_registry X fs = ''docker.io''")
      (simp_all add: normalize_reference_def Let_def)
  then show ?thesis by (simp add: normalize_reference_def)
qed

theorem normalize_reference_idem_witness:
  "normalize_reference sample_xt sample_fs (normalize_reference sample_xt sample_fs ''nginx:latest'')
   = ''docker.io/library/nginx:latest''"
proof -
  have "has_registry (load_default_registry sample_xt sample_fs @ ''/'')"
    by code_simp
  then have "normalize_reference sample_xt sample_fs (normalize_reference sample_xt sample_fs ''nginx:latest'')
      = normalize_reference sample_xt sample_fs ''nginx:latest''"
    by (rule normalize_reference_idem [THEN conjunct2])
  also have "\<dots> = ''docker.io/library/nginx:latest''" by code_simp
  finally show ?thesis .
qed

text \<open>
  A short reference \<open>name:tag\<close> gives its process the name of the image, whatever registry
  completes it, if that registry has no port and no digest mark.
\<close>

theorem short_image_name:
  assumes "CHR '':'' \<notin> set (load_default_registry X fs)" "CHR ''@'' \<notin> set (load_default_registry X fs)"
    and "CHR '':'' \<notin> set name" "CHR ''@'' \<notin> set name" "CHR ''/'' \<notin> set name" "CHR ''/'' \<notin> set tag"
  shows "image_name_from_ref (normalize_reference X fs (name @ CHR '':'' # tag)) = name"
proof -
  let ?reg = "load_default_registry X fs"
  have short: "\<not> has_registry (name @ CHR '':'' # tag)"
    using assms(5,6) by (simp add: has_registry_def)
  show ?thesis
  proof (cases "?reg = ''docker.io''")
    case True
    then have "normalize_reference X fs (name @ CHR '':'' # tag)
        = ''docker.io/library'' @ CHR ''/'' # name @ CHR '':'' # tag"
      using short by (simp add: normalize_reference_def)
    then show ?thesis
      using image_name_general [of "''docker.io/library''" name tag] assms by simp
  next
    case False
    then have "normalize_reference X fs (name @ CHR '':'' # tag) = ?reg @ CHR ''/'' # name @ CHR '':'' # tag"
      using short by (simp add: normalize_reference_def Let_def)
    then show ?thesis
      using image_name_general [of ?reg name tag] assms by simp
  qed
qed

theorem short_image_name_witness:
  "image_name_from_ref (normalize_reference sample_xt sample_fs ''redis:7'') = ''redis''"
proof -
  have reg: "load_default_registry sample_xt sample_fs = ''docker.io''" by code_simp
  show ?thesis
    using short_image_name [of sample_xt sample_fs "''redis''" "''7''"] by (simp add: reg)
qed

text \<open>
  A reference whose registry has a port gets the registry's host as the image name, not the last
  path segment: the tag is cut at the first colon.
\<close>

theorem image_name_registry_port:
  assumes "CHR '':'' \<notin> set host" "CHR ''@'' \<notin> set host" "CHR ''/'' \<notin> set host"
  shows "image_name_from_ref (host @ CHR '':'' # port @ CHR ''/'' # rest) = host"
proof -
  have "hd (split_on (CHR '':'') (host @ CHR '':'' # port @ CHR ''/'' # rest)) = host"
    using assms(1) by (rule hd_split_on_append)
  then show ?thesis
    using assms by (simp add: image_name_from_ref_def Let_def split_on_no_sep)
qed

theorem image_name_registry_port_witness:
  "image_name_from_ref ''localhost:5000/team/app:v1'' = ''localhost''"
  using image_name_registry_port [of "''localhost''" "''5000''" "''team/app:v1''"] by simp

lemma resolve_binary_from_image:
  assumes "\<not> is_absolute rel" and "fs_exists (path_join d rel) fs"
  shows "resolve_binary fs d (CHR ''/'' # rel) = path_join d rel"
    and "resolve_binary fs d rel = path_join d rel"
  using assms by (simp_all add: resolve_binary_def is_absolute_def starts_with_iff)

end
