(* ===== verification/Process_Mgr.thy ===== *)
theory Process_Mgr
  imports Oci
begin

text \<open>
  \<open>src/process.rs\<close>, the process manager: the table of managed processes and every operation on
  it. Starting a process copies a local program into the application directory, or pulls an
  OCI image and adjusts the configuration, copies the volumes and spawns the command. The log
  files are in the theory \<open>Logs\<close>. Arithmetic on \<open>restart_count\<close> wraps, as in a release build.
\<close>

section \<open>State\<close>

record managed_process =
  mp_config :: process_config
  mp_child :: "child option"
  mp_pid :: "u32 option"
  mp_status :: process_status
  mp_started_at :: "int option"
  mp_restart_count :: u32
  mp_shutdown_tx :: bool

record process_manager =
  pr_processes :: "(string, managed_process) hmap"
  pr_metrics :: bool

type_synonym 'e pstate = "process_manager \<times> 'e world"

definition process_manager_new :: "bool \<Rightarrow> process_manager" where
  "process_manager_new metrics = \<lparr>pr_processes = [], pr_metrics = metrics\<rparr>"

definition logs_dir :: "string \<Rightarrow> string" where
  "logs_dir name = path_join (path_join ''/var/run/nyrun'' ''logs'') name"

definition ensure_dirs :: "string \<Rightarrow> (fsys, unit) act" where
  "ensure_dirs name = fs_create_dir_all (logs_dir name)"

definition q :: "string \<Rightarrow> string" where
  "q s = [CHR 0x27] @ s @ [CHR 0x27]"

definition not_found :: "string \<Rightarrow> string" where
  "not_found name = ''process '' @ q name @ '' not found''"

definition already_exists :: "string \<Rightarrow> string" where
  "already_exists name = ''process '' @ q name @ '' already exists''"

section \<open>Starting a process\<close>

text \<open>
  Recursive copy of a directory. The first argument bounds the depth by the longest path the
  kernel accepts, since a copy into one of the source's own subdirectories descends until a
  path is too long.
\<close>

primrec copy_dir_recursive :: "nat \<Rightarrow> string \<Rightarrow> string \<Rightarrow> (fsys, unit) act" where
  "copy_dir_recursive 0 src dst = err (''failed to create dir '' @ q dst @ '': '' @ enametoolong)"
| "copy_dir_recursive (Suc n) src dst =
     bindA (map_err (\<lambda>e. ''failed to create dir '' @ q dst @ '': '' @ e) (fs_create_dir_all dst)) (\<lambda>_.
     bindA (map_err (\<lambda>e. ''failed to read dir '' @ q src @ '': '' @ e) (fs_read_dir src)) (\<lambda>names.
     forA names (\<lambda>nm.
       let src_path = path_join src nm; dst_path = path_join dst nm in
       bindA (gets (fs_is_dir src_path)) (\<lambda>d.
         if d then copy_dir_recursive n src_path dst_path
         else map_err (\<lambda>e. ''failed to copy '' @ q src_path @ '': '' @ e) (fs_copy src_path dst_path)))))"

definition path_max :: nat where "path_max = 4096"

definition app_dir :: "string \<Rightarrow> string" where
  "app_dir name = ''/var/run/nyrun/apps/'' @ name"

definition copy_local :: "process_config \<Rightarrow> (fsys, process_config) act" where
  "copy_local config =
     (if pc_is_oci config \<or> pc_spa config then ok config
      else bindA (gets (fs_exists (pc_path config))) (\<lambda>ex.
        if \<not> ex then ok config
        else
          bindA (map_err (\<lambda>e. ''failed to create app dir: '' @ e) (fs_create_dir_all (app_dir (pc_name config)))) (\<lambda>_.
          bindA (gets (fs_is_dir (pc_path config))) (\<lambda>d.
          if d then
            bindA (copy_dir_recursive path_max (pc_path config) (app_dir (pc_name config))) (\<lambda>_.
            ok (config\<lparr>pc_path := app_dir (pc_name config)\<rparr>))
          else
            let bin_name = (case file_name (pc_path config) of Some f \<Rightarrow> f | None \<Rightarrow> pc_name config);
                dest = path_join (app_dir (pc_name config)) bin_name in
            bindA (map_err (\<lambda>e. ''failed to copy binary: '' @ e) (fs_copy (pc_path config) dest)) (\<lambda>_.
            bindA (ignore (fs_set_mode dest 493)) (\<lambda>_.
            ok (config\<lparr>pc_path := dest\<rparr>)))))))"

text \<open>What an extracted image changes in the configuration: program, arguments, sandbox.\<close>

definition oci_config :: "string \<Rightarrow> string \<Rightarrow> string list \<Rightarrow> process_config \<Rightarrow> process_config" where
  "oci_config extract_dir entrypoint extra_args config =
     (let c1 = config\<lparr>pc_path := entrypoint\<rparr>;
          c2 = (if extra_args \<noteq> [] then c1\<lparr>pc_args := extra_args @ pc_args c1\<rparr> else c1);
          c3 = (if ''all'' \<notin> set (pc_allow c2) \<and> ''io'' \<notin> set (pc_deny c2)
                then c2\<lparr>pc_deny := pc_deny c2 @ [''io''], pc_allow := pc_allow c2 @ [extract_dir]\<rparr> else c2)
      in if ''all'' \<in> set (pc_allow c3)
         then c3\<lparr>pc_deny := filter (\<lambda>d. d \<noteq> ''io'') (pc_deny c3), pc_allow := filter (\<lambda>a. a \<noteq> ''all'') (pc_allow c3)\<rparr>
         else c3)"

definition prepare_oci :: "'e xt \<Rightarrow> bool \<Rightarrow> process_config \<Rightarrow> ('e world, process_config) act" where
  "prepare_oci X metrics config =
     (if \<not> pc_is_oci config then ok config
      else
        let reference = (case pc_oci_reference config of Some r \<Rightarrow> r | None \<Rightarrow> pc_path config) in
        bindA (attempt (pull_and_extract X reference (pc_name config))) (\<lambda>pulled.
          case pulled of
            Inl e \<Rightarrow> bindA (metric_if metrics OciPullErrInc) (\<lambda>_. err e)
          | Inr extract_dir \<Rightarrow>
              bindA (metric_if metrics OciPullInc) (\<lambda>_.
              bindA (gets (\<lambda>w. find_entrypoint X extract_dir (w_fs w))) (\<lambda>ep.
                case ep of
                  Inl e \<Rightarrow> err e
                | Inr (entrypoint, extra_args) \<Rightarrow> ok (oci_config extract_dir entrypoint extra_args config)))))"

definition working_dir :: "process_config \<Rightarrow> string" where
  "working_dir config =
     (if pc_is_oci config then ''/var/run/nyrun/oci/'' @ pc_name config else app_dir (pc_name config))"

definition mount_volume :: "string \<Rightarrow> string \<Rightarrow> (fsys, unit) act" where
  "mount_volume work_dir vol =
     (case splitn2 (CHR '':'') vol of
        [host_path, dest] \<Rightarrow>
          (let container_path = path_join work_dir (trim_start_matches (CHR ''/'') dest) in
           bindA (gets (fs_exists host_path)) (\<lambda>ex.
             if \<not> ex then err (''volume source '' @ q host_path @ '' does not exist'')
             else
               bindA (case path_parent container_path of
                        Some parent \<Rightarrow> map_err (\<lambda>e. ''failed to create dir for volume mount: '' @ e) (fs_create_dir_all parent)
                      | None \<Rightarrow> ok ()) (\<lambda>_.
               bindA (gets (fs_is_dir host_path)) (\<lambda>d.
                 if d then copy_dir_recursive path_max host_path container_path
                 else map_err (\<lambda>e. ''failed to copy volume '' @ q vol @ '': '' @ e) (fs_copy host_path container_path)))))
      | _ \<Rightarrow> err (''invalid volume mount '' @ q vol @ '': expected host_path:container_path''))"

definition mount_volumes :: "process_config \<Rightarrow> (fsys, unit) act" where
  "mount_volumes config = forA (pc_volumes config) (mount_volume (working_dir config))"

definition command_of :: "process_config \<Rightarrow> command" where
  "command_of config =
     \<lparr>cmd_program = pc_path config, cmd_args = pc_args config, cmd_env = pc_env_vars config,
      cmd_sandbox = (if pc_deny config = [] then None
                     else Some (pc_deny config, pc_allow config, working_dir config))\<rparr>"

definition spawn_command :: "'e xt \<Rightarrow> process_config \<Rightarrow> ('e world, managed_process) act" where
  "spawn_command X config =
     bindA (gets w_fs) (\<lambda>fs.
     bindA (map_err (\<lambda>e. ''failed to spawn '' @ q (pc_path config) @ '': '' @ e)
              (onX (x_spawn X (command_of config) fs))) (\<lambda>ch.
     bindA (gets (\<lambda>w. x_now X (w_x w))) (\<lambda>now.
     ok \<lparr>mp_config = config, mp_child = Some ch, mp_pid = ch_id ch, mp_status = Running,
         mp_started_at = Some now, mp_restart_count = 0, mp_shutdown_tx = True\<rparr>)))"

definition start_process :: "'e xt \<Rightarrow> bool \<Rightarrow> process_config \<Rightarrow> ('e world, managed_process) act" where
  "start_process X metrics config =
     bindA (onF (copy_local config)) (\<lambda>config1.
     bindA (prepare_oci X metrics config1) (\<lambda>config2.
     bindA (onF (mount_volumes config2)) (\<lambda>_.
     spawn_command X config2)))"

section \<open>Operations of the manager\<close>

definition onW :: "('e world, 'a) act \<Rightarrow> ('e pstate, 'a) act" where
  "onW = zoom snd (\<lambda>w p. (fst p, w))"

definition on_procs :: "((string, managed_process) hmap \<Rightarrow> (string, managed_process) hmap) \<Rightarrow> ('e pstate, unit) act" where
  "on_procs f = modify (\<lambda>(pm, w). (pm\<lparr>pr_processes := f (pr_processes pm)\<rparr>, w))"

definition pm_metric :: "metric_op \<Rightarrow> ('e pstate, unit) act" where
  "pm_metric m = bindA (gets (pr_metrics \<circ> fst)) (\<lambda>present. onW (metric_if present m))"

definition write_pid_file :: "managed_process \<Rightarrow> ('e world, unit) act" where
  "write_pid_file managed =
     (case (pc_pid_file (mp_config managed), mp_pid managed) of
        (Some pid_path, Some p) \<Rightarrow> ignore (onF (fs_write pid_path (show_word p)))
      | _ \<Rightarrow> ok ())"

definition pid_text :: "u32 option \<Rightarrow> string" where
  "pid_text pid = show_word (case pid of Some p \<Rightarrow> p | None \<Rightarrow> 0)"

definition lookup_process :: "string \<Rightarrow> ('e pstate, managed_process) act" where
  "lookup_process name = bindA (gets (\<lambda>s. hm_get (pr_processes (fst s)) name)) (\<lambda>r.
     case r of None \<Rightarrow> err (not_found name) | Some p \<Rightarrow> ok p)"

definition spawn_process :: "'e xt \<Rightarrow> process_config \<Rightarrow> ('e pstate, string) act" where
  "spawn_process X config =
     bindA (gets (\<lambda>s. hm_get (pr_processes (fst s)) (pc_name config))) (\<lambda>found.
     if found \<noteq> None then err (already_exists (pc_name config))
     else
       bindA (onW (onF (map_err (\<lambda>e. ''failed to create dirs: '' @ e) (ensure_dirs (pc_name config))))) (\<lambda>_.
       bindA (gets (pr_metrics \<circ> fst)) (\<lambda>metrics.
       bindA (onW (start_process X metrics config)) (\<lambda>managed.
       bindA (onW (write_pid_file managed)) (\<lambda>_.
       bindA (on_procs (hm_insert (pc_name config) managed)) (\<lambda>_.
       bindA (pm_metric ManagedInc) (\<lambda>_.
       ok (''process '' @ q (pc_name config) @ '' started (pid: '' @ pid_text (mp_pid managed) @ '')''))))))))"

definition register_spa :: "'e xt \<Rightarrow> process_config \<Rightarrow> ('e pstate, string) act" where
  "register_spa X config =
     bindA (gets (\<lambda>s. hm_get (pr_processes (fst s)) (pc_name config))) (\<lambda>found.
     if found \<noteq> None then err (already_exists (pc_name config))
     else
       bindA (gets (\<lambda>s. x_now X (w_x (snd s)))) (\<lambda>now.
       bindA (on_procs (hm_insert (pc_name config)
          \<lparr>mp_config = config, mp_child = None, mp_pid = None, mp_status = Running,
           mp_started_at = Some now, mp_restart_count = 0, mp_shutdown_tx = False\<rparr>)) (\<lambda>_.
       bindA (pm_metric ManagedInc) (\<lambda>_.
       ok (''SPA '' @ q (pc_name config) @ '' registered'')))))"

definition killed :: "managed_process \<Rightarrow> managed_process" where
  "killed p = p\<lparr>mp_child := None, mp_pid := None, mp_status := Stopped, mp_shutdown_tx := False\<rparr>"

definition kill_child :: "'e xt \<Rightarrow> managed_process \<Rightarrow> ('e world, managed_process) act" where
  "kill_child X p =
     bindA (case mp_child p of
              Some ch \<Rightarrow> modify (\<lambda>w. w\<lparr>w_x := x_kill X ch (w_x w)\<rparr>)
            | None \<Rightarrow> ok ()) (\<lambda>_. ok (killed p))"

definition delete_process :: "'e xt \<Rightarrow> string \<Rightarrow> ('e pstate, string) act" where
  "delete_process X name =
     bindA (lookup_process name) (\<lambda>proc.
     bindA (case pc_pid_file (mp_config proc) of
              Some pid_path \<Rightarrow> onW (ignore (onF (fs_remove_file pid_path)))
            | None \<Rightarrow> ok ()) (\<lambda>_.
     bindA (onW (kill_child X proc)) (\<lambda>proc'.
     bindA (on_procs (hm_insert name proc')) (\<lambda>_.
     bindA (on_procs (hm_remove name)) (\<lambda>_.
     bindA (pm_metric ManagedDec) (\<lambda>_.
     ok (''process '' @ q name @ '' deleted'')))))))"

definition restart :: "'e xt \<Rightarrow> string \<Rightarrow> ('e pstate, string) act" where
  "restart X name =
     bindA (lookup_process name) (\<lambda>proc.
     bindA (onW (kill_child X proc)) (\<lambda>proc'.
     bindA (on_procs (hm_insert name proc')) (\<lambda>_.
     let config = mp_config proc'; restart_count = mp_restart_count proc' + 1 in
     bindA (gets (pr_metrics \<circ> fst)) (\<lambda>metrics.
     bindA (onW (start_process X metrics config)) (\<lambda>managed0.
     let managed = managed0\<lparr>mp_restart_count := restart_count\<rparr> in
     bindA (onW (write_pid_file managed)) (\<lambda>_.
     bindA (on_procs (hm_insert name managed)) (\<lambda>_.
     bindA (pm_metric (RestartInc name)) (\<lambda>_.
     ok (''process '' @ q name @ '' restarted (pid: '' @ pid_text (mp_pid managed)
         @ '', restarts: '' @ show_word restart_count @ '')'')))))))))"

definition reload :: "'e xt \<Rightarrow> string \<Rightarrow> ('e pstate, string) act" where
  "reload X name = restart X name"

definition kill_all :: "'e xt \<Rightarrow> ('e pstate, string) act" where
  "kill_all X =
     bindA (gets (\<lambda>s. hm_keys (pr_processes (fst s)))) (\<lambda>names.
     bindA (forA names (\<lambda>name.
       bindA (gets (\<lambda>s. hm_get (pr_processes (fst s)) name)) (\<lambda>r.
         case r of
           None \<Rightarrow> ok ()
         | Some proc \<Rightarrow> bindA (onW (kill_child X proc)) (\<lambda>proc'. on_procs (hm_insert name proc'))))) (\<lambda>_.
     bindA (on_procs (\<lambda>_. [])) (\<lambda>_.
     bindA (pm_metric (ManagedSet 0)) (\<lambda>_.
     ok ''all processes stopped''))))"

definition process_info_of :: "int \<Rightarrow> managed_process \<Rightarrow> process_info" where
  "process_info_of now p =
     \<lparr>pi_name = pc_name (mp_config p), pi_pid = mp_pid p, pi_status = mp_status p,
      pi_mode = pc_mode (mp_config p), pi_path = pc_path (mp_config p),
      pi_port_mapping = pc_port_mapping (mp_config p), pi_started_at = mp_started_at p,
      pi_restart_count = mp_restart_count p,
      pi_uptime_secs = map_option (\<lambda>s. of_int (max 0 (sgn (now - s) * (\<bar>now - s\<bar> div 1000)))) (mp_started_at p)\<rparr>"

definition list_processes :: "int \<Rightarrow> process_manager \<Rightarrow> process_info list" where
  "list_processes now pm = map (process_info_of now \<circ> snd) (pr_processes pm)"

definition get_configs :: "process_manager \<Rightarrow> process_config list" where
  "get_configs pm = map (mp_config \<circ> snd) (pr_processes pm)"

definition restore_processes :: "'e xt \<Rightarrow> process_config list \<Rightarrow> ('e pstate, unit) act" where
  "restore_processes X configs = forA configs (\<lambda>config. ignore (spawn_process X config))"

definition update_fields ::
  "port_mapping option \<Rightarrow> ssl_config option \<Rightarrow> string option \<Rightarrow> string option \<Rightarrow> (string, string) hmap option
   \<Rightarrow> string list option \<Rightarrow> process_config \<Rightarrow> process_config" where
  "update_fields port_mapping ssl acme env_file env_vars args c =
     c\<lparr>pc_port_mapping := (case port_mapping of Some pm \<Rightarrow> Some pm | None \<Rightarrow> pc_port_mapping c),
       pc_ssl := (case ssl of Some s \<Rightarrow> Some s | None \<Rightarrow> pc_ssl c),
       pc_acme := (case acme of Some a \<Rightarrow> Some a | None \<Rightarrow> pc_acme c),
       pc_env_file := (case env_file of Some ef \<Rightarrow> Some ef | None \<Rightarrow> pc_env_file c),
       pc_env_vars := (case env_vars of Some ev \<Rightarrow> ev | None \<Rightarrow> pc_env_vars c),
       pc_args := (case args of Some a \<Rightarrow> a | None \<Rightarrow> pc_args c)\<rparr>"

definition update_config ::
  "string \<Rightarrow> port_mapping option \<Rightarrow> ssl_config option \<Rightarrow> string option \<Rightarrow> string option \<Rightarrow> (string, string) hmap option
   \<Rightarrow> string list option \<Rightarrow> ('e pstate, process_config) act" where
  "update_config name port_mapping ssl acme env_file env_vars args =
     bindA (lookup_process name) (\<lambda>proc.
     bindA (on_procs (hm_insert name
       (proc\<lparr>mp_config := update_fields port_mapping ssl acme env_file env_vars args (mp_config proc)\<rparr>))) (\<lambda>_.
     ok (mp_config proc)))"

definition update_oci_config :: "string \<Rightarrow> string \<Rightarrow> string \<Rightarrow> ('e pstate, unit) act" where
  "update_oci_config name oci_reference entrypoint =
     bindA (gets (\<lambda>s. hm_get (pr_processes (fst s)) name)) (\<lambda>r.
       case r of
         None \<Rightarrow> ok ()
       | Some proc \<Rightarrow> on_procs (hm_insert name (proc\<lparr>mp_config := (mp_config proc)
           \<lparr>pc_oci_reference := Some oci_reference, pc_path := entrypoint, pc_is_oci := True\<rparr>\<rparr>)))"

definition collect_process_stats :: "'e xt \<Rightarrow> ('e pstate, unit) act" where
  "collect_process_stats X =
     bindA (gets (pr_metrics \<circ> fst)) (\<lambda>metrics.
     if \<not> metrics then ok ()
     else
       bindA (gets (\<lambda>s. List.map_filter (\<lambda>(n, p). map_option (\<lambda>pid. (n, pid)) (mp_pid p)) (pr_processes (fst s)))) (\<lambda>pids.
       if pids = [] then ok ()
       else
         bindA (onW (onX (\<lambda>e. case x_proc_stats X (map snd pids) e of (st, e') \<Rightarrow> (Inr st, e')))) (\<lambda>stats.
         forA pids (\<lambda>(name, pid).
           case hm_get stats pid of
             None \<Rightarrow> ok ()
           | Some (cpu, mem) \<Rightarrow> bindA (onW (metric (CpuSet name cpu))) (\<lambda>_. onW (metric (MemSet name mem)))))))"

section \<open>The health check\<close>

definition check_one :: "'e xt \<Rightarrow> managed_process \<Rightarrow> 'e \<Rightarrow> managed_process \<times> bool \<times> 'e" where
  "check_one X p e =
     (if mp_status p \<noteq> Running then (p, False, e)
      else (case mp_child p of
              None \<Rightarrow> (p, False, e)
            | Some ch \<Rightarrow>
                (case x_try_wait X ch e of
                   (Inr (Some True), e') \<Rightarrow> (p\<lparr>mp_status := Stopped, mp_child := None, mp_pid := None\<rparr>, False, e')
                 | (Inr (Some False), e') \<Rightarrow> (p\<lparr>mp_status := Errored\<rparr>, True, e')
                 | (Inr None, e') \<Rightarrow> (p, False, e')
                 | (Inl _, e') \<Rightarrow> (p, False, e'))))"

fun scan :: "'e xt \<Rightarrow> (string, managed_process) hmap \<Rightarrow> 'e \<Rightarrow> (string, managed_process) hmap \<times> string list \<times> 'e" where
  "scan X [] e = ([], [], e)"
| "scan X ((n, p) # ps) e =
     (let (p', r, e1) = check_one X p e; (ps', rs, e2) = scan X ps e1
      in ((n, p') # ps', (if r then n # rs else rs), e2))"

definition check_and_restart :: "'e xt \<Rightarrow> ('e pstate, unit) act" where
  "check_and_restart X =
     bindA (\<lambda>(pm, w). case scan X (pr_processes pm) (w_x w) of
              (ps, to_restart, e) \<Rightarrow> (Inr to_restart, (pm\<lparr>pr_processes := ps\<rparr>, w\<lparr>w_x := e\<rparr>))) (\<lambda>to_restart.
     forA to_restart (\<lambda>name. ignore (restart X name)))"

section \<open>Invariant of the manager\<close>

text \<open>
  Between two operations every entry is filed under its own name and is \<open>Running\<close>, or \<open>Stopped\<close>
  with neither child nor pid, and the gauge shows the number of entries. Inside the health check
  the names of a set may still be marked \<open>Errored\<close>.
\<close>

definition mp_ok :: "managed_process \<Rightarrow> bool" where
  "mp_ok p \<longleftrightarrow> mp_status p = Running \<or> mp_status p = Stopped \<and> mp_child p = None \<and> mp_pid p = None"

definition pr_inv_upto :: "string set \<Rightarrow> 'e pstate \<Rightarrow> bool" where
  "pr_inv_upto S s \<longleftrightarrow>
     hm_wf (pr_processes (fst s)) \<and>
     (\<forall>(n, p)\<in>set (pr_processes (fst s)). pc_name (mp_config p) = n \<and> (mp_ok p \<or> n \<in> S)) \<and>
     (pr_metrics (fst s) \<longrightarrow> gauge_is (int (length (pr_processes (fst s)))) (snd s))"

abbreviation pr_inv :: "'e pstate \<Rightarrow> bool" where
  "pr_inv \<equiv> pr_inv_upto {}"

lemma wp_onW [wp_simps]:
  "wp (onW m) Q E s = wp m (\<lambda>a w. Q a (fst s, w)) (\<lambda>e w. E e (fst s, w)) (snd s)"
  by (simp add: wp_def onW_def zoom_def split: prod.split sum.split)

lemma wp_on_procs [wp_simps]:
  "wp (on_procs f) Q E s = Q () ((fst s)\<lparr>pr_processes := f (pr_processes (fst s))\<rparr>, snd s)"
  by (simp add: wp_def on_procs_def modify_def split: prod.split)

lemma wp_pm_metric [wp_simps]:
  "wp (pm_metric m) Q E s =
     Q () (fst s, if pr_metrics (fst s) then (snd s)\<lparr>w_metrics := w_metrics (snd s) @ [m]\<rparr> else snd s)"
  by (simp add: pm_metric_def metric_if_def metric_def wp_simps)

lemma wp_lookup_process [wp_simps]:
  "wp (lookup_process name) Q E s =
     (case hm_get (pr_processes (fst s)) name of
        None \<Rightarrow> E (not_found name) s | Some p \<Rightarrow> Q p s)"
  by (simp add: lookup_process_def wp_simps split: option.split)

subsection \<open>Starting a process\<close>

lemma onF_yields: "yields Q m \<Longrightarrow> yields Q (onF m)"
  by (simp add: yields_def wp_simps)

lemma pull_layer_gauge [pres_intros]: "preserves (gauge_is v) (pull_layer X r d l)"
  unfolding pull_layer_def by (intro pres_intros)

lemma pull_and_extract_gauge [pres_intros]: "preserves (gauge_is v) (pull_and_extract X r n)"
  unfolding pull_and_extract_def Let_def by (intro pres_intros)

lemma copy_local_name: "yields (\<lambda>c'. pc_name c' = pc_name c) (copy_local c)"
  unfolding copy_local_def Let_def by (intro yields_intros) simp_all

lemma oci_config_keeps [simp]:
  "pc_name (oci_config d ep xs c) = pc_name c" "pc_is_oci (oci_config d ep xs c) = pc_is_oci c"
  by (simp_all add: oci_config_def Let_def)

lemma prepare_oci_gauge: "preserves (gauge_is v) (prepare_oci X b c)"
  unfolding prepare_oci_def Let_def by (intro pres_intros gauge_metric_if) simp_all

lemma prepare_oci_name: "yields (\<lambda>c'. pc_name c' = pc_name c) (prepare_oci X b c)"
  unfolding prepare_oci_def Let_def by (intro yields_intros) simp_all

lemma spawn_command_gauge [pres_intros]: "preserves (gauge_is v) (spawn_command X c)"
  unfolding spawn_command_def by (intro pres_intros)

lemma start_process_gauge: "preserves (gauge_is v) (start_process X b c)"
  unfolding start_process_def by (intro pres_intros prepare_oci_gauge)

definition started :: "process_config \<Rightarrow> managed_process \<Rightarrow> bool" where
  "started c p \<longleftrightarrow> pc_name (mp_config p) = pc_name c \<and> mp_status p = Running \<and> mp_child p \<noteq> None \<and>
     mp_pid p = ch_id (the (mp_child p)) \<and> mp_restart_count p = 0"

lemma spawn_command_started: "pc_name c' = pc_name c \<Longrightarrow> yields (started c) (spawn_command X c')"
  unfolding spawn_command_def by (intro yields_intros) (simp add: started_def)

lemma start_process_started: "yields (started c) (start_process X b c)"
  unfolding start_process_def
  by (rule yields_bindA [where R = "\<lambda>c'. pc_name c' = pc_name c"])
    (auto simp: onF_yields copy_local_name
      intro!: yields_bindA_any spawn_command_started
        yields_bindA [OF prepare_oci_name, where Q = "started c", simplified])

lemma wp_start_process:
  assumes "\<And>p w'. started c p \<Longrightarrow> managed_gauge (w_metrics w') = managed_gauge (w_metrics w) \<Longrightarrow> Q p w'"
    and "\<And>e w'. managed_gauge (w_metrics w') = managed_gauge (w_metrics w) \<Longrightarrow> E e w'"
  shows "wp (start_process X b c) Q E w"
proof -
  have "wp (start_process X b c) (\<lambda>_. gauge_is (managed_gauge (w_metrics w))) (\<lambda>_. gauge_is (managed_gauge (w_metrics w))) w"
    by (rule preserves_wpD [OF start_process_gauge]) (simp add: gauge_is_def)
  from wp_conj [OF start_process_started [unfolded yields_def, rule_format] this] show ?thesis
    by (rule wp_mono) (auto simp: gauge_is_def intro: assms)
qed

subsection \<open>Every operation keeps the invariant\<close>

definition same_gauge :: "'e pstate \<Rightarrow> 'e world \<Rightarrow> bool" where
  "same_gauge s w' \<longleftrightarrow> managed_gauge (w_metrics w') = managed_gauge (w_metrics (snd s))"

lemma inv_world: "pr_inv_upto S (pm, w) \<Longrightarrow> same_gauge (pm, w) w' \<Longrightarrow> pr_inv_upto S (pm, w')"
  by (simp add: pr_inv_upto_def same_gauge_def gauge_is_def)

lemma inv_replace:
  assumes "pr_inv_upto (insert n S) (pm, w)" and "hm_get (pr_processes pm) n = Some p0"
    and "pc_name (mp_config p) = n" and "mp_ok p" and "same_gauge (pm, w) w'"
  shows "pr_inv_upto S (pm\<lparr>pr_processes := hm_insert n p (pr_processes pm)\<rparr>, w')"
  using assms hm_get_key [OF assms(2)]
  by (auto simp: pr_inv_upto_def hm_set_insert hm_wf_insert hm_length_insert gauge_is_def same_gauge_def)

lemma inv_add:
  assumes "pr_inv_upto S (pm, w)" and "hm_get (pr_processes pm) n = None"
    and "pc_name (mp_config p) = n" and "mp_ok p"
    and "pr_metrics pm \<Longrightarrow> managed_gauge (w_metrics w') = managed_gauge (w_metrics w) + 1"
  shows "pr_inv_upto S (pm\<lparr>pr_processes := hm_insert n p (pr_processes pm)\<rparr>, w')"
  using assms
  by (auto simp: pr_inv_upto_def hm_get_None hm_set_insert hm_wf_insert hm_length_insert gauge_is_def)

lemma inv_remove:
  assumes "pr_inv_upto S (pm, w)" and "hm_get (pr_processes pm) n = Some p"
    and "pr_metrics pm \<Longrightarrow> managed_gauge (w_metrics w') = managed_gauge (w_metrics w) - 1"
  shows "pr_inv_upto S (pm\<lparr>pr_processes := hm_remove n (pr_processes pm)\<rparr>, w')"
proof -
  have "int (length (hm_remove n (pr_processes pm))) = int (length (pr_processes pm)) - 1"
    using assms(1) hm_length_remove [OF _ hm_get_key [OF assms(2)]] by (simp add: pr_inv_upto_def)
  then show ?thesis
    using assms(1,3) by (auto simp: pr_inv_upto_def hm_wf_remove gauge_is_def hm_set_remove)
qed

lemma inv_entry:
  assumes "pr_inv_upto S s" and "hm_get (pr_processes (fst s)) n = Some p"
  shows "pc_name (mp_config p) = n" and "mp_ok p \<or> n \<in> S"
  using assms map_of_SomeD [OF assms(2)] by (auto simp: pr_inv_upto_def)

lemma inv_mono: "pr_inv_upto S s \<Longrightarrow> S \<subseteq> T \<Longrightarrow> pr_inv_upto T s"
  by (auto simp: pr_inv_upto_def)

lemma inv_absent: "pr_inv_upto (insert n S) s \<Longrightarrow> hm_get (pr_processes (fst s)) n = None \<Longrightarrow> pr_inv_upto S s"
  by (force simp: pr_inv_upto_def hm_get_None)

lemma mp_ok_killed [simp]: "mp_ok (killed p)"
  by (simp add: mp_ok_def killed_def)

lemma killed_config [simp]: "mp_config (killed p) = mp_config p" "mp_restart_count (killed p) = mp_restart_count p"
  by (simp_all add: killed_def)

lemma started_ok: "started c p \<Longrightarrow> mp_ok p" "started c p \<Longrightarrow> pc_name (mp_config p) = pc_name c"
  by (simp_all add: started_def mp_ok_def)

lemma kill_child_run:
  "kill_child X p w = (Inr (killed p), case mp_child p of None \<Rightarrow> w | Some ch \<Rightarrow> w\<lparr>w_x := x_kill X ch (w_x w)\<rparr>)"
  by (simp add: kill_child_def ok_def split: option.split)

lemma wp_kill_child [wp_simps]:
  "wp (kill_child X p) Q E w =
     Q (killed p) (case mp_child p of None \<Rightarrow> w | Some ch \<Rightarrow> w\<lparr>w_x := x_kill X ch (w_x w)\<rparr>)"
  by (simp add: wp_def kill_child_run)

lemma wp_write_pid_file:
  "(\<And>w'. managed_gauge (w_metrics w') = managed_gauge (w_metrics w) \<Longrightarrow> Q () w') \<Longrightarrow> wp (write_pid_file p) Q E w"
  by (auto simp: write_pid_file_def wp_simps split: option.split intro!: wp_any)

lemma wp_ensure_dirs:
  "(\<And>a w'. managed_gauge (w_metrics w') = managed_gauge (w_metrics w) \<Longrightarrow> Q a w') \<Longrightarrow>
   (\<And>e w'. managed_gauge (w_metrics w') = managed_gauge (w_metrics w) \<Longrightarrow> E e w') \<Longrightarrow>
   wp (onF (map_err g (ensure_dirs n))) Q E w"
  by (auto simp: wp_simps intro!: wp_any)

text \<open>
  The working form of each operation: what it leaves in the table and in the gauge, on success
  and on failure.
\<close>

lemma wp_spawn_process:
  assumes dup: "\<And>p. hm_get (pr_processes (fst s)) (pc_name c) = Some p \<Longrightarrow>
      E (already_exists (pc_name c)) s"
    and fail: "\<And>e w'. hm_get (pr_processes (fst s)) (pc_name c) = None \<Longrightarrow> same_gauge s w' \<Longrightarrow> E e (fst s, w')"
    and okay: "\<And>m p w'. hm_get (pr_processes (fst s)) (pc_name c) = None \<Longrightarrow> started c p \<Longrightarrow>
      (pr_metrics (fst s) \<Longrightarrow> managed_gauge (w_metrics w') = managed_gauge (w_metrics (snd s)) + 1) \<Longrightarrow>
      Q m ((fst s)\<lparr>pr_processes := hm_insert (pc_name c) p (pr_processes (fst s))\<rparr>, w')"
  shows "wp (spawn_process X c) Q E s"
proof (cases "hm_get (pr_processes (fst s)) (pc_name c)")
  case None
  then show ?thesis
    unfolding spawn_process_def wp_bindA wp_gets None simp_thms if_False wp_onW wp_on_procs wp_pm_metric wp_ok
      fst_conv snd_conv
    by (intro wp_ensure_dirs wp_start_process wp_write_pid_file okay [OF None] fail [OF None])
      (auto simp: same_gauge_def)
next
  case (Some p)
  then show ?thesis by (simp add: spawn_process_def wp_simps dup)
qed

lemma wp_restart:
  assumes miss: "hm_get (pr_processes (fst s)) n = None \<Longrightarrow> E (not_found n) s"
    and fail: "\<And>e p w'. hm_get (pr_processes (fst s)) n = Some p \<Longrightarrow> same_gauge s w' \<Longrightarrow>
      E e ((fst s)\<lparr>pr_processes := hm_insert n (killed p) (pr_processes (fst s))\<rparr>, w')"
    and okay: "\<And>m p p' w'. hm_get (pr_processes (fst s)) n = Some p \<Longrightarrow> started (mp_config p) p' \<Longrightarrow> same_gauge s w' \<Longrightarrow>
      Q m ((fst s)\<lparr>pr_processes := hm_insert n (p'\<lparr>mp_restart_count := mp_restart_count p + 1\<rparr>) (pr_processes (fst s))\<rparr>, w')"
  shows "wp (restart X n) Q E s"
proof (cases "hm_get (pr_processes (fst s)) n")
  case None
  then show ?thesis by (simp add: restart_def wp_simps miss)
next
  case (Some p)
  show ?thesis
    unfolding restart_def Let_def wp_bindA wp_lookup_process Some option.case wp_onW wp_kill_child wp_gets wp_on_procs
      wp_pm_metric wp_ok fst_conv snd_conv process_manager.simps killed_config hm_insert_twice
    by (intro wp_start_process wp_write_pid_file)
      (auto simp: same_gauge_def split: option.splits intro!: okay [OF Some] fail [OF Some])
qed

lemma wp_delete_process:
  assumes miss: "hm_get (pr_processes (fst s)) n = None \<Longrightarrow> E (not_found n) s"
    and okay: "\<And>m p w'. hm_get (pr_processes (fst s)) n = Some p \<Longrightarrow>
      (pr_metrics (fst s) \<Longrightarrow> managed_gauge (w_metrics w') = managed_gauge (w_metrics (snd s)) - 1) \<Longrightarrow>
      Q m ((fst s)\<lparr>pr_processes := hm_remove n (pr_processes (fst s))\<rparr>, w')"
  shows "wp (delete_process X n) Q E s"
proof (cases "hm_get (pr_processes (fst s)) n")
  case None
  then show ?thesis by (simp add: delete_process_def wp_simps miss)
next
  case (Some p)
  then show ?thesis
    by (auto simp: delete_process_def wp_simps split: option.split intro!: wp_any okay)
qed

lemma spawn_process_inv [pres_intros]: "preserves pr_inv (spawn_process X c)"
  unfolding preserves_wp
  by (intro allI impI wp_spawn_process) (auto intro: inv_world inv_add dest: started_ok)

lemma restart_inv_upto:
  assumes "pr_inv_upto (insert n S) s"
  shows "wp (restart X n) (\<lambda>_. pr_inv_upto S) (\<lambda>_. pr_inv_upto S) s"
proof -
  obtain pm w where s: "s = (pm, w)" by (cases s)
  note inv = assms [unfolded s]
  show ?thesis
    unfolding s
  proof (rule wp_restart)
    assume "hm_get (pr_processes (fst (pm, w))) n = None"
    then show "pr_inv_upto S (pm, w)" by (rule inv_absent [OF inv])
  next
    fix p w' assume p: "hm_get (pr_processes (fst (pm, w))) n = Some p" and g: "same_gauge (pm, w) w'"
    then show "pr_inv_upto S ((fst (pm, w))\<lparr>pr_processes := hm_insert n (killed p) (pr_processes (fst (pm, w)))\<rparr>, w')"
      using inv inv_entry(1) [OF inv p] by (simp add: inv_replace)
  next
    fix p p' w' assume p: "hm_get (pr_processes (fst (pm, w))) n = Some p" and g: "same_gauge (pm, w) w'"
      and st: "started (mp_config p) p'"
    then show "pr_inv_upto S ((fst (pm, w))\<lparr>pr_processes :=
        hm_insert n (p'\<lparr>mp_restart_count := mp_restart_count p + 1\<rparr>) (pr_processes (fst (pm, w)))\<rparr>, w')"
      using inv inv_entry(1) [OF inv p] by (simp add: inv_replace started_def mp_ok_def)
  qed
qed

lemma restart_inv [pres_intros]: "preserves pr_inv (restart X n)"
  unfolding preserves_wp by (auto intro: restart_inv_upto inv_mono)

lemma delete_process_inv [pres_intros]: "preserves pr_inv (delete_process X n)"
  unfolding preserves_wp by (intro allI impI wp_delete_process) (auto intro: inv_remove)

lemma register_spa_inv [pres_intros]: "preserves pr_inv (register_spa X c)"
  unfolding preserves_wp
  by (auto simp: register_spa_def wp_simps mp_ok_def intro!: inv_add)

lemma update_config_inv [pres_intros]: "preserves pr_inv (update_config n pm ssl acme ef ev args)"
  unfolding preserves_wp
  by (auto simp: update_config_def wp_simps update_fields_def mp_ok_def same_gauge_def split: option.split
      dest: inv_entry intro!: inv_replace intro: inv_mono)

lemma update_oci_config_inv [pres_intros]: "preserves pr_inv (update_oci_config n r ep)"
  unfolding preserves_wp
  by (auto simp: update_oci_config_def wp_simps mp_ok_def same_gauge_def split: option.split
      dest: inv_entry intro!: inv_replace intro: inv_mono)

lemma onW_run: "snd (onW m s) = (fst s, snd (m (snd s)))"
  by (simp add: onW_def zoom_def split: prod.split)

lemma inv_onW: "(\<And>v. preserves (gauge_is v) m) \<Longrightarrow> preserves (pr_inv_upto S) (onW m)"
  by (auto simp: preserves_def onW_run pr_inv_upto_def gauge_is_def)

lemma collect_process_stats_inv [pres_intros]: "preserves pr_inv (collect_process_stats X)"
  unfolding collect_process_stats_def by (intro pres_intros inv_onW gauge_metric) simp_all

lemma restore_processes_inv [pres_intros]: "preserves pr_inv (restore_processes X cs)"
  unfolding restore_processes_def by (intro pres_intros)

subsection \<open>Stopping everything\<close>

definition children :: "(string, managed_process) hmap \<Rightarrow> child list" where
  "children ps = List.map_filter (mp_child \<circ> snd) ps"

lemma children_simps [simp]:
  "children [] = []"
  "children ((n, p) # ps) = (case mp_child p of None \<Rightarrow> children ps | Some ch \<Rightarrow> ch # children ps)"
  by (simp_all add: children_def List.map_filter_simps split: option.split)

definition kill_one :: "'e xt \<Rightarrow> string \<Rightarrow> ('e pstate, unit) act" where
  "kill_one X name = bindA (gets (\<lambda>s. hm_get (pr_processes (fst s)) name)) (\<lambda>r.
     case r of
       None \<Rightarrow> ok ()
     | Some proc \<Rightarrow> bindA (onW (kill_child X proc)) (\<lambda>proc'. on_procs (hm_insert name proc')))"

lemma hm_insert_middle: "n \<notin> set (hm_keys d) \<Longrightarrow> hm_insert n v (d @ (n, u) # r) = d @ (n, v) # r"
  by (induction d) auto

lemma hm_get_middle: "n \<notin> set (hm_keys d) \<Longrightarrow> hm_get (d @ (n, u) # r) n = Some u"
  by (induction d) auto

lemma kill_one_run:
  "n \<notin> set (hm_keys d) \<Longrightarrow>
   kill_one X n (pm\<lparr>pr_processes := d @ (n, p) # r\<rparr>, w) =
     (Inr (), (pm\<lparr>pr_processes := d @ (n, killed p) # r\<rparr>,
               case mp_child p of None \<Rightarrow> w | Some ch \<Rightarrow> w\<lparr>w_x := x_kill X ch (w_x w)\<rparr>))"
  by (simp add: kill_one_def bindA_def onW_def zoom_def kill_child_run on_procs_def modify_def
      hm_insert_middle hm_get_middle gets_def del: map_of_append split: option.split)

lemma kill_loop_run:
  "distinct (hm_keys (d @ r)) \<Longrightarrow>
   forA (hm_keys r) (kill_one X) (pm\<lparr>pr_processes := d @ r\<rparr>, w) =
     (Inr (), (pm\<lparr>pr_processes := d @ map (map_prod id killed) r\<rparr>,
               w\<lparr>w_x := fold (x_kill X) (children r) (w_x w)\<rparr>))"
proof (induction r arbitrary: d w)
  case (Cons np r)
  obtain n p where np: "np = (n, p)" by (cases np)
  have n: "n \<notin> set (hm_keys d)" using Cons.prems by (auto simp: np)
  have dist: "distinct (hm_keys ((d @ [(n, killed p)]) @ r))" using Cons.prems by (auto simp: np)
  note run = kill_one_run [OF n, where X = X and pm = pm and p = p and r = r and w = w]
  note IH = Cons.IH [OF dist]
  show ?case
    using IH by (simp add: np bindA_def run split: option.split)
qed (simp add: ok_def)

lemma kill_all_run:
  assumes "hm_wf (pr_processes pm)"
  shows "kill_all X (pm, w) =
    (Inr ''all processes stopped'',
     (pm\<lparr>pr_processes := []\<rparr>,
      w\<lparr>w_x := fold (x_kill X) (children (pr_processes pm)) (w_x w),
        w_metrics := w_metrics w @ (if pr_metrics pm then [ManagedSet 0] else [])\<rparr>))"
proof -
  have loop: "kill_all X = bindA (gets (\<lambda>s. hm_keys (pr_processes (fst s)))) (\<lambda>names.
     bindA (forA names (kill_one X)) (\<lambda>_.
     bindA (on_procs (\<lambda>_. [])) (\<lambda>_. bindA (pm_metric (ManagedSet 0)) (\<lambda>_. ok ''all processes stopped''))))"
    unfolding kill_all_def kill_one_def [abs_def] ..
  show ?thesis
    using kill_loop_run [of "[]" "pr_processes pm" X pm w] assms
    unfolding loop
    by (simp add: hm_wf_def bindA_def gets_def on_procs_def modify_def pm_metric_def onW_def zoom_def metric_if_def
        metric_def ok_def)
qed

lemma kill_all_inv [pres_intros]: "preserves pr_inv (kill_all X)"
  by (auto simp: preserves_def kill_all_run pr_inv_upto_def gauge_is_def)

subsection \<open>The health check\<close>

lemma scan_keys: "scan X ps e = (ps', rs, e') \<Longrightarrow> hm_keys ps' = hm_keys ps"
  by (induction X ps e arbitrary: ps' rs e' rule: scan.induct) (auto simp: Let_def split: prod.splits)

lemma check_one_ok:
  "check_one X p e = (p', r, e') \<Longrightarrow> mp_config p' = mp_config p \<and> (mp_ok p \<longrightarrow> mp_ok p' \<or> r)"
  by (auto simp: check_one_def mp_ok_def split: if_splits option.splits sum.splits bool.splits prod.splits)

lemma scan_ok:
  "scan X ps e = (ps', rs, e') \<Longrightarrow> \<forall>(n, p)\<in>set ps. pc_name (mp_config p) = n \<and> mp_ok p \<Longrightarrow>
   \<forall>(n, p)\<in>set ps'. pc_name (mp_config p) = n \<and> (mp_ok p \<or> n \<in> set rs)"
proof (induction X ps e arbitrary: ps' rs e' rule: scan.induct)
  case (2 X n p ps e)
  obtain p1 r e1 where c: "check_one X p e = (p1, r, e1)" by (cases "check_one X p e") auto
  obtain ps1 rs1 e2 where sc: "scan X ps e1 = (ps1, rs1, e2)" by (cases "scan X ps e1") auto
  have out: "ps' = (n, p1) # ps1" "rs = (if r then n # rs1 else rs1)"
    using "2.prems"(1) by (simp_all add: c sc Let_def split: if_splits)
  have "\<forall>(n, p)\<in>set ps1. pc_name (mp_config p) = n \<and> (mp_ok p \<or> n \<in> set rs1)"
    using "2.IH" [OF c [symmetric]] "2.prems"(2) sc by auto
  then show ?case
    using check_one_ok [OF c] "2.prems"(2) by (auto simp: out)
qed simp

lemma check_and_restart_inv [pres_intros]: "preserves pr_inv (check_and_restart X)"
proof (unfold preserves_def, intro allI impI)
  fix s :: "'a pstate" assume inv: "pr_inv s"
  obtain pm w where s: "s = (pm, w)" by (cases s)
  obtain ps rs e where sc: "scan X (pr_processes pm) (w_x w) = (ps, rs, e)" by (cases "scan X (pr_processes pm) (w_x w)")
  have len: "length ps = length (pr_processes pm)"
    using scan_keys [OF sc] by (rule map_eq_imp_length_eq)
  have mid: "pr_inv_upto (set rs) (pm\<lparr>pr_processes := ps\<rparr>, w\<lparr>w_x := e\<rparr>)"
    using inv scan_keys [OF sc] scan_ok [OF sc] len
    by (auto simp: pr_inv_upto_def s hm_wf_def gauge_is_def)
  have "wp (forA rs (\<lambda>n. ignore (restart X n))) (\<lambda>_. pr_inv_upto (set [])) (\<lambda>_ _. False) (pm\<lparr>pr_processes := ps\<rparr>, w\<lparr>w_x := e\<rparr>)"
    using mid by (rule wp_forA) (simp add: wp_simps restart_inv_upto)
  then have "wp (forA rs (\<lambda>n. ignore (restart X n))) (\<lambda>_. pr_inv) (\<lambda>_. pr_inv) (pm\<lparr>pr_processes := ps\<rparr>, w\<lparr>w_x := e\<rparr>)"
    by (rule wp_mono) simp_all
  then show "pr_inv (snd (check_and_restart X s))"
    by (simp add: s check_and_restart_def bindA_def sc wp_snd)
qed

section \<open>Properties: life cycle of a process\<close>

abbreviation procs :: "'e pstate \<Rightarrow> string \<Rightarrow> managed_process option" where
  "procs s \<equiv> hm_get (pr_processes (fst s))"

text \<open>
  C17: spawning adds exactly one entry, under a name that was free, for a running process with a child; a spawn
  that fails, for whatever reason and at whatever point, leaves the table as it was.
\<close>

theorem spawn_process_spec:
  "case spawn_process X c s of
     (Inr msg, s') \<Rightarrow> procs s (pc_name c) = None \<and> (\<exists>p. started c p \<and> procs s' = (procs s)(pc_name c \<mapsto> p))
   | (Inl e, s') \<Rightarrow> fst s' = fst s \<and> (procs s (pc_name c) = None \<or> e = already_exists (pc_name c) \<and> s' = s)"
proof -
  have "wp (spawn_process X c)
      (\<lambda>_ s'. procs s (pc_name c) = None \<and> (\<exists>p. started c p \<and> procs s' = (procs s)(pc_name c \<mapsto> p)))
      (\<lambda>e s'. fst s' = fst s \<and> (procs s (pc_name c) = None \<or> e = already_exists (pc_name c) \<and> s' = s)) s"
    by (rule wp_spawn_process) (auto simp: hm_get_insert)
  then show ?thesis
    by (cases "spawn_process X c s") (auto simp: wp_def split: sum.splits)
qed

text \<open>
  C16: a restart touches no other process. When it succeeds the process runs again under its name and its
  restart counter has gone up by one; when the new child cannot be started the entry stays, stopped, with neither
  child nor pid, and can be restarted later.
\<close>

theorem restart_spec:
  "case restart X n s of
     (Inr msg, s') \<Rightarrow> \<exists>p p'. procs s n = Some p \<and> started (mp_config p) p' \<and>
        procs s' = (procs s)(n \<mapsto> p'\<lparr>mp_restart_count := mp_restart_count p + 1\<rparr>)
   | (Inl e, s') \<Rightarrow> (case procs s n of
        None \<Rightarrow> e = not_found n \<and> s' = s
      | Some p \<Rightarrow> procs s' = (procs s)(n \<mapsto> killed p))"
proof -
  have "wp (restart X n)
      (\<lambda>_ s'. \<exists>p p'. procs s n = Some p \<and> started (mp_config p) p' \<and>
         procs s' = (procs s)(n \<mapsto> p'\<lparr>mp_restart_count := mp_restart_count p + 1\<rparr>))
      (\<lambda>e s'. case procs s n of None \<Rightarrow> e = not_found n \<and> s' = s | Some p \<Rightarrow> procs s' = (procs s)(n \<mapsto> killed p)) s"
    by (rule wp_restart) (auto simp: hm_get_insert)
  then show ?thesis
    by (cases "restart X n s") (auto simp: wp_def split: sum.splits)
qed

text \<open>
  Deleting a known process always succeeds, whatever its child and its pid file do, and removes that
  process only; an unknown name is reported and changes nothing.
\<close>

theorem delete_process_spec:
  "case procs s n of
     None \<Rightarrow> delete_process X n s = (Inl (not_found n), s)
   | Some p \<Rightarrow> is_ok (fst (delete_process X n s)) \<and> procs (snd (delete_process X n s)) = (procs s)(n := None)"
proof -
  have "wp (delete_process X n) (\<lambda>_ s'. procs s n \<noteq> None \<and> procs s' = (procs s)(n := None))
      (\<lambda>e s'. procs s n = None \<and> e = not_found n \<and> s' = s) s"
    by (rule wp_delete_process) (auto simp: hm_get_remove)
  then show ?thesis
    by (cases "delete_process X n s") (auto simp: wp_def split: sum.splits option.splits)
qed

text \<open>
  Stopping everything kills every child in the table, once each, and leaves an empty table and a gauge at zero.
\<close>

theorem kill_all_kills:
  assumes "pr_inv (pm, w)"
  shows "\<exists>w'. kill_all X (pm, w) = (Inr ''all processes stopped'', (pm\<lparr>pr_processes := []\<rparr>, w')) \<and>
    w_x w' = fold (x_kill X) (children (pr_processes pm)) (w_x w) \<and> w_fs w' = w_fs w \<and>
    (pr_metrics pm \<longrightarrow> managed_gauge (w_metrics w') = 0)"
  using assms by (simp add: kill_all_run pr_inv_upto_def)

section \<open>Properties: images and restarts\<close>

lemma join_not_all: "path_join oci_dir n \<noteq> ''all''"
  by (auto simp: path_join_def oci_dir_def is_absolute_iff)

text \<open>
  A process from an image runs with file access denied and its own directory allowed, unless the user
  allowed everything or had denied file access with a list of paths of his own.
\<close>

theorem oci_default_sandbox:
  assumes "''all'' \<notin> set (pc_allow c)" and "''io'' \<notin> set (pc_deny c)"
  shows "cmd_sandbox (command_of (oci_config (path_join oci_dir (pc_name c)) ep xs c)) =
    Some (pc_deny c @ [''io''], pc_allow c @ [path_join oci_dir (pc_name c)], working_dir c)"
  using assms join_not_all [of "pc_name c"] by (simp add: oci_config_def Let_def command_of_def working_dir_def)

text \<open>
  The stored configuration of an image process is the adjusted one, and a restart adjusts it again. The
  permission \<open>all\<close> is consumed by the first start, so that after a restart file access is denied, and the image's own
  arguments are put in front once more at every restart.
\<close>

theorem restart_drops_allow_all:
  assumes "''all'' \<in> set (pc_allow c)" and "dir = path_join oci_dir (pc_name c)"
  shows "''io'' \<notin> set (pc_deny (oci_config dir ep xs c)) \<and>
    ''io'' \<in> set (pc_deny (oci_config dir ep xs (oci_config dir ep xs c))) \<and>
    pc_args (oci_config dir ep xs (oci_config dir ep xs c)) = xs @ xs @ pc_args c"
  using assms(1) join_not_all [of "pc_name c"] by (auto simp: oci_config_def Let_def assms(2))

text \<open>
  A local program is copied into the application directory, and the stored path is that of the copy.
\<close>

lemma app_dir_ne [simp]: "app_dir n \<noteq> []"
  by (simp add: app_dir_def)

lemma copy_local_file:
  assumes quiet: "fs_quiet fs" and kind: "\<not> pc_is_oci c" "\<not> pc_spa c"
    and src: "fs_node fs (fs_res fs (pc_path c)) = Some (File i)" and f: "file_name (pc_path c) = Some f"
    and run: "copy_local c fs = (Inr c1, fs1)"
  defines "dest \<equiv> path_join (app_dir (pc_name c)) f"
  shows "c1 = c\<lparr>pc_path := dest\<rparr>" and "\<exists>j. fs_node fs1 (fs_res fs dest) = Some (File j)"
    and "dirs_from [] (fs_res fs (app_dir (pc_name c))) fs1" and "fs_env fs1 = fs_env fs"
proof -
  let ?d = "app_dir (pc_name c)"
  obtain fsa where mk: "fs_create_dir_all ?d fs = (Inr (), fsa)"
    using run kind src by (auto simp: copy_local_def fs_exists_def bindA_Inr)
  have enva: "fs_env fsa = fs_env fs"
    using fs_create_dir_all_env [of ?d fs] mk by simp
  have srca: "fs_node fsa (fs_res fs (pc_path c)) = Some (File i)"
    using mkdirs_mono [OF src, of "[]" "fs_res fs ?d"] mk quiet by (simp add: fs_create_dir_all_def)
  obtain fsb where cp: "fs_copy (pc_path c) dest fsa = (Inr (), fsb)"
    and out: "c1 = c\<lparr>pc_path := dest\<rparr>" "fs1 = snd (fs_set_mode dest 493 fsb)"
    using run kind src mk srca fs_env_res [OF enva]
    by (auto simp: copy_local_def fs_exists_def fs_is_dir_def bindA_Inr f Let_def dest_def)
  have da: "dirs_from [] (fs_res fs ?d) fsa"
    using mk quiet by (simp add: fs_create_dir_all_def mkdirs_made)
  show "c1 = c\<lparr>pc_path := dest\<rparr>" by (rule out)
  show "\<exists>j. fs_node fs1 (fs_res fs dest) = Some (File j)"
    using fs_copy_result(1) [OF cp] fs_env_res [OF enva] by (simp add: out)
  show "dirs_from [] (fs_res fs ?d) fs1"
    using fs_copy_result(2) [OF cp] by (intro dirs_from_mono [OF da]) (simp add: out)
  show "fs_env fs1 = fs_env fs"
    using fs_copy_result(3) [OF cp] enva by (simp add: out)
qed

lemma copy_local_self:
  assumes quiet: "fs_quiet fs" and kind: "\<not> pc_is_oci c" "\<not> pc_spa c"
    and path: "path_join (app_dir (pc_name c)) f = pc_path c" and f: "file_name (pc_path c) = Some f"
    and src: "fs_node fs (fs_res fs (pc_path c)) = Some (File i)"
    and dirs: "dirs_from [] (fs_res fs (app_dir (pc_name c))) fs"
  shows "fst (copy_local c fs) = Inr c \<and> fs_content (snd (copy_local c fs)) (pc_path c) = Some []"
proof -
  have mk: "fs_create_dir_all (app_dir (pc_name c)) fs = (Inr (), fs)"
    using quiet dirs by (simp add: fs_create_dir_all_def mkdirs_again)
  obtain fs1 where cp: "fs_copy (pc_path c) (pc_path c) fs = (Inr (), fs1)"
    and empty: "fs_content fs1 (pc_path c) = Some []"
    using fs_copy_self [OF quiet refl src] by (metis prod.collapse)
  have run: "copy_local c fs = (Inr c, snd (fs_set_mode (pc_path c) 493 fs1))"
    using kind src by (simp add: copy_local_def fs_exists_def fs_is_dir_def bindA_def map_err_def ignore_def ok_def
        gets_def f Let_def path mk cp)
  have "fs_content (snd (fs_set_mode (pc_path c) 493 fs1)) (pc_path c) = Some []"
    using empty fs_env_res [OF fs_set_mode_tree(3), of "pc_path c" 493 fs1]
    by (simp add: fs_content_def split: option.splits node.splits)
  with run show ?thesis by simp
qed


section \<open>Properties: the health check\<close>

text \<open>
  What one poll says about an entry. The calls of one check are assumed to agree: polling one
  child does not change the answer for another, and asking again gives the same answer, as the
  documentation of \<open>try_wait\<close> has it.
\<close>

definition poll_stable :: "'e xt \<Rightarrow> bool" where
  "poll_stable X \<longleftrightarrow> (\<forall>c d e. fst (x_try_wait X c (snd (x_try_wait X d e))) = fst (x_try_wait X c e))"

definition polled :: "'e xt \<Rightarrow> 'e \<Rightarrow> managed_process \<Rightarrow> bool option" where
  "polled X e p =
     (case mp_child p of
        Some ch \<Rightarrow> if mp_status p = Running
                   then (case fst (x_try_wait X ch e) of Inr r \<Rightarrow> r | Inl _ \<Rightarrow> None) else None
      | None \<Rightarrow> None)"

definition same_polls :: "'e xt \<Rightarrow> 'e \<Rightarrow> 'e \<Rightarrow> bool" where
  "same_polls X e e' \<longleftrightarrow> (\<forall>c. fst (x_try_wait X c e') = fst (x_try_wait X c e))"

definition check_result :: "bool option \<Rightarrow> managed_process \<Rightarrow> managed_process" where
  "check_result v p = (case v of
      None \<Rightarrow> p
    | Some True \<Rightarrow> p\<lparr>mp_status := Stopped, mp_child := None, mp_pid := None\<rparr>
    | Some False \<Rightarrow> p\<lparr>mp_status := Errored\<rparr>)"

lemma check_one_polled:
  assumes "poll_stable X" and "same_polls X e0 e"
  shows "\<exists>e'. check_one X p e = (check_result (polled X e0 p) p, polled X e0 p = Some False, e') \<and> same_polls X e0 e'"
proof (cases "mp_child p")
  case None
  then show ?thesis using assms by (auto simp: check_one_def polled_def check_result_def)
next
  case (Some ch)
  obtain r e' where r: "x_try_wait X ch e = (r, e')" by (cases "x_try_wait X ch e")
  have r0: "fst (x_try_wait X ch e0) = r" using assms(2) r by (metis fst_conv same_polls_def)
  have "same_polls X e0 e'" using assms r by (metis snd_conv same_polls_def poll_stable_def)
  then show ?thesis
    using Some r r0 assms(2)
    by (auto simp: check_one_def polled_def check_result_def split: sum.splits option.splits bool.splits)
qed

lemma scan_polled:
  assumes "poll_stable X" and "same_polls X e0 e"
  shows "\<exists>e'. scan X ps e = (map (\<lambda>(n, p). (n, check_result (polled X e0 p) p)) ps,
      map fst (filter (\<lambda>(n, p). polled X e0 p = Some False) ps), e')"
  using assms(2)
proof (induction ps arbitrary: e)
  case (Cons np ps)
  obtain n p where np: "np = (n, p)" by (cases np)
  obtain e1 where "check_one X p e = (check_result (polled X e0 p) p, polled X e0 p = Some False, e1)"
    and "same_polls X e0 e1"
    using check_one_polled [OF assms(1) Cons.prems] by blast
  with Cons.IH [of e1] show ?case by (auto simp: np Let_def)
qed simp

text \<open>What a restart makes of an entry, seen from outside.\<close>

definition restarted :: "managed_process \<Rightarrow> managed_process \<Rightarrow> bool" where
  "restarted p p' \<longleftrightarrow> p' = killed p \<or>
     (\<exists>p0. started (mp_config p) p0 \<and> p' = p0\<lparr>mp_restart_count := mp_restart_count p + 1\<rparr>)"

lemma killed_errored [simp]: "killed (p\<lparr>mp_status := x\<rparr>) = killed p"
  by (simp add: killed_def)

lemma wp_restart_frame:
  assumes "procs s n = Some p"
  shows "wp (ignore (restart X n)) (\<lambda>_ s'. \<exists>p'. restarted p p' \<and> procs s' = (procs s)(n \<mapsto> p')) (\<lambda>_ _. False) s"
  unfolding wp_ignore
  by (rule wp_restart) (use assms in \<open>auto simp: hm_get_insert restarted_def\<close>)

lemma wp_restart_all:
  fixes s :: "'a pstate"
  assumes "distinct rs" and "\<And>n. n \<in> set rs \<Longrightarrow> procs s n \<noteq> None"
  shows "wp (forA rs (\<lambda>n. ignore (restart X n)))
    (\<lambda>_ t. \<forall>n. if n \<in> set rs then \<exists>p p'. procs s n = Some p \<and> restarted p p' \<and> procs t n = Some p' else procs t n = procs s n)
    (\<lambda>_ _. False) s"
proof -
  define I where "I ys t \<longleftrightarrow> distinct ys \<and> set ys \<subseteq> set rs \<and>
    (\<forall>n \<in> set rs - set ys. \<exists>p p'. procs s n = Some p \<and> restarted p p' \<and> procs t n = Some p') \<and>
    (\<forall>n. n \<in> set rs - set ys \<or> procs t n = procs s n)"
    for ys and t :: "'a pstate"
  have "wp (forA rs (\<lambda>n. ignore (restart X n))) (\<lambda>_. I []) (\<lambda>_ _. False) s"
  proof (rule wp_forA)
    show "I rs s" using assms(1) by (simp add: I_def)
  next
    fix n ys t assume n: "n \<in> set rs" and I: "I (n # ys) t"
    then obtain p where p: "procs s n = Some p" using assms(2) by blast
    have t: "procs t n = Some p" using I n p by (auto simp: I_def split: if_splits)
    show "wp (ignore (restart X n)) (\<lambda>_. I ys) (\<lambda>_ _. False) t"
      using wp_restart_frame [OF t]
    proof (rule wp_mono)
      fix t' :: "'a pstate" assume "\<exists>p'. restarted p p' \<and> procs t' = (procs t)(n \<mapsto> p')"
      then show "I ys t'" using I p n by (auto simp: I_def split: if_splits)
    qed
  qed
  then show ?thesis by (rule wp_mono) (auto simp: I_def)
qed


section \<open>The statements on concrete inputs\<close>

definition crashed_app :: managed_process where
  "crashed_app = \<lparr>mp_config = sample_config, mp_child = Some \<lparr>ch_handle = 3, ch_id = Some 3\<rparr>, mp_pid = Some 3,
     mp_status = Running, mp_started_at = Some 0, mp_restart_count = 0, mp_shutdown_tx = True\<rparr>"

definition one_app :: process_manager where
  "one_app = \<lparr>pr_processes = [(''web'', crashed_app)], pr_metrics = False\<rparr>"

lemma one_app_inv: "pr_inv (one_app, sample_world)"
  by (simp add: pr_inv_upto_def one_app_def crashed_app_def sample_config_def mp_ok_def hm_wf_def)

theorem kill_all_kills_witness:
  "pr_processes (fst (snd (kill_all sample_xt (one_app, sample_world)))) = []"
  using kill_all_kills [OF one_app_inv, of sample_xt] by auto

theorem oci_default_sandbox_witness:
  "cmd_sandbox (command_of (oci_config (path_join oci_dir ''web'') ''run'' [] sample_config)) =
    Some ([''io''], [path_join oci_dir ''web''], ''/var/run/nyrun/apps/web'')"
  using oci_default_sandbox [of sample_config "''run''" "[]"] by (simp add: sample_config_def working_dir_def app_dir_def)

theorem restart_drops_allow_all_witness:
  "''io'' \<in> set (pc_deny (oci_config ''/var/run/nyrun/oci/web'' ''run'' []
     (oci_config ''/var/run/nyrun/oci/web'' ''run'' [] (sample_config\<lparr>pc_allow := [''all'']\<rparr>))))"
  using restart_drops_allow_all [of "sample_config\<lparr>pc_allow := [''all'']\<rparr>" "''/var/run/nyrun/oci/web''" "''run''" "[]"]
  by (simp add: sample_config_def path_join_def oci_dir_def is_absolute_iff)

definition program_fs :: fsys where
  "program_fs = sample_fs\<lparr>fs_tree := [([''srv''], Dir), ([''srv'', ''web''], File 0)], fs_data := (\<lambda>_. ''ELF'')\<rparr>"


lemma sample_poll_stable: "poll_stable sample_xt"
  by (simp add: poll_stable_def sample_xt_def)


end
