(* ===== verification/Logs.thy ===== *)
theory Logs
  imports Process_Mgr
begin

text \<open>
  The log files of \<open>src/process.rs\<close>: the task that copies a child's output line by line into a
  file it keeps open, the rotation that renames files under it, and the reader behind the
  \<open>logs\<close> request. The three meet on the file system only, where a name and the open file
  behind it can come apart.
\<close>

section \<open>Capture, rotation, reading\<close>

definition log_max_size :: nat where "log_max_size = 10 * 1024 * 1024"

definition log_max_rotated :: nat where "log_max_rotated = 5"

text \<open>A captured line with the time stamp that \<open>chrono\<close> printed for it.\<close>

definition stamped :: "string \<times> string \<Rightarrow> string" where
  "stamped ev = ''['' @ fst ev @ ''] '' @ snd ev"

definition capture_line :: "nat \<Rightarrow> string \<times> string \<Rightarrow> (fsys, unit) act" where
  "capture_line fd ev = modify (fd_write fd (stamped ev @ [newline]))"

definition capture_output :: "(string \<times> string) list \<Rightarrow> string \<Rightarrow> (fsys, unit) act" where
  "capture_output evs log_path = ignore (bindA (open_append log_path) (\<lambda>fd. forA evs (capture_line fd)))"

definition rotated_name :: "string \<Rightarrow> nat \<Rightarrow> string" where
  "rotated_name p i = p @ ''.'' @ show_nat i"

definition rotate_log_file :: "string \<Rightarrow> (fsys, unit) act" where
  "rotate_log_file p =
     bindA (ignore (fs_remove_file (rotated_name p log_max_rotated))) (\<lambda>_.
     bindA (forA (rev [1..<log_max_rotated]) (\<lambda>i.
              ignore (fs_rename (rotated_name p i) (rotated_name p (i + 1))))) (\<lambda>_.
     bindA (ignore (fs_rename p (rotated_name p 1))) (\<lambda>_.
     ignore (guarded OpWrite p (open_trunc p)))))"

definition rotate_logs :: "process_manager \<Rightarrow> (fsys, unit) act" where
  "rotate_logs pm =
     forA (hm_keys (pr_processes pm)) (\<lambda>name.
     forA [''stdout.log'', ''stderr.log''] (\<lambda>log_name.
       let log_path = path_join (logs_dir name) log_name in
       bindA (attempt (fs_len log_path)) (\<lambda>meta.
         case meta of
           Inl _ \<Rightarrow> ok ()
         | Inr len \<Rightarrow> if log_max_size < len then rotate_log_file log_path else ok ())))"

definition tail_lines :: "nat \<Rightarrow> string \<Rightarrow> string list" where
  "tail_lines n content = (let ls = lines_of content in drop (length ls - n) ls)"

definition unlines :: "string list \<Rightarrow> string" where
  "unlines ls = concat (map (\<lambda>l. l @ [newline]) ls)"

definition get_logs :: "process_manager \<Rightarrow> string \<Rightarrow> nat \<Rightarrow> fsys \<Rightarrow> string result" where
  "get_logs pm name n fs =
     (if hm_get (pr_processes pm) name = None then Inl (not_found name)
      else
        let out = (case fst (fs_read (path_join (logs_dir name) ''stdout.log'') fs) of
              Inl _ \<Rightarrow> '''' | Inr content \<Rightarrow> unlines (tail_lines n content));
            all = (case fst (fs_read (path_join (logs_dir name) ''stderr.log'') fs) of
              Inl _ \<Rightarrow> out
            | Inr content \<Rightarrow> if tail_lines n content = [] then out
                else out @ ''--- stderr ---'' @ [newline] @ unlines (tail_lines n content))
        in Inr (if all = [] then ''(no logs yet)'' @ [newline] else all))"

section \<open>Capture and reading\<close>

lemma capture_lines_run:
  "forA evs (capture_line fd) fs =
     (Inr (), fs\<lparr>fs_data := (fs_data fs)(fd := fs_data fs fd @ unlines (map stamped evs))\<rparr>)"
  by (induction evs arbitrary: fs) (simp_all add: ok_def capture_line_def fd_write_def unlines_def)

lemma capture_output_existing:
  assumes "fs_quiet fs" and "fs_node fs (fs_res fs p) = Some (File i)"
  shows "capture_output evs p fs =
    (Inr (), fs\<lparr>fs_data := (fs_data fs)(i := fs_data fs i @ unlines (map stamped evs))\<rparr>)"
  using assms by (simp add: capture_output_def ignore_def bindA_def open_append_def capture_lines_run)

lemma tail_lines_unlines:
  assumes "\<And>l. l \<in> set ls \<Longrightarrow> newline \<notin> set l \<and> (l = [] \<or> last l \<noteq> carriage)"
  shows "tail_lines n (unlines ls) = drop (length ls - n) ls"
  using lines_of_unlines [of ls] assms by (simp add: tail_lines_def unlines_def)

definition log_line :: "string \<times> string \<Rightarrow> bool" where
  "log_line ev \<longleftrightarrow> newline \<notin> set (stamped ev) \<and> last (stamped ev) \<noteq> carriage"


section \<open>Rotation\<close>

text \<open>
  The names involved are those of one directory \<open>D\<close>. A step of the rotation moves the entry of one name to
  another name that is free; \<open>looks\<close> says what the directory holds in between.
\<close>

definition looks :: "fsys \<Rightarrow> (rpath \<Rightarrow> node option) \<Rightarrow> fsys \<Rightarrow> bool" where
  "looks fs0 N fs \<longleftrightarrow> fs_node fs = N \<and> fs_env fs = fs_env fs0 \<and> fs_data fs = fs_data fs0 \<and> fs_next fs = fs_next fs0"

lemma looks_env:
  assumes "looks fs0 N fs"
  shows "fs_cwd fs = fs_cwd fs0" and "fs_quiet fs \<longleftrightarrow> fs_quiet fs0" and "fs_node fs = N"
proof -
  have "fs_env fs = fs_env fs0" using assms by (simp add: looks_def)
  from fs_env_res [OF this] fs_env_quiet [OF this]
  show "fs_cwd fs = fs_cwd fs0" and "fs_quiet fs \<longleftrightarrow> fs_quiet fs0" .
  show "fs_node fs = N" using assms by (simp add: looks_def)
qed

definition moved :: "rpath \<Rightarrow> rpath \<Rightarrow> (rpath \<Rightarrow> node option) \<Rightarrow> rpath \<Rightarrow> node option" where
  "moved k l N = N(l := N k, k := None)"

lemma rename_moves:
  assumes "looks fs0 N fs" and "fs_quiet fs0" and "N (butlast (fs_res fs0 b)) = Some Dir"
    and "fs_res fs0 a \<noteq> []" and "fs_res fs0 b \<noteq> []" and "fs_res fs0 a \<noteq> fs_res fs0 b"
    and "N (fs_res fs0 a) \<noteq> Some Dir" and "N (fs_res fs0 b) = None"
  shows "looks fs0 (moved (fs_res fs0 a) (fs_res fs0 b) N) (snd (fs_rename a b fs))"
proof -
  note env = looks_env(1) [OF assms(1)] looks_env(2) [OF assms(1), THEN iffD2, OF assms(2)] and N = looks_env(3) [OF assms(1)]
  show ?thesis
  proof (cases "N (fs_res fs0 a)")
    case None
    then have "moved (fs_res fs0 a) (fs_res fs0 b) N = N"
      using assms(8) by (auto simp: moved_def)
    then show ?thesis
      using assms(1) None env N by (simp add: fs_rename_def Let_def)
  next
    case (Some n)
    then obtain i where n: "n = File i" using assms(7) by (cases n) auto
    have "fs_node (fs\<lparr>fs_tree := hm_insert (fs_res fs0 b) (File i) (hm_remove (fs_res fs0 a) (fs_tree fs))\<rparr>) =
        moved (fs_res fs0 a) (fs_res fs0 b) N"
      using assms(4-6) N Some
      by (auto simp: fun_eq_iff moved_def n fs_node_def hm_get_insert hm_get_remove split: if_splits)
    then show ?thesis
      using assms(1,3,8) Some n env N by (simp add: fs_rename_def Let_def looks_def fs_env_def)
  qed
qed

lemma remove_clears:
  assumes "looks fs0 N fs" and "fs_quiet fs0" and "fs_res fs0 a \<noteq> []" and "N (fs_res fs0 a) \<noteq> Some Dir"
  shows "looks fs0 (N(fs_res fs0 a := None)) (snd (fs_remove_file a fs))"
proof -
  note env = looks_env(1) [OF assms(1)] looks_env(2) [OF assms(1), THEN iffD2, OF assms(2)] and N = looks_env(3) [OF assms(1)]
  have "fs_node (fs\<lparr>fs_tree := hm_remove (fs_res fs0 a) (fs_tree fs)\<rparr>) = N(fs_res fs0 a := None)"
    using assms(3) unfolding N [symmetric] by (auto simp: fun_eq_iff fs_node_def hm_get_remove)
  moreover have "N(fs_res fs0 a := None) = N" if "N (fs_res fs0 a) = None"
    using that by auto
  ultimately show ?thesis
    using assms(1,4) env N
    by (auto simp: fs_remove_file_def looks_def fs_env_def split: option.split node.split)
qed

lemma create_fresh:
  assumes "looks fs0 N fs" and "fs_quiet fs0" and "N (butlast (fs_res fs0 a)) = Some Dir"
    and "fs_res fs0 a \<noteq> []" and "N (fs_res fs0 a) = None"
  shows "fs_node (snd (guarded OpWrite a (open_trunc a) fs)) = N(fs_res fs0 a \<mapsto> File (fs_next fs0)) \<and>
    fs_data (snd (guarded OpWrite a (open_trunc a) fs)) = (fs_data fs0)(fs_next fs0 := []) \<and>
    fs_env (snd (guarded OpWrite a (open_trunc a) fs)) = fs_env fs0"
proof -
  note env = looks_env(1) [OF assms(1)] looks_env(2) [OF assms(1), THEN iffD2, OF assms(2)] and N = looks_env(3) [OF assms(1)]
  have "fs_node (fs\<lparr>fs_tree := hm_insert (fs_res fs0 a) (File (fs_next fs0)) (fs_tree fs), fs_data := d, fs_mode := m, fs_next := k\<rparr>) =
      N(fs_res fs0 a \<mapsto> File (fs_next fs0))" for d m k
    using assms(4) unfolding N [symmetric] by (auto simp: fun_eq_iff fs_node_def hm_get_insert)
  then show ?thesis
    using assms env N by (simp add: open_trunc_def new_file_def Let_def looks_def fs_env_def)
qed

text \<open>The names of a log and of its rotated copies.\<close>

lemma resolve_sibling:
  assumes "d \<noteq> []" and "CHR ''/'' \<notin> set f" and "f \<noteq> []" and "f \<noteq> ''.''" and "f \<noteq> ''..''"
  shows "resolve cwd (d @ CHR ''/'' # f) = resolve cwd d @ [f]"
proof -
  have "rel_comps f = [Normal f]"
    using assms(2-5) by (simp add: rel_comps_def body_comps_def split_on_no_sep)
  then show ?thesis
    using assms(1) by (simp add: resolve_def components_sep walk_append)
qed

lemma resolve_rotated:
  assumes "d \<noteq> []" and "CHR ''/'' \<notin> set f" and "f \<noteq> []"
  shows "resolve cwd (rotated_name (d @ CHR ''/'' # f) i) = resolve cwd d @ [f @ CHR ''.'' # show_nat i]"
proof -
  have "CHR ''/'' \<notin> set (show_nat i)" by (rule show_nat_no_char) (simp add: is_digit_def)
  moreover have "f @ CHR ''.'' # show_nat i \<noteq> ''..''"
    using assms(3) by (cases f; cases "tl f") (auto dest: arg_cong [of _ _ length])
  moreover have "f @ CHR ''.'' # show_nat i \<noteq> ''.''"
    using assms(3) by (cases f) auto
  ultimately show ?thesis
    using assms resolve_sibling [of d "f @ CHR ''.'' # show_nat i"] by (simp add: rotated_name_def)
qed

definition log_key :: "rpath \<Rightarrow> string \<Rightarrow> nat \<Rightarrow> rpath" where
  "log_key D f i = D @ [if i = 0 then f else f @ CHR ''.'' # show_nat i]"

lemma show_nat_inj: "show_nat i = show_nat j \<longleftrightarrow> i = j"
  by (metis digits_val_show)

lemma log_key_simps [simp]:
  "log_key D f i = log_key D f j \<longleftrightarrow> i = j" "log_key D f i \<noteq> []" "butlast (log_key D f i) = D"
  "log_key D f i \<noteq> D" "D \<noteq> log_key D f i"
  by (auto simp: log_key_def show_nat_inj)

definition rotated_nodes :: "(nat \<Rightarrow> rpath) \<Rightarrow> (rpath \<Rightarrow> node option) \<Rightarrow> rpath \<Rightarrow> node option" where
  "rotated_nodes k N = moved (k 0) (k 1) (moved (k 1) (k 2) (moved (k 2) (k 3) (moved (k 3) (k 4) (moved (k 4) (k 5)
     (N(k 5 := None))))))"

lemma rotation_order: "rev [1..<log_max_rotated] = [4, 3, 2, 1]"
  by code_simp

lemma rotate_run:
  assumes quiet: "fs_quiet fs" and f: "CHR ''/'' \<notin> set f" "f \<noteq> []" "f \<noteq> ''.''" "f \<noteq> ''..''" and d: "d \<noteq> []"
    and dir: "fs_node fs (fs_res fs d) = Some Dir"
    and files: "\<And>i. fs_node fs (log_key (fs_res fs d) f i) \<noteq> Some Dir"
  defines "k \<equiv> log_key (fs_res fs d) f"
  defines "p \<equiv> d @ CHR ''/'' # f"
  defines "fs' \<equiv> snd (rotate_log_file p fs)"
  shows "fs_node fs' = (rotated_nodes k (fs_node fs))(k 0 \<mapsto> File (fs_next fs)) \<and>
    fs_data fs' = (fs_data fs)(fs_next fs := []) \<and> fs_env fs' = fs_env fs"
proof -
  have p: "fs_res fs p = k 0" using resolve_sibling [OF d f] by (simp add: p_def k_def log_key_def)
  have r: "fs_res fs (rotated_name p i) = k i" if "0 < i" for i
    using resolve_rotated [OF d f(1,2)] that by (simp add: p_def k_def log_key_def)
  have k [simp]: "k i = k j \<longleftrightarrow> i = j" "k i \<noteq> []" "butlast (k i) = fs_res fs d" "k i \<noteq> fs_res fs d" "fs_res fs d \<noteq> k i"
    "fs_node fs (k i) \<noteq> Some Dir" for i j
    using files by (simp_all add: k_def)
  define fs1 where "fs1 = snd (fs_remove_file (rotated_name p 5) fs)"
  define fs2 where "fs2 = snd (fs_rename (rotated_name p 4) (rotated_name p 5) fs1)"
  define fs3 where "fs3 = snd (fs_rename (rotated_name p 3) (rotated_name p 4) fs2)"
  define fs4 where "fs4 = snd (fs_rename (rotated_name p 2) (rotated_name p 3) fs3)"
  define fs5 where "fs5 = snd (fs_rename (rotated_name p 1) (rotated_name p 2) fs4)"
  define fs6 where "fs6 = snd (fs_rename p (rotated_name p 1) fs5)"
  have run: "fs' = snd (guarded OpWrite p (open_trunc p) fs6)"
    unfolding fs'_def rotate_log_file_def rotation_order
    unfolding log_max_rotated_def
    by (simp add: bindA_assoc ignore_def numeral_eq_Suc fs1_def fs2_def fs3_def fs4_def fs5_def fs6_def)
  have 1: "looks fs ((fs_node fs)(k 5 := None)) fs1"
    using remove_clears [of fs "fs_node fs" fs "rotated_name p 5"] quiet by (simp add: fs1_def r looks_def)
  have 2: "looks fs (moved (k 4) (k 5) ((fs_node fs)(k 5 := None))) fs2"
    using rename_moves [OF 1 quiet, of "rotated_name p 5" "rotated_name p 4"] dir by (simp add: fs2_def r)
  have 3: "looks fs (moved (k 3) (k 4) (moved (k 4) (k 5) ((fs_node fs)(k 5 := None)))) fs3"
    using rename_moves [OF 2 quiet, of "rotated_name p 4" "rotated_name p 3"] dir by (simp add: fs3_def r moved_def)
  have 4: "looks fs (moved (k 2) (k 3) (moved (k 3) (k 4) (moved (k 4) (k 5) ((fs_node fs)(k 5 := None))))) fs4"
    using rename_moves [OF 3 quiet, of "rotated_name p 3" "rotated_name p 2"] dir by (simp add: fs4_def r moved_def)
  have 5: "looks fs (moved (k 1) (k 2) (moved (k 2) (k 3) (moved (k 3) (k 4) (moved (k 4) (k 5) ((fs_node fs)(k 5 := None)))))) fs5"
    using rename_moves [OF 4 quiet, of "rotated_name p 2" "rotated_name p 1"] dir by (simp add: fs5_def r moved_def)
  have 6: "looks fs (rotated_nodes k (fs_node fs)) fs6"
    using rename_moves [OF 5 quiet, of "rotated_name p 1" p] dir by (simp add: fs6_def r p moved_def rotated_nodes_def)
  show ?thesis
    unfolding run using create_fresh [OF 6 quiet, of p] dir by (simp add: p rotated_nodes_def moved_def)
qed

text \<open>
  C32: a rotation empties the log and shifts the copies by one, the oldest of the five being dropped: each copy is now the
  file its predecessor was, gaps included, no other name is touched and no content but the new file's is changed.
\<close>

theorem rotate_log_file_spec:
  assumes "fs_quiet fs" and "CHR ''/'' \<notin> set f" "f \<noteq> []" "f \<noteq> ''.''" "f \<noteq> ''..''" and "d \<noteq> []"
    and "fs_node fs (fs_res fs d) = Some Dir"
    and "\<And>i. fs_node fs (log_key (fs_res fs d) f i) \<noteq> Some Dir"
  defines "k \<equiv> log_key (fs_res fs d) f"
  defines "fs' \<equiv> snd (rotate_log_file (d @ CHR ''/'' # f) fs)"
  shows "fs_content fs' (d @ CHR ''/'' # f) = Some [] \<and>
    list_all (\<lambda>i. fs_node fs' (k (i + 1)) = fs_node fs (k i)) [0, 1, 2, 3, 4] \<and>
    (\<forall>q. q \<in> k ` {0..5} \<or> fs_node fs' q = fs_node fs q) \<and>
    (\<forall>i. i = fs_next fs \<or> fs_data fs' i = fs_data fs i)"
proof -
  note run = rotate_run [OF assms(1-8), folded k_def fs'_def]
  have k [simp]: "k i = k j \<longleftrightarrow> i = j" for i j by (simp add: k_def)
  have "fs_res fs' (d @ CHR ''/'' # f) = k 0"
    using run fs_env_res [of fs' fs] resolve_sibling [OF assms(6,2-5)] by (simp add: k_def log_key_def)
  then have c: "fs_content fs' (d @ CHR ''/'' # f) = Some []"
    using run by (simp add: fs_content_def)
  have other: "fs_node fs' q = fs_node fs q" if "q \<notin> k ` {0..5}" for q
  proof -
    have "q \<noteq> k 0" "q \<noteq> k 1" "q \<noteq> k 2" "q \<noteq> k 3" "q \<noteq> k 4" "q \<noteq> k 5" using that by auto
    then show ?thesis using run by (simp add: rotated_nodes_def moved_def)
  qed
  have shift: "list_all (\<lambda>i. fs_node fs' (k (i + 1)) = fs_node fs (k i)) [0, 1, 2, 3, 4]"
    using run by (simp add: rotated_nodes_def moved_def)
  have data: "i = fs_next fs \<or> fs_data fs' i = fs_data fs i" for i
    using run by simp
  show ?thesis using c other shift data by blast
qed

text \<open>
  The capture task of a running process is not told about a rotation. What it writes through
  the file it opened goes to the rotated copy, and the log under the name that \<open>logs\<close> reads stays empty.
\<close>

theorem capture_after_rotation:
  assumes "fs_quiet fs" and "CHR ''/'' \<notin> set f" "f \<noteq> []" "f \<noteq> ''.''" "f \<noteq> ''..''" and "d \<noteq> []"
    and "fs_node fs (fs_res fs d) = Some Dir"
    and "\<And>i. fs_node fs (log_key (fs_res fs d) f i) \<noteq> Some Dir"
    and "open_append (d @ CHR ''/'' # f) fs = (Inr fd, fs)" and "fd \<noteq> fs_next fs"
  shows "fs_content (snd (forA evs (capture_line fd) (snd (rotate_log_file (d @ CHR ''/'' # f) fs)))) (d @ CHR ''/'' # f) = Some [] \<and>
    fs_content (snd (forA evs (capture_line fd) (snd (rotate_log_file (d @ CHR ''/'' # f) fs)))) (rotated_name (d @ CHR ''/'' # f) 1) =
      Some (fs_data fs fd @ unlines (map stamped evs))"
proof -
  let ?p = "d @ CHR ''/'' # f" and ?k = "log_key (fs_res fs d) f"
  let ?fs = "snd (rotate_log_file ?p fs)"
  note run = rotate_run [OF assms(1-8)]
  have p: "fs_res fs ?p = ?k 0" and p1: "fs_res fs (rotated_name ?p 1) = ?k 1"
    using resolve_sibling [OF assms(6,2-5)] resolve_rotated [OF assms(6,2,3), of "fs_cwd fs" 1] by (simp_all add: log_key_def)
  have cwd: "fs_cwd ?fs = fs_cwd fs" using run fs_env_res [of ?fs fs] by simp
  have "fs_node fs (?k 0) = Some (File fd)"
    using assms(1,9) by (auto simp: open_append_def p new_file_def Let_def split: option.splits node.splits
        dest: arg_cong [where f = fs_next])
  then have n1: "fs_node ?fs (?k 1) = Some (File fd)" and n0: "fs_node ?fs (?k 0) = Some (File (fs_next fs))"
    using run by (simp_all add: rotated_nodes_def moved_def)
  have data: "fs_data ?fs = (fs_data fs)(fs_next fs := [])" using run by simp
  let ?fs2 = "snd (forA evs (capture_line fd) ?fs)"
  have two: "?fs2 = ?fs\<lparr>fs_data := (fs_data ?fs)(fd := fs_data ?fs fd @ unlines (map stamped evs))\<rparr>"
    by (simp add: capture_lines_run)
  have node2: "fs_node ?fs2 = fs_node ?fs" and cwd2: "fs_cwd ?fs2 = fs_cwd fs"
    unfolding two by (auto simp: fs_node_def fun_eq_iff cwd)
  show ?thesis
    unfolding fs_content_def node2 cwd2 p p1 n0 n1
    using assms(10) by (simp add: two data)
qed

section \<open>The statements on concrete inputs\<close>

definition log_fs :: fsys where
  "log_fs = sample_fs\<lparr>fs_tree := [([''log''], Dir), ([''log'', ''out''], File 0)], fs_data := (\<lambda>i. if i = 0 then ''old'' else []),
     fs_next := 7\<rparr>"

lemma log_fs_res: "fs_res log_fs ''/log'' = [''log'']"
  by code_simp

lemma log_fs_facts:
  "fs_quiet log_fs" "fs_node log_fs (fs_res log_fs ''/log'') = Some Dir"
  "fs_node log_fs (log_key (fs_res log_fs ''/log'') ''out'' i) \<noteq> Some Dir"
  unfolding log_fs_res by (auto simp: fs_quiet_def log_fs_def sample_fs_def fs_node_def log_key_def)

theorem rotate_log_file_spec_witness:
  "fs_node (snd (rotate_log_file ''/log/out'' log_fs)) [''log'', ''out.1''] = Some (File 0)"
proof -
  have "fs_node (snd (rotate_log_file ''/log/out'' log_fs)) (log_key [''log''] ''out'' 1) =
      fs_node log_fs (log_key [''log''] ''out'' 0)"
    using rotate_log_file_spec [OF log_fs_facts(1) _ _ _ _ _ log_fs_facts(2,3)] by (simp add: log_fs_res)
  moreover have "log_key [''log''] ''out'' 1 = [''log'', ''out.1'']"
    and "fs_node log_fs (log_key [''log''] ''out'' 0) = Some (File 0)"
    by code_simp+
  ultimately show ?thesis by simp
qed

theorem capture_after_rotation_witness:
  "fs_content (snd (forA [(''12:00'', ''x'')] (capture_line 0) (snd (rotate_log_file ''/log/out'' log_fs)))) ''/log/out'' = Some []"
proof -
  have "open_append ''/log/out'' log_fs = (Inr 0, log_fs)"
    unfolding open_append_def guarded_quiet [OF log_fs_facts(1)]
    by (simp add: fs_node_def log_fs_def sample_fs_def resolve_def components_def is_absolute_iff body_comps_def)
  then show ?thesis
    using capture_after_rotation [OF log_fs_facts(1) _ _ _ _ _ log_fs_facts(2,3), of 0 "[(''12:00'', ''x'')]"]
    by (simp add: log_fs_def)
qed

definition run_fs :: fsys where
  "run_fs = sample_fs\<lparr>fs_tree := [([''var'', ''run'', ''nyrun'', ''logs'', ''web'', ''stdout.log''], File 0)]\<rparr>"


end
