(* ===== verification/State_Store.thy ===== *)
theory State_Store
  imports World "HOL-Library.Multiset"
begin

text \<open>
  \<open>src/state.rs\<close> and the persistence helpers at the end of \<open>src/cloud.rs\<close>: the saved process
  configurations and the cloud credentials, kept in a key-value database under different
  prefixes. The database is external; what the code relies on, that it behaves as a map from
  keys to values, is the predicate \<open>kv_db\<close>, and that the JSON library reads back what it wrote
  is \<open>config_codec\<close>.
\<close>

section \<open>Operations\<close>

definition config_prefix :: string where "config_prefix = ''config:''"

definition save_state :: "'e xt \<Rightarrow> process_config list \<Rightarrow> ('e, unit) act" where
  "save_state X configs =
     bindA (map_err (\<lambda>e. ''scan error: '' @ e) (x_db_scan X config_prefix)) (\<lambda>(kvs, failure).
     case failure of
       Some e \<Rightarrow> err (''iter error: '' @ e)
     | None \<Rightarrow>
         bindA (forA (map fst kvs) (\<lambda>key. map_err (\<lambda>e. ''delete error: '' @ e) (x_db_delete X key))) (\<lambda>_.
         bindA (forA configs (\<lambda>config.
                  case x_config_json X config of
                    Inl e \<Rightarrow> err (''serialize error: '' @ e)
                  | Inr value \<Rightarrow> map_err (\<lambda>e. ''put error: '' @ e) (x_db_put X (config_prefix @ pc_name config) value))) (\<lambda>_.
         map_err (\<lambda>e. ''flush error: '' @ e) (x_db_flush X))))"

definition parse_saved :: "'e xt \<Rightarrow> (string \<times> string) list \<Rightarrow> process_config list" where
  "parse_saved X kvs = List.map_filter (\<lambda>(k, v). case x_config_parse X v of Inl _ \<Rightarrow> None | Inr c \<Rightarrow> Some c) kvs"

definition load_state :: "'e xt \<Rightarrow> ('e, process_config list) act" where
  "load_state X =
     bindA (attempt (x_db_scan X config_prefix)) (\<lambda>r.
       case r of Inl _ \<Rightarrow> ok [] | Inr (kvs, _) \<Rightarrow> ok (parse_saved X kvs))"

definition store_put :: "'e xt \<Rightarrow> string \<Rightarrow> string \<Rightarrow> ('e, unit) act" where
  "store_put X key value =
     bindA (map_err (\<lambda>e. ''put error: '' @ e) (x_db_put X key value)) (\<lambda>_.
     map_err (\<lambda>e. ''flush error: '' @ e) (x_db_flush X))"

definition store_get :: "'e xt \<Rightarrow> string \<Rightarrow> ('e, string option) act" where
  "store_get X key = bindA (attempt (x_db_get X key)) (\<lambda>r. ok (case r of Inr v \<Rightarrow> v | Inl _ \<Rightarrow> None))"

definition store_delete :: "'e xt \<Rightarrow> string \<Rightarrow> ('e, unit) act" where
  "store_delete X key = map_err (\<lambda>e. ''delete error: '' @ e) (x_db_delete X key)"

definition store_close :: "'e xt \<Rightarrow> ('e, unit) act" where
  "store_close X = ignore (x_db_close X)"

definition state_json :: string where "state_json = ''/var/run/nyrun/state.json''"

definition migrate_json_to_slatedb :: "'e xt \<Rightarrow> ('e world, unit) act" where
  "migrate_json_to_slatedb X =
     bindA (gets (\<lambda>w. fs_exists state_json (w_fs w))) (\<lambda>ex.
     if \<not> ex then ok ()
     else bindA (attempt (onF (fs_read state_json))) (\<lambda>r.
       case r of
         Inl _ \<Rightarrow> ok ()
       | Inr json \<Rightarrow>
           (case x_configs_parse X json of
              Inl _ \<Rightarrow> ok ()
            | Inr configs \<Rightarrow>
                if configs = [] then ignore (onF (fs_remove_file state_json))
                else bindA (attempt (onX (save_state X configs))) (\<lambda>saved.
                  if is_ok saved then ignore (onF (fs_remove_file state_json)) else ok ()))))"

definition cloud_api_key :: string where "cloud_api_key = ''cloud:api_key''"
definition cloud_server_url :: string where "cloud_server_url = ''cloud:server_url''"
definition default_cloud_url :: string where "default_cloud_url = ''wss://cloud.nyrun.dev/agent/ws''"

definition save_cloud_config :: "'e xt \<Rightarrow> string \<Rightarrow> ('e, unit) act" where
  "save_cloud_config X api_key =
     bindA (store_put X cloud_api_key api_key) (\<lambda>_. store_put X cloud_server_url default_cloud_url)"

definition remove_cloud_config :: "'e xt \<Rightarrow> ('e, unit) act" where
  "remove_cloud_config X = bindA (store_delete X cloud_api_key) (\<lambda>_. store_delete X cloud_server_url)"

definition load_cloud_config :: "'e xt \<Rightarrow> ('e, (string \<times> string) option) act" where
  "load_cloud_config X =
     bindA (store_get X cloud_api_key) (\<lambda>k.
       case k of
         None \<Rightarrow> ok None
       | Some api_key \<Rightarrow> bindA (store_get X cloud_server_url) (\<lambda>u.
           ok (Some (api_key, case u of Some url \<Rightarrow> url | None \<Rightarrow> default_cloud_url))))"

section \<open>What the code relies on\<close>

text \<open>\<open>view e\<close> is the map the database holds in the external state \<open>e\<close>.\<close>

definition kv_db :: "'e xt \<Rightarrow> ('e \<Rightarrow> string \<Rightarrow> string option) \<Rightarrow> bool" where
  "kv_db X view \<longleftrightarrow>
     (\<forall>k v e. \<exists>e'. x_db_put X k v e = (Inr (), e') \<and> view e' = (view e)(k \<mapsto> v)) \<and>
     (\<forall>k e. \<exists>e'. x_db_delete X k e = (Inr (), e') \<and> view e' = (view e)(k := None)) \<and>
     (\<forall>k e. \<exists>e'. x_db_get X k e = (Inr (view e k), e') \<and> view e' = view e) \<and>
     (\<forall>p e. \<exists>e' kvs. x_db_scan X p e = (Inr (kvs, None), e') \<and> view e' = view e \<and> distinct (map fst kvs) \<and>
        (\<forall>k v. (k, v) \<in> set kvs \<longleftrightarrow> starts_with p k \<and> view e k = Some v)) \<and>
     (\<forall>e. \<exists>e'. x_db_flush X e = (Inr (), e') \<and> view e' = view e)"

definition config_codec :: "'e xt \<Rightarrow> process_config list \<Rightarrow> bool" where
  "config_codec X cs \<longleftrightarrow> (\<forall>c\<in>set cs. \<exists>s. x_config_json X c = Inr s \<and> x_config_parse X s = Inr c)"

lemma kv_put: "kv_db X view \<Longrightarrow> (\<And>e'. view e' = (view e)(k \<mapsto> v) \<Longrightarrow> Q () e') \<Longrightarrow> wp (x_db_put X k v) Q E e"
  by (rule wp_run [OF kv_db_def [THEN iffD1, THEN conjunct1, rule_format]])

lemma kv_delete: "kv_db X view \<Longrightarrow> (\<And>e'. view e' = (view e)(k := None) \<Longrightarrow> Q () e') \<Longrightarrow> wp (x_db_delete X k) Q E e"
  by (rule wp_run [OF kv_db_def [THEN iffD1, THEN conjunct2, THEN conjunct1, rule_format]])

lemma kv_get: "kv_db X view \<Longrightarrow> (\<And>e'. view e' = view e \<Longrightarrow> Q (view e k) e') \<Longrightarrow> wp (x_db_get X k) Q E e"
  by (rule wp_run [OF kv_db_def [THEN iffD1, THEN conjunct2, THEN conjunct2, THEN conjunct1, rule_format]])

lemma kv_flush: "kv_db X view \<Longrightarrow> (\<And>e'. view e' = view e \<Longrightarrow> Q () e') \<Longrightarrow> wp (x_db_flush X) Q E e"
  by (rule wp_run [OF kv_db_def [THEN iffD1, THEN conjunct2, THEN conjunct2, THEN conjunct2, THEN conjunct2, rule_format]])

lemma kv_scan:
  assumes "kv_db X view"
    and "\<And>e' kvs. view e' = view e \<Longrightarrow> distinct (map fst kvs) \<Longrightarrow>
      (\<forall>k v. (k, v) \<in> set kvs \<longleftrightarrow> starts_with p k \<and> view e k = Some v) \<Longrightarrow> Q (kvs, None) e'"
  shows "wp (x_db_scan X p) Q E e"
proof -
  obtain e' kvs where "x_db_scan X p e = (Inr (kvs, None), e')" "view e' = view e" "distinct (map fst kvs)"
    "\<forall>k v. (k, v) \<in> set kvs \<longleftrightarrow> starts_with p k \<and> view e k = Some v"
    using assms(1) unfolding kv_db_def by metis
  with assms(2) show ?thesis by (simp add: wp_def)
qed

section \<open>Saving and loading\<close>

definition js :: "'e xt \<Rightarrow> process_config \<Rightarrow> string" where
  "js X c = (case x_config_json X c of Inr s \<Rightarrow> s | Inl _ \<Rightarrow> [])"

abbreviation key_of :: "process_config \<Rightarrow> string" where
  "key_of c \<equiv> config_prefix @ pc_name c"

lemma codec_js: "config_codec X cs \<Longrightarrow> c \<in> set cs \<Longrightarrow> x_config_json X c = Inr (js X c) \<and> x_config_parse X (js X c) = Inr c"
  unfolding config_codec_def js_def by (metis sum.simps(6))

lemma wp_delete_loop:
  assumes "kv_db X view"
  shows "wp (forA ks (\<lambda>key. map_err g (x_db_delete X key)))
    (\<lambda>_ e'. view e' = (\<lambda>k. if k \<in> set ks then None else view e k)) E e"
proof (induction ks arbitrary: e)
  case (Cons k ks)
  show ?case
    unfolding forA.simps wp_bindA wp_map_err
    by (rule kv_delete [OF assms], rule wp_mono [OF Cons.IH]) (auto simp: fun_eq_iff)
qed (simp add: wp_simps)

lemma wp_put_loop:
  assumes "kv_db X view"
  shows "wp (forA cs (\<lambda>c. map_err g (x_db_put X (key_of c) (js X c))))
    (\<lambda>_ e'. view e' = view e ++ map_of (rev (map (\<lambda>c. (key_of c, js X c)) cs))) E e"
proof (induction cs arbitrary: e)
  case (Cons c cs)
  show ?case
    unfolding forA.simps wp_bindA wp_map_err
    by (rule kv_put [OF assms], rule wp_mono [OF Cons.IH]) (simp_all add: fun_eq_iff map_add_def split: option.split)
qed (simp add: wp_simps)

definition saved_view :: "'e xt \<Rightarrow> process_config list \<Rightarrow> (string \<Rightarrow> string option) \<Rightarrow> string \<Rightarrow> string option" where
  "saved_view X cs v = (\<lambda>k. if starts_with config_prefix k then None else v k) ++ map_of (map (\<lambda>c. (key_of c, js X c)) cs)"

lemma map_of_rev_distinct: "distinct (map fst kvs) \<Longrightarrow> map_of (rev kvs) = map_of kvs"
  by (simp add: map_of_inject_set rev_map [symmetric])

lemma wp_save_state:
  assumes db: "kv_db X view" and codec: "config_codec X cs" and names: "distinct (map pc_name cs)"
    and post: "\<And>e'. view e' = saved_view X cs (view e) \<Longrightarrow> Q () e'"
  shows "wp (save_state X cs) Q E e"
proof -
  have keys: "distinct (map fst (map (\<lambda>c. (key_of c, js X c)) cs))"
    using names by (simp add: distinct_map comp_def inj_on_def)
  have puts: "forA cs (\<lambda>config.
        case x_config_json X config of
          Inl e \<Rightarrow> err (''serialize error: '' @ e)
        | Inr value \<Rightarrow> map_err (\<lambda>e. ''put error: '' @ e) (x_db_put X (key_of config) value)) =
      forA cs (\<lambda>c. map_err (\<lambda>e. ''put error: '' @ e) (x_db_put X (key_of c) (js X c)))"
    by (rule forA_cong) (simp only: codec_js [OF codec] sum.case)
  show ?thesis
    unfolding save_state_def puts wp_bindA wp_map_err
  proof (rule kv_scan [OF db], goal_cases)
    case (1 e1 kvs)
    have "(if k \<in> fst ` set kvs then None else view e1 k) = (if starts_with config_prefix k then None else view e k)" for k
      using 1 by (cases "view e k") (force simp: image_iff)+
    then have gone: "(\<lambda>k. if k \<in> fst ` set kvs then None else view e1 k) =
        (\<lambda>k. if starts_with config_prefix k then None else view e k)"
      by simp
    show ?case
      unfolding prod.case option.case wp_bindA wp_map_err
      by (rule wp_mono [OF wp_delete_loop [OF db]], rule wp_mono [OF wp_put_loop [OF db]], rule kv_flush [OF db])
        (auto simp: gone saved_view_def map_of_rev_distinct [OF keys] intro!: post)
  qed
qed

lemma saved_view_prefix:
  assumes "distinct (map pc_name cs)"
  shows "starts_with config_prefix k \<and> saved_view X cs v k = Some x \<longleftrightarrow> (\<exists>c\<in>set cs. k = key_of c \<and> x = js X c)"
proof -
  have "distinct (map fst (map (\<lambda>c. (key_of c, js X c)) cs))"
    using assms by (simp add: distinct_map comp_def inj_on_def)
  then have "map_of (map (\<lambda>c. (key_of c, js X c)) cs) k = Some x \<longleftrightarrow> (k, x) \<in> set (map (\<lambda>c. (key_of c, js X c)) cs)"
    by (rule map_of_eq_Some_iff)
  then show ?thesis
    by (auto simp: saved_view_def map_add_Some_iff)
qed

lemma saved_view_other: "\<not> starts_with config_prefix k \<Longrightarrow> saved_view X cs v k = v k"
  by (auto simp: saved_view_def map_add_def map_of_eq_None_iff image_iff split: option.split dest!: map_of_SomeD)

lemma parse_saved_all:
  assumes "config_codec X cs" and "distinct (map pc_name cs)" and "distinct (map fst kvs)"
    and kvs: "\<And>k v. (k, v) \<in> set kvs \<longleftrightarrow> (\<exists>c\<in>set cs. k = key_of c \<and> v = js X c)"
  shows "mset (parse_saved X kvs) = mset cs"
proof -
  define g where "g = (\<lambda>(k :: string, v). case x_config_parse X v of Inl _ \<Rightarrow> None | Inr c \<Rightarrow> Some c)"
  have g: "g (k, js X c) = Some c" if "c \<in> set cs" for k c
    using codec_js [OF assms(1) that] by (simp add: g_def)
  have all: "\<exists>c\<in>set cs. kv = (key_of c, js X c)" if "kv \<in> set kvs" for kv
    using kvs [of "fst kv" "snd kv"] that by (cases kv) auto
  have some: "filter (\<lambda>kv. g kv \<noteq> None) kvs = kvs"
    using all g by (fastforce simp: filter_id_conv)
  have parse: "parse_saved X kvs = map (the \<circ> g) kvs"
    unfolding parse_saved_def g_def [symmetric] List.map_filter_def some ..
  have set_eq: "(the \<circ> g) ` set kvs = set cs"
  proof
    show "(the \<circ> g) ` set kvs \<subseteq> set cs" using all g by fastforce
    show "set cs \<subseteq> (the \<circ> g) ` set kvs"
    proof
      fix c assume "c \<in> set cs"
      then have "(key_of c, js X c) \<in> set kvs" using kvs by blast
      then have "(the \<circ> g) (key_of c, js X c) \<in> (the \<circ> g) ` set kvs" by (rule imageI)
      with \<open>c \<in> set cs\<close> show "c \<in> (the \<circ> g) ` set kvs" by (simp add: g)
    qed
  qed
  have "inj_on (the \<circ> g) (set kvs)"
  proof (rule inj_onI)
    fix x y assume x: "x \<in> set kvs" and y: "y \<in> set kvs" and eq: "(the \<circ> g) x = (the \<circ> g) y"
    obtain c d where "x = (key_of c, js X c)" "y = (key_of d, js X d)" "c \<in> set cs" "d \<in> set cs" using all [OF x] all [OF y] by blast
    with eq show "x = y" by (simp add: g)
  qed
  then have "distinct (map (the \<circ> g) kvs)"
    using assms(3) by (simp add: distinct_map)
  moreover have "distinct cs" using assms(2) by (simp add: distinct_map)
  ultimately show ?thesis
    unfolding parse using set_eq set_eq_iff_mset_eq_distinct [of "map (the \<circ> g) kvs" cs] by simp
qed

lemma save_load:
  assumes "kv_db X view" and "config_codec X cs" and "distinct (map pc_name cs)"
  shows "\<exists>e1 e2 cs'. save_state X cs e = (Inr (), e1) \<and> load_state X e1 = (Inr cs', e2) \<and> mset cs' = mset cs \<and>
    (\<forall>k. starts_with config_prefix k \<or> view e2 k = view e k)"
proof -
  have "wp (bindA (save_state X cs) (\<lambda>_. load_state X))
      (\<lambda>cs' e2. mset cs' = mset cs \<and> (\<forall>k. starts_with config_prefix k \<or> view e2 k = view e k)) (\<lambda>_ _. False) e"
    unfolding load_state_def wp_bindA wp_attempt
  proof (rule wp_save_state [OF assms], rule kv_scan [OF assms(1)], goal_cases)
    case (1 e1 e2 kvs)
    then have "mset (parse_saved X kvs) = mset cs"
      using saved_view_prefix [OF assms(3), of _ X "view e"] by (intro parse_saved_all [OF assms(2,3)]) auto
    then show ?case
      using 1 saved_view_other [of _ X cs "view e"] by (auto simp: wp_simps)
  qed
  then show ?thesis
    by (auto simp: wp_def bindA_def split: prod.splits sum.splits)
qed

text \<open>
  Saved configurations are loaded again: with a working database and a JSON library that reads back what it writes, saving
  succeeds, a later load returns the same configurations up to order, and no key outside the prefix of the
  configurations is changed.
\<close>

theorem save_load_roundtrip:
  assumes "kv_db X view" and "config_codec X cs" and "distinct (map pc_name cs)"
  shows "\<exists>e1 e2 cs'. save_state X cs e = (Inr (), e1) \<and> load_state X e1 = (Inr cs', e2) \<and> mset cs' = mset cs \<and>
    (\<forall>k. starts_with config_prefix k \<or> view e2 k = view e k)"
  using assms by (rule save_load)

text \<open>
  The cloud credentials survive a restart of the daemon and are gone after an unlink, also when processes are saved in between.
\<close>

theorem cloud_config_roundtrip:
  assumes "kv_db X view" and "config_codec X cs" and "distinct (map pc_name cs)"
  shows "fst (bindA (save_cloud_config X key) (\<lambda>_. bindA (save_state X cs) (\<lambda>_. load_cloud_config X)) e) =
      Inr (Some (key, default_cloud_url)) \<and>
    fst (bindA (remove_cloud_config X) (\<lambda>_. bindA (save_state X cs) (\<lambda>_. load_cloud_config X)) e) = Inr None"
proof -
  have keys: "\<not> starts_with config_prefix cloud_api_key" "\<not> starts_with config_prefix cloud_server_url"
    "cloud_api_key \<noteq> cloud_server_url"
    by code_simp+
  have load: "wp (load_cloud_config X) (\<lambda>r _. r = (case view e1 cloud_api_key of None \<Rightarrow> None
      | Some k \<Rightarrow> Some (k, case view e1 cloud_server_url of Some u \<Rightarrow> u | None \<Rightarrow> default_cloud_url))) (\<lambda>_ _. False) e1" for e1
    unfolding load_cloud_config_def store_get_def wp_bindA wp_attempt wp_ok
    by (rule kv_get [OF assms(1)], cases "view e1 cloud_api_key")
      (auto simp: wp_simps store_get_def intro!: kv_get [OF assms(1)] split: option.split)
  have after: "wp (bindA (save_state X cs) (\<lambda>_. load_cloud_config X)) (\<lambda>r _. r = (case view e1 cloud_api_key of None \<Rightarrow> None
      | Some k \<Rightarrow> Some (k, case view e1 cloud_server_url of Some u \<Rightarrow> u | None \<Rightarrow> default_cloud_url))) (\<lambda>_ _. False) e1" for e1
    unfolding wp_bindA
    by (rule wp_save_state [OF assms], rule wp_mono [OF load]) (simp_all add: saved_view_other keys split: option.split)
  have "wp (bindA (save_cloud_config X key) (\<lambda>_. bindA (save_state X cs) (\<lambda>_. load_cloud_config X)))
      (\<lambda>r _. r = Some (key, default_cloud_url)) (\<lambda>_ _. False) e"
    unfolding save_cloud_config_def store_put_def wp_bindA [of "bindA _ _"] wp_bindA [of "map_err _ _"] wp_map_err
    by (intro kv_put [OF assms(1)] kv_flush [OF assms(1)], rule wp_mono [OF after]) (simp_all add: keys)
  moreover have "wp (bindA (remove_cloud_config X) (\<lambda>_. bindA (save_state X cs) (\<lambda>_. load_cloud_config X)))
      (\<lambda>r _. r = None) (\<lambda>_ _. False) e"
    unfolding remove_cloud_config_def store_delete_def wp_bindA [of "bindA _ _"] wp_bindA [of "map_err _ _"] wp_map_err
    by (intro kv_delete [OF assms(1)], rule wp_mono [OF after]) (simp_all add: keys)
  ultimately show ?thesis
    by (auto simp: wp_def split: prod.splits sum.splits)
qed

section \<open>The statements on a concrete database\<close>

definition db_xt :: "(string, string) hmap xt" where
  "db_xt = \<lparr>
     x_spawn = (\<lambda>_ _ d. (Inl enoent, d)), x_kill = (\<lambda>_ d. d), x_try_wait = (\<lambda>_ d. (Inr None, d)), x_now = (\<lambda>_. 0),
     x_proc_stats = (\<lambda>_ d. ([], d)), x_free_port = (\<lambda>d. (Inr 40000, d)), x_parse_reference = (\<lambda>_. None),
     x_pull_manifest = (\<lambda>_ d. (Inl enoent, d)), x_pull_blob = (\<lambda>_ _ d. (Inl enoent, d)), x_tar_entries = (\<lambda>_ _. Inr []),
     x_json_parse = (\<lambda>_. None), x_json_show = (\<lambda>_. ''{}''),
     x_config_json = (\<lambda>c. Inr (pc_name c)), x_config_parse = (\<lambda>s. Inr (sample_config\<lparr>pc_name := s\<rparr>)),
     x_configs_parse = (\<lambda>_. Inr []),
     x_shlex_split = (\<lambda>_. None), x_shlex_join = (\<lambda>_. None),
     x_db_put = (\<lambda>k v d. (Inr (), hm_insert k v d)), x_db_get = (\<lambda>k d. (Inr (hm_get d k), d)),
     x_db_delete = (\<lambda>k d. (Inr (), hm_remove k d)),
     x_db_scan = (\<lambda>p d. (Inr (filter (\<lambda>(k, v). starts_with p k) (AList.clearjunk d), None), d)),
     x_db_flush = (\<lambda>d. (Inr (), d)), x_db_close = (\<lambda>d. (Inr (), d)),
     x_parse_cert = (\<lambda>_. None), x_parse_key = (\<lambda>_. None), x_parse_chain = (\<lambda>p. Inr [p])\<rparr>"

lemma db_xt_kv: "kv_db db_xt hm_get"
proof -
  have "distinct (map fst (filter (\<lambda>(k, v). starts_with p k) (AList.clearjunk d)))" for p and d :: "(string, string) hmap"
    by (rule distinct_map_filter [OF distinct_clearjunk])
  moreover have "(k, v) \<in> set (filter (\<lambda>(k, v). starts_with p k) (AList.clearjunk d)) \<longleftrightarrow> starts_with p k \<and> hm_get d k = Some v"
    for p k v and d :: "(string, string) hmap"
    using map_of_eq_Some_iff [OF distinct_clearjunk [of d], of k v] by (auto simp: map_of_clearjunk)
  ultimately show ?thesis
    by (simp add: kv_db_def db_xt_def hm_get_insert hm_get_remove)
qed

definition two_configs :: "process_config list" where
  "two_configs = [sample_config, sample_config\<lparr>pc_name := ''api''\<rparr>]"

lemma two_configs_facts: "config_codec db_xt two_configs" "distinct (map pc_name two_configs)"
  by (simp_all add: config_codec_def db_xt_def two_configs_def sample_config_def)

theorem save_load_roundtrip_witness:
  "\<exists>e1 e2 cs'. save_state db_xt two_configs [(''cloud:api_key'', ''k'')] = (Inr (), e1) \<and>
     load_state db_xt e1 = (Inr cs', e2) \<and> mset cs' = mset two_configs"
  using save_load_roundtrip [OF db_xt_kv two_configs_facts, of "[(''cloud:api_key'', ''k'')]"] by blast

theorem cloud_config_roundtrip_witness:
  "fst (bindA (save_cloud_config db_xt ''k'') (\<lambda>_. bindA (save_state db_xt two_configs) (\<lambda>_. load_cloud_config db_xt)) []) =
     Inr (Some (''k'', default_cloud_url))"
  using cloud_config_roundtrip [OF db_xt_kv two_configs_facts] by blast

end
