(* ===== verification/Cli_Config.thy ===== *)
theory Cli_Config
  imports Oci
begin

text \<open>
  \<open>src/main.rs\<close>, the client side of a process description: environment files, port mappings, the
  \<open>--deny\<close> and \<open>--allow\<close> lists, default names, and the translation between a manifest of a
  configuration file and the \<open>ProcessConfig\<close> that the daemon receives, in both directions
  (\<open>nyrun start\<close> and \<open>nyrun export\<close>).
\<close>

section \<open>Environment files\<close>

text \<open>One line: blank lines and comments are skipped, quotes around the value are removed.\<close>

definition env_line :: "string \<Rightarrow> (string \<times> string) option" where
  "env_line l0 =
     (let l = trim l0 in
      if l = [] \<or> starts_with ''#'' l then None
      else (case split_once (CHR ''='') l of
              None \<Rightarrow> None
            | Some (key, value) \<Rightarrow>
                Some (trim key, trim_matches (CHR 0x27) (trim_matches (CHR 0x22) (trim value)))))"

definition env_vars_of :: "string \<Rightarrow> (string, string) hmap" where
  "env_vars_of content = hm_extend [] (List.map_filter env_line (lines_of content))"

definition quoted :: "string \<Rightarrow> string" where
  "quoted s = [CHR 0x27] @ s @ [CHR 0x27]"

definition parse_env_file :: "string \<Rightarrow> fsys \<Rightarrow> (string, string) hmap result" where
  "parse_env_file path fs =
     (case fst (fs_read path fs) of
        Inl e \<Rightarrow> Inl (''failed to read env file '' @ quoted path @ '': '' @ e)
      | Inr content \<Rightarrow> Inr (env_vars_of content))"

section \<open>Option strings\<close>

definition parse_args_string :: "'e xt \<Rightarrow> string option \<Rightarrow> string list" where
  "parse_args_string X args =
     (case args of Some s \<Rightarrow> (case x_shlex_split X s of Some xs \<Rightarrow> xs | None \<Rightarrow> []) | None \<Rightarrow> [])"

definition parse_deny :: "string option \<Rightarrow> string list" where
  "parse_deny deny = (case deny of Some s \<Rightarrow> map trim (split_on (CHR '','') s) | None \<Rightarrow> [])"

definition parse_allow :: "string option \<Rightarrow> string list" where
  "parse_allow allow = (case allow of Some s \<Rightarrow> map trim (split_on (CHR '','') s) | None \<Rightarrow> [])"

definition port_or_error :: "string \<Rightarrow> u16 result" where
  "port_or_error s = (case parse_u16 s of Some p \<Rightarrow> Inr p | None \<Rightarrow> Inl (''invalid port: '' @ s))"

definition parse_port_mapping :: "string \<Rightarrow> port_mapping result" where
  "parse_port_mapping port =
     (case split_on (CHR '':'') port of
        [a] \<Rightarrow> andThen (port_or_error a) (\<lambda>p.
            Inr \<lparr>pm_host = None, pm_public_port = p, pm_app_port = None\<rparr>)
      | [a, b] \<Rightarrow> andThen (port_or_error a) (\<lambda>public. andThen (port_or_error b) (\<lambda>app.
            Inr \<lparr>pm_host = None, pm_public_port = public, pm_app_port = Some app\<rparr>))
      | [h, a, b] \<Rightarrow> andThen (port_or_error a) (\<lambda>public. andThen (port_or_error b) (\<lambda>app.
            Inr \<lparr>pm_host = Some h, pm_public_port = public, pm_app_port = Some app\<rparr>))
      | _ \<Rightarrow> Inl (''invalid port mapping: '' @ port))"

definition derive_name :: "string \<Rightarrow> string option \<Rightarrow> string" where
  "derive_name path name =
     (case name of
        Some n \<Rightarrow> n
      | None \<Rightarrow> if is_oci_reference path then image_name_from_ref path
                else (case file_name path of Some f \<Rightarrow> f | None \<Rightarrow> ''unknown''))"

section \<open>Manifests\<close>

definition configmap_dir :: string where
  "configmap_dir = ''/var/run/nyrun/configmaps''"

record manifest_spec =
  ms_path :: string
  ms_port :: "string option"
  ms_args :: "string option"
  ms_env_file :: "string option"
  ms_env :: "(string, string) hmap option"
  ms_spa :: bool
  ms_ssl :: "string list option"
  ms_acme :: "string option"
  ms_deny :: "string option"
  ms_allow :: "string option"
  ms_pid_file :: "string option"
  ms_volumes :: "string list"

record process_manifest =
  mf_kind :: string
  mf_name :: string
  mf_spec :: manifest_spec

definition resolve_configmap_volume :: "string \<Rightarrow> string" where
  "resolve_configmap_volume v =
     (case strip_prefix ''configmap:'' v of
        Some rest \<Rightarrow>
          (case split_once (CHR '':'') rest of
             Some (cm_name, dest) \<Rightarrow> configmap_dir @ ''/'' @ cm_name @ CHR '':'' # dest
           | None \<Rightarrow> v)
      | None \<Rightarrow> v)"

definition resolve_configmap_volumes :: "string list \<Rightarrow> string list" where
  "resolve_configmap_volumes volumes = map resolve_configmap_volume volumes"

definition manifest_env :: "fsys \<Rightarrow> manifest_spec \<Rightarrow> (string, string) hmap result" where
  "manifest_env fs spec =
     (case (ms_env_file spec, ms_env spec) of
        (Some ef, Some extra) \<Rightarrow> andThen (parse_env_file ef fs) (\<lambda>vars. Inr (hm_extend vars extra))
      | (Some ef, None) \<Rightarrow> parse_env_file ef fs
      | (None, Some extra) \<Rightarrow> Inr extra
      | (None, None) \<Rightarrow> Inr [])"

definition manifest_ssl :: "string list option \<Rightarrow> ssl_config option" where
  "manifest_ssl ssl =
     (case ssl of Some [c, k] \<Rightarrow> Some \<lparr>ssl_cert_path = c, ssl_key_path = k\<rparr> | _ \<Rightarrow> None)"

definition manifest_to_config :: "'e xt \<Rightarrow> fsys \<Rightarrow> process_manifest \<Rightarrow> process_config result" where
  "manifest_to_config X fs m =
     (let spec = mf_spec m in
      andThen (manifest_env fs spec) (\<lambda>env_vars.
      andThen (case ms_port spec of
                 Some p \<Rightarrow> andThen (parse_port_mapping p) (\<lambda>pm. Inr (Some pm))
               | None \<Rightarrow> Inr None) (\<lambda>port_mapping.
      let is_oci = is_oci_reference (ms_path spec);
          path = (if is_oci then normalize_reference X fs (ms_path spec) else ms_path spec) in
      Inr \<lparr>pc_name = mf_name m, pc_path = path, pc_args = parse_args_string X (ms_args spec),
           pc_env_vars = env_vars, pc_env_file = ms_env_file spec,
           pc_mode = (if port_mapping \<noteq> None then Run else Bin),
           pc_port_mapping = port_mapping, pc_spa = ms_spa spec, pc_ssl = manifest_ssl (ms_ssl spec),
           pc_acme = ms_acme spec, pc_deny = parse_deny (ms_deny spec), pc_allow = parse_allow (ms_allow spec),
           pc_is_oci = is_oci, pc_oci_reference = (if is_oci then Some path else None),
           pc_pid_file = ms_pid_file spec, pc_volumes = resolve_configmap_volumes (ms_volumes spec)\<rparr>)))"

definition port_string :: "port_mapping \<Rightarrow> string" where
  "port_string pm =
     (case pm_host pm of
        Some host \<Rightarrow> host @ '':'' @ show_word (pm_public_port pm) @ '':''
            @ show_word (case pm_app_port pm of Some a \<Rightarrow> a | None \<Rightarrow> pm_public_port pm)
      | None \<Rightarrow>
          (case pm_app_port pm of
             Some app \<Rightarrow> show_word (pm_public_port pm) @ '':'' @ show_word app
           | None \<Rightarrow> show_word (pm_public_port pm)))"

definition config_to_manifest :: "'e xt \<Rightarrow> process_config \<Rightarrow> process_manifest" where
  "config_to_manifest X c =
     \<lparr>mf_kind = ''Process'', mf_name = pc_name c,
      mf_spec = \<lparr>
        ms_path = (case pc_oci_reference c of Some r \<Rightarrow> r | None \<Rightarrow> pc_path c),
        ms_port = map_option port_string (pc_port_mapping c),
        ms_args = (if pc_args c = [] then None
                   else Some (case x_shlex_join X (pc_args c) of Some s \<Rightarrow> s | None \<Rightarrow> [])),
        ms_env_file = pc_env_file c,
        ms_env = (if pc_env_vars c = [] then None else Some (pc_env_vars c)),
        ms_spa = pc_spa c,
        ms_ssl = map_option (\<lambda>s. [ssl_cert_path s, ssl_key_path s]) (pc_ssl c),
        ms_acme = pc_acme c,
        ms_deny = (if pc_deny c = [] then None else Some (join_with '','' (pc_deny c))),
        ms_allow = (if pc_allow c = [] then None else Some (join_with '','' (pc_allow c))),
        ms_pid_file = pc_pid_file c,
        ms_volumes = pc_volumes c\<rparr>\<rparr>"

section \<open>The run command\<close>

text \<open>
  \<open>nyrun run\<close>: the request that is sent, or the message printed before exit. The argument parser
  gives \<open>--ssl\<close> exactly two values.
\<close>

definition run_request ::
  "'e xt \<Rightarrow> fsys \<Rightarrow> string \<Rightarrow> string option \<Rightarrow> string option \<Rightarrow> string option \<Rightarrow> string option \<Rightarrow> bool
   \<Rightarrow> (string \<times> string) option \<Rightarrow> string option \<Rightarrow> string option \<Rightarrow> string option \<Rightarrow> request result" where
  "run_request X fs path0 name port args env_file spa ssl acme deny allow =
     andThen (case port of Some p \<Rightarrow> andThen (parse_port_mapping p) (\<lambda>pm. Inr (Some pm)) | None \<Rightarrow> Inr None) (\<lambda>port_mapping.
     andThen (case env_file of Some ef \<Rightarrow> parse_env_file ef fs | None \<Rightarrow> Inr []) (\<lambda>env_vars.
     let is_oci = is_oci_reference path0;
         path = (if is_oci then normalize_reference X fs path0 else path0);
         config = \<lparr>pc_name = derive_name path name, pc_path = path, pc_args = parse_args_string X args,
           pc_env_vars = env_vars, pc_env_file = env_file,
           pc_mode = (if port_mapping \<noteq> None then Run else Bin),
           pc_port_mapping = port_mapping, pc_spa = spa,
           pc_ssl = map_option (\<lambda>(c, k). \<lparr>ssl_cert_path = c, ssl_key_path = k\<rparr>) ssl,
           pc_acme = acme, pc_deny = parse_deny deny, pc_allow = parse_allow allow,
           pc_is_oci = is_oci, pc_oci_reference = (if is_oci then Some path else None),
           pc_pid_file = None, pc_volumes = []\<rparr>
     in Inr (if port_mapping \<noteq> None then ReqRun config else ReqBin config)))"

section \<open>Environment files: properties\<close>

lemma hm_extend_Nil: "hm_get (hm_extend [] kvs) = map_of (rev kvs)"
  using hm.get_put_all [of "[]" kvs] by (simp add: hm_extend_def hm_wf_def)

definition plain_key :: "string \<Rightarrow> bool" where
  "plain_key k \<longleftrightarrow> k \<noteq> [] \<and> CHR ''='' \<notin> set k \<and> newline \<notin> set k \<and> hd k \<noteq> CHR ''#'' \<and> trim k = k"

definition plain_value :: "string \<Rightarrow> bool" where
  "plain_value v \<longleftrightarrow> newline \<notin> set v \<and> trim v = v
     \<and> trim_matches (CHR 0x22) v = v \<and> trim_matches (CHR 0x27) v = v"

lemma trim_ends: "trim s = s \<Longrightarrow> s \<noteq> [] \<Longrightarrow> \<not> is_ws (hd s) \<and> \<not> is_ws (last s)"
  using trim_with_ends [of is_ws s] by (simp add: trim_def)

lemma not_ws_equals: "\<not> is_ws (CHR ''='')"
  by (simp add: is_ws_def)

lemma env_pair_line:
  assumes "plain_key k" and "plain_value v"
  shows "trim (k @ CHR ''='' # v) = k @ CHR ''='' # v" and "\<not> is_ws (last (k @ CHR ''='' # v))"
proof -
  have k: "\<not> is_ws (hd k)" "k \<noteq> []"
    using assms(1) trim_ends [of k] by (auto simp: plain_key_def)
  have v: "v = [] \<or> \<not> is_ws (last v)"
    using assms(2) trim_ends [of v] by (auto simp: plain_value_def)
  then show l: "\<not> is_ws (last (k @ CHR ''='' # v))"
    by (cases "v = []") (simp_all add: not_ws_equals)
  show "trim (k @ CHR ''='' # v) = k @ CHR ''='' # v"
    unfolding trim_def by (rule trim_with_id) (use k l in simp)
qed

lemma env_line_pair:
  assumes "plain_key k" and "plain_value v"
  shows "env_line (k @ CHR ''='' # v) = Some (k, v)"
proof -
  have ne: "k \<noteq> []" and hash: "\<not> starts_with ''#'' (k @ CHR ''='' # v)"
    using assms(1) by (cases k; auto simp: plain_key_def starts_with_iff)+
  have "split_once (CHR ''='') (k @ CHR ''='' # v) = Some (k, v)"
    using assms(1) by (simp add: split_once_Some plain_key_def)
  then show ?thesis
    using assms ne hash by (simp add: env_line_def env_pair_line Let_def plain_key_def plain_value_def)
qed

text \<open>
  Reading back an environment file of \<open>KEY=value\<close> lines gives every variable the value of its
  last line, for keys and values without surrounding blanks or quotes.
\<close>

theorem env_file_roundtrip:
  assumes "\<And>k v. (k, v) \<in> set kvs \<Longrightarrow> plain_key k \<and> plain_value v"
  shows "hm_get (env_vars_of (concat (map (\<lambda>(k, v). (k @ CHR ''='' # v) @ [newline]) kvs))) = map_of (rev kvs)"
proof -
  let ?ls = "map (\<lambda>(k, v). k @ CHR ''='' # v) kvs"
  have "newline \<notin> set l \<and> (l = [] \<or> last l \<noteq> carriage)" if mem: "l \<in> set ?ls" for l
  proof -
    obtain k v where kv: "(k, v) \<in> set kvs" and l: "l = k @ CHR ''='' # v"
      using mem by auto
    have "\<not> is_ws (last l)" unfolding l using assms [OF kv] by (intro env_pair_line) auto
    moreover have "is_ws carriage" by (simp add: is_ws_def)
    ultimately show ?thesis using assms [OF kv] by (auto simp: l plain_key_def plain_value_def)
  qed
  then have "lines_of (concat (map (\<lambda>l. l @ [newline]) ?ls)) = ?ls"
    by (rule lines_of_unlines)
  then have lines: "lines_of (concat (map (\<lambda>(k, v). (k @ CHR ''='' # v) @ [newline]) kvs)) = ?ls"
    by (simp add: comp_def case_prod_unfold)
  have "List.map_filter env_line ?ls = kvs"
    using assms by (intro map_filter_map_id) (auto intro: env_line_pair)
  then show ?thesis
    by (simp only: env_vars_of_def lines hm_extend_Nil)
qed

theorem env_file_roundtrip_witness:
  "hm_get (env_vars_of (concat (map (\<lambda>(k, v). (k @ CHR ''='' # v) @ [newline])
     [(''PORT'', ''1''), (''HOST'', ''a b''), (''PORT'', ''2'')]))) ''PORT'' = Some ''2''"
proof -
  have "plain_key k \<and> plain_value v"
    if "(k, v) \<in> set [(''PORT'', ''1''), (''HOST'', ''a b''), (''PORT'', ''2'')]" for k v
    using that by (auto simp: plain_key_def plain_value_def trim_def trim_with_def trim_matches_def is_ws_def)
  then show ?thesis by (subst env_file_roundtrip) auto
qed

section \<open>Port mappings: properties\<close>

text \<open>A mapping with a host prints its application port even when it has none.\<close>

definition port_norm :: "port_mapping \<Rightarrow> port_mapping" where
  "port_norm pm = (if pm_host pm \<noteq> None \<and> pm_app_port pm = None
     then pm\<lparr>pm_app_port := Some (pm_public_port pm)\<rparr> else pm)"

definition host_ok :: "port_mapping \<Rightarrow> bool" where
  "host_ok pm \<longleftrightarrow> (\<forall>h. pm_host pm = Some h \<longrightarrow> CHR '':'' \<notin> set h)"

lemma port_or_error_show [simp]: "port_or_error (show_word p) = Inr p"
  by (simp add: port_or_error_def)

lemma no_colon [simp]: "CHR '':'' \<notin> set (show_word p)"
  by (rule show_word_no_char) (simp add: is_digit_def)

lemma parse_port_string:
  assumes "host_ok pm"
  shows "parse_port_mapping (port_string pm) = Inr (port_norm pm)"
proof -
  obtain h p a where pm: "pm = \<lparr>pm_host = h, pm_public_port = p, pm_app_port = a\<rparr>"
    by (cases pm)
  have split: "split_on (CHR '':'') (x @ CHR '':'' # y) = x # split_on (CHR '':'') y"
    if "CHR '':'' \<notin> set x" for x y
    using that by (simp add: split_on_append split_on_no_sep)
  show ?thesis
    using assms
    by (cases h; cases a)
      (simp_all add: pm port_string_def parse_port_mapping_def port_norm_def host_ok_def split split_on_no_sep)
qed

lemma parse_port_mapping_norm:
  assumes "parse_port_mapping s = Inr pm"
  shows "host_ok pm \<and> port_norm pm = pm"
proof -
  have "CHR '':'' \<notin> set x" if "x \<in> set (split_on (CHR '':'') s)" for x
    using that by (rule split_on_sep)
  with assms show ?thesis
    by (fastforce simp: parse_port_mapping_def andThen_Inr host_ok_def port_norm_def split: list.splits)
qed

interpretation ports: codec port_string "\<lambda>s. case parse_port_mapping s of Inr pm \<Rightarrow> Some pm | Inl _ \<Rightarrow> None"
  "\<lambda>pm. host_ok pm \<and> port_norm pm = pm"
  by unfold_locales (simp add: parse_port_string)

text \<open>Every mapping the parser accepts is printed by \<open>export\<close> to a text that parses to the same mapping.\<close>

theorem port_mapping_roundtrip:
  assumes "parse_port_mapping s = Inr pm"
  shows "parse_port_mapping (port_string pm) = Inr pm"
  using parse_port_mapping_norm [OF assms] parse_port_string [of pm] by simp

theorem port_mapping_roundtrip_witness:
  "parse_port_mapping (port_string \<lparr>pm_host = Some ''a.b'', pm_public_port = 443, pm_app_port = Some 8000\<rparr>)
   = Inr \<lparr>pm_host = Some ''a.b'', pm_public_port = 443, pm_app_port = Some 8000\<rparr>"
proof -
  have "parse_port_mapping ''a.b:0443:+8000''
      = Inr \<lparr>pm_host = Some ''a.b'', pm_public_port = 443, pm_app_port = Some 8000\<rparr>"
    by (simp add: parse_port_mapping_def port_or_error_def parse_u16_def parse_uint_def is_digit_def
        digits_val_def digit_val_def)
  then show ?thesis by (rule port_mapping_roundtrip)
qed

text \<open>
  A port text is accepted exactly when it has one, two or three colon-separated parts and the
  last one (of one part) or two (of two or three) are decimal numbers below 65536.
\<close>

theorem parse_port_mapping_accepts:
  "is_ok (parse_port_mapping s) \<longleftrightarrow>
     (let ps = split_on (CHR '':'') s; nums = (if length ps = 3 then tl ps else ps) in
      length ps \<le> 3 \<and> (\<forall>x \<in> set nums. parse_uint 16 x \<noteq> None))"
proof -
  have num: "port_or_error x = (case parse_uint 16 x of Some n \<Rightarrow> Inr (of_nat n) | None \<Rightarrow> Inl (''invalid port: '' @ x))" for x
    by (simp add: port_or_error_def parse_u16_def split: option.split)
  show ?thesis
    by (auto simp: parse_port_mapping_def Let_def num split: list.split option.split)
qed

section \<open>Export and start: properties\<close>

lemma resolve_configmap_idem:
  "resolve_configmap_volume (resolve_configmap_volume v) = resolve_configmap_volume v"
proof (cases "strip_prefix ''configmap:'' v")
  case (Some rest)
  show ?thesis
  proof (cases "split_once (CHR '':'') rest")
    case (Some p)
    have "strip_prefix ''configmap:'' (configmap_dir @ x) = None" for x
      by (simp add: strip_prefix_def starts_with_def configmap_dir_def)
    then show ?thesis
      using Some \<open>strip_prefix ''configmap:'' v = Some rest\<close>
      by (cases p) (simp add: resolve_configmap_volume_def)
  qed (use Some in \<open>simp add: resolve_configmap_volume_def\<close>)
qed (simp add: resolve_configmap_volume_def)

text \<open>Lists that survive \<open>join(",")\<close>, \<open>split(',')\<close> and \<open>trim\<close>.\<close>

definition comma_safe :: "string list \<Rightarrow> bool" where
  "comma_safe xs \<longleftrightarrow> list_all (\<lambda>x. CHR '','' \<notin> set x \<and> trim x = x) xs"

lemma comma_safe_split: "comma_safe (map trim (split_on (CHR '','') s))"
proof -
  have "CHR '','' \<notin> set (trim x)" if "x \<in> set (split_on (CHR '','') s)" for x
    using split_on_sep [OF that] set_trim_with [of is_ws x] by (auto simp: trim_def)
  then show ?thesis by (simp add: comma_safe_def list_all_iff)
qed

lemma comma_safe_parse: "comma_safe (parse_deny d)" "comma_safe (parse_allow d)"
  by (cases d; simp add: parse_deny_def parse_allow_def comma_safe_split; simp add: comma_safe_def)+

lemma split_comma_safe:
  assumes "comma_safe xs" and "xs \<noteq> []"
  shows "map trim (split_on (CHR '','') (join_with '','' xs)) = xs"
proof -
  have "split_on (CHR '','') (join_with '','' xs) = xs"
    using assms by (intro split_join) (auto simp: comma_safe_def list_all_iff)
  with assms(1) show ?thesis by (simp add: comma_safe_def list_all_iff map_idI)
qed

text \<open>
  A configuration as \<open>nyrun start\<close> and \<open>nyrun run\<close> make them: what \<open>export\<close> prints for it says the
  same again. The last condition is the law of shlex for the arguments at hand.
\<close>

definition exportable :: "'e xt \<Rightarrow> process_config \<Rightarrow> bool" where
  "exportable X c \<longleftrightarrow>
     (case pc_oci_reference c of
        Some r \<Rightarrow> pc_is_oci c \<and> pc_path c = r \<and> is_oci_reference r \<and> has_registry r
      | None \<Rightarrow> \<not> pc_is_oci c \<and> \<not> is_oci_reference (pc_path c))
     \<and> (pc_mode c = Run \<longleftrightarrow> pc_port_mapping c \<noteq> None)
     \<and> (\<forall>pm. pc_port_mapping c = Some pm \<longrightarrow> host_ok pm \<and> port_norm pm = pm)
     \<and> comma_safe (pc_deny c) \<and> comma_safe (pc_allow c)
     \<and> resolve_configmap_volumes (pc_volumes c) = pc_volumes c
     \<and> pc_env_file c = None
     \<and> (pc_args c \<noteq> [] \<longrightarrow>
          (\<exists>s. x_shlex_join X (pc_args c) = Some s \<and> x_shlex_split X s = Some (pc_args c)))"

lemma exportable_roundtrip:
  assumes "exportable X c"
  shows "manifest_to_config X fs (config_to_manifest X c) = Inr c"
proof -
  have mode: "pc_mode c = (if pc_port_mapping c \<noteq> None then Run else Bin)"
    using assms by (cases "pc_mode c") (auto simp: exportable_def)
  have args: "parse_args_string X (ms_args (mf_spec (config_to_manifest X c))) = pc_args c"
    using assms by (auto simp: exportable_def config_to_manifest_def parse_args_string_def)
  have lists: "parse_deny (ms_deny (mf_spec (config_to_manifest X c))) = pc_deny c"
    "parse_allow (ms_allow (mf_spec (config_to_manifest X c))) = pc_allow c"
    using assms split_comma_safe
    by (auto simp: exportable_def config_to_manifest_def parse_deny_def parse_allow_def)
  have env: "manifest_env fs (mf_spec (config_to_manifest X c)) = Inr (pc_env_vars c)"
    using assms by (auto simp: exportable_def config_to_manifest_def manifest_env_def)
  have ssl: "manifest_ssl (ms_ssl (mf_spec (config_to_manifest X c))) = pc_ssl c"
    by (cases "pc_ssl c") (simp_all add: config_to_manifest_def manifest_ssl_def)
  have port: "(case ms_port (mf_spec (config_to_manifest X c)) of
       Some p \<Rightarrow> andThen (parse_port_mapping p) (\<lambda>pm. Inr (Some pm)) | None \<Rightarrow> Inr None) = Inr (pc_port_mapping c)"
    using assms parse_port_string
    by (cases "pc_port_mapping c") (auto simp: exportable_def config_to_manifest_def)
  have path: "ms_path (mf_spec (config_to_manifest X c)) = pc_path c"
    and oci: "pc_is_oci c = is_oci_reference (pc_path c)"
    and ref: "pc_oci_reference c = (if is_oci_reference (pc_path c) then Some (pc_path c) else None)"
    and norm: "is_oci_reference (pc_path c) \<Longrightarrow> normalize_reference X fs (pc_path c) = pc_path c"
    using assms
    by (cases "pc_oci_reference c"; auto simp: exportable_def config_to_manifest_def normalize_reference_def)+
  have vols: "resolve_configmap_volumes (ms_volumes (mf_spec (config_to_manifest X c))) = pc_volumes c"
    using assms by (simp add: exportable_def config_to_manifest_def)
  have "manifest_to_config X fs (config_to_manifest X c) =
      Inr (c\<lparr>pc_mode := (if pc_port_mapping c \<noteq> None then Run else Bin), pc_is_oci := is_oci_reference (pc_path c),
           pc_oci_reference := (if is_oci_reference (pc_path c) then Some (pc_path c) else None)\<rparr>)"
    unfolding manifest_to_config_def Let_def env port path andThen_simps args lists ssl vols
    using norm by (simp add: config_to_manifest_def)
  also have "\<dots> = Inr c"
    by (rule arg_cong [of _ _ Inr], rule process_config.equality) (simp_all add: mode oci ref)
  finally show ?thesis .
qed

text \<open>A default registry that makes a complete reference of a short one.\<close>

definition registry_ok :: "string \<Rightarrow> bool" where
  "registry_ok reg \<longleftrightarrow> is_oci_reference (reg @ ''/'') \<and> has_registry (reg @ ''/'')"

lemma registry_ok_reference:
  assumes "registry_ok reg"
  shows "is_oci_reference (reg @ CHR ''/'' # b) \<and> has_registry (reg @ CHR ''/'' # b)"
proof -
  have reg: "has_registry (reg @ CHR ''/'' # b)"
    using assms has_registry_slash [of reg "[]"] has_registry_slash [of reg b] by (simp add: registry_ok_def)
  have "starts_with p (reg @ CHR ''/'' # b) \<Longrightarrow> starts_with p (reg @ ''/'')"
    if "p \<in> {''/'', ''./'', ''../''}" for p
    using that by (cases reg; cases "tl reg"; cases "tl (tl reg)") (auto simp: starts_with_def)
  with assms have "\<not> starts_with ''/'' (reg @ CHR ''/'' # b)" "\<not> starts_with ''./'' (reg @ CHR ''/'' # b)"
    "\<not> starts_with ''../'' (reg @ CHR ''/'' # b)"
    by (auto simp: registry_ok_def is_oci_reference_def split: if_splits)
  with reg show ?thesis by (simp add: is_oci_reference_def)
qed

lemma normalize_is_reference:
  assumes "is_oci_reference r" and "registry_ok (load_default_registry X fs)"
  shows "is_oci_reference (normalize_reference X fs r) \<and> has_registry (normalize_reference X fs r)"
proof -
  note reg = registry_ok_reference [OF assms(2)]
  show ?thesis
    using assms(1) reg [of "''library/'' @ r"] reg [of r]
    by (cases "load_default_registry X fs = ''docker.io''") (simp_all add: normalize_reference_def Let_def)
qed

lemma manifest_exportable:
  assumes c: "manifest_to_config X fs m = Inr c"
    and "registry_ok (load_default_registry X fs)" and "ms_env_file (mf_spec m) = None"
    and "pc_args c \<noteq> [] \<longrightarrow> (\<exists>s. x_shlex_join X (pc_args c) = Some s \<and> x_shlex_split X s = Some (pc_args c))"
  shows "exportable X c"
proof -
  have port: "host_ok pm \<and> port_norm pm = pm" if "pc_port_mapping c = Some pm" for pm
    using c that parse_port_mapping_norm
    by (auto simp: manifest_to_config_def Let_def andThen_Inr split: option.splits)
  have "comma_safe (pc_deny c)" "comma_safe (pc_allow c)"
    and "resolve_configmap_volumes (pc_volumes c) = pc_volumes c"
    and "pc_env_file c = None" and "pc_mode c = Run \<longleftrightarrow> pc_port_mapping c \<noteq> None"
    using c assms(3)
    by (auto simp: manifest_to_config_def Let_def andThen_Inr comma_safe_parse resolve_configmap_volumes_def
        resolve_configmap_idem split: if_splits)
  moreover have "case pc_oci_reference c of
        Some r \<Rightarrow> pc_is_oci c \<and> pc_path c = r \<and> is_oci_reference r \<and> has_registry r
      | None \<Rightarrow> \<not> pc_is_oci c \<and> \<not> is_oci_reference (pc_path c)"
    using c normalize_is_reference [OF _ assms(2), of "ms_path (mf_spec m)"]
    by (auto simp: manifest_to_config_def Let_def andThen_Inr split: if_splits)
  ultimately show ?thesis using port assms(4) by (simp add: exportable_def)
qed

text \<open>
  A configuration that \<open>nyrun start\<close> reads from a manifest is exported to a manifest that reads
  back as the same configuration, for a manifest without an environment file, a well-formed
  default registry and arguments that shlex quotes and splits back.
\<close>

theorem start_export_start:
  assumes "manifest_to_config X fs m = Inr c"
    and "registry_ok (load_default_registry X fs)" and "ms_env_file (mf_spec m) = None"
    and "pc_args c \<noteq> [] \<longrightarrow> (\<exists>s. x_shlex_join X (pc_args c) = Some s \<and> x_shlex_split X s = Some (pc_args c))"
  shows "manifest_to_config X fs (config_to_manifest X c) = Inr c"
  using manifest_exportable [OF assms] by (rule exportable_roundtrip)

definition sample_manifest :: process_manifest where
  "sample_manifest = \<lparr>mf_kind = ''Process'', mf_name = ''web'', mf_spec = \<lparr>ms_path = ''nginx:1'',
     ms_port = Some ''80'', ms_args = Some ''-g x'', ms_env_file = None, ms_env = Some [(''A'', ''1'')],
     ms_spa = False, ms_ssl = Some [''c'', ''k''], ms_acme = None, ms_deny = Some ''net, io'',
     ms_allow = None, ms_pid_file = None, ms_volumes = [''configmap:cm:/etc'']\<rparr>\<rparr>"

theorem start_export_start_witness:
  "\<exists>c. manifest_to_config sample_xt sample_fs sample_manifest = Inr c \<and>
     manifest_to_config sample_xt sample_fs (config_to_manifest sample_xt c) = Inr c"
proof -
  have port: "parse_port_mapping ''80'' = Inr \<lparr>pm_host = None, pm_public_port = 80, pm_app_port = None\<rparr>"
    by (simp add: parse_port_mapping_def port_or_error_def parse_u16_def parse_uint_def is_digit_def
        digits_val_def digit_val_def)
  have args: "parse_args_string sample_xt (Some ''-g x'') = [''-g'', ''x'']"
    by (simp add: parse_args_string_def sample_xt_def)
  obtain c where c: "manifest_to_config sample_xt sample_fs sample_manifest = Inr c"
    and a: "pc_args c = [''-g'', ''x'']"
    by (simp add: manifest_to_config_def sample_manifest_def Let_def manifest_env_def port args)
  have reg: "registry_ok (load_default_registry sample_xt sample_fs)"
    by code_simp
  have "x_shlex_join sample_xt (pc_args c) = Some ''-g x''" "x_shlex_split sample_xt ''-g x'' = Some (pc_args c)"
    by (simp_all add: sample_xt_def a)
  then have "manifest_to_config sample_xt sample_fs (config_to_manifest sample_xt c) = Inr c"
    using c reg by (intro start_export_start) (auto simp: sample_manifest_def)
  with c show ?thesis by blast
qed

end
