(* ===== verification/Tls.thy ===== *)
theory Tls
  imports World
begin

text \<open>
  \<open>src/tls.rs\<close>: the certificate store shared by the proxy manager, the ACME client and the TLS
  accept callback, and the choice of a certificate for a server name. OpenSSL's parsers are
  external; a certificate is kept as the text it was parsed from.
\<close>

record tls_certificate =
  tc_cert :: string
  tc_key :: string
  tc_chain :: "string list"

record cert_store =
  cs_certs :: "(string, tls_certificate) hmap"
  cs_default :: "tls_certificate option"

definition cert_store_new :: cert_store where
  "cert_store_new = \<lparr>cs_certs = [], cs_default = None\<rparr>"

text \<open>The name \<open>default\<close> stands for the fallback certificate.\<close>

definition store_cert :: "string \<Rightarrow> tls_certificate \<Rightarrow> cert_store \<Rightarrow> cert_store" where
  "store_cert hostname c cs =
     (if hostname = ''default'' then cs\<lparr>cs_default := Some c\<rparr>
      else cs\<lparr>cs_certs := hm_insert hostname c (cs_certs cs)\<rparr>)"

definition add_cert :: "'e xt \<Rightarrow> fsys \<Rightarrow> string \<Rightarrow> string \<Rightarrow> string \<Rightarrow> (cert_store, unit) act" where
  "add_cert X fs hostname cert_path key_path cs =
     (case fst (fs_read cert_path fs) of
        Inl e \<Rightarrow> (Inl (''failed to read cert '' @ cert_path @ '': '' @ e), cs)
      | Inr cert_pem \<Rightarrow>
     (case fst (fs_read key_path fs) of
        Inl e \<Rightarrow> (Inl (''failed to read key '' @ key_path @ '': '' @ e), cs)
      | Inr key_pem \<Rightarrow>
     (case x_parse_cert X cert_pem of
        Some e \<Rightarrow> (Inl (''failed to parse cert: '' @ e), cs)
      | None \<Rightarrow>
     (case x_parse_key X key_pem of
        Some e \<Rightarrow> (Inl (''failed to parse key: '' @ e), cs)
      | None \<Rightarrow> (Inr (), store_cert hostname \<lparr>tc_cert = cert_pem, tc_key = key_pem, tc_chain = []\<rparr> cs)))))"

definition add_cert_from_pem :: "'e xt \<Rightarrow> string \<Rightarrow> string \<Rightarrow> string \<Rightarrow> (cert_store, unit) act" where
  "add_cert_from_pem X hostname cert_pem key_pem cs =
     (case x_parse_chain X cert_pem of
        Inl e \<Rightarrow> (Inl (''failed to parse cert chain: '' @ e), cs)
      | Inr certs \<Rightarrow>
     (case x_parse_key X key_pem of
        Some e \<Rightarrow> (Inl (''failed to parse key: '' @ e), cs)
      | None \<Rightarrow>
     (case certs of
        [] \<Rightarrow> (Inl ''empty certificate chain'', cs)
      | c # chain \<Rightarrow> (Inr (), store_cert hostname \<lparr>tc_cert = c, tc_key = key_pem, tc_chain = chain\<rparr> cs))))"

definition remove_cert :: "string \<Rightarrow> cert_store \<Rightarrow> cert_store" where
  "remove_cert hostname cs =
     (if hostname = ''default'' then cs\<lparr>cs_default := None\<rparr>
      else cs\<lparr>cs_certs := hm_remove hostname (cs_certs cs)\<rparr>)"

text \<open>The accept callback: the certificate of the requested name, else the default one, else none.\<close>

definition certificate_callback :: "string option \<Rightarrow> cert_store \<Rightarrow> tls_certificate option" where
  "certificate_callback sni cs =
     (let server_name = (case sni of Some n \<Rightarrow> n | None \<Rightarrow> ''localhost'') in
      case hm_get (cs_certs cs) server_name of
        Some c \<Rightarrow> Some c
      | None \<Rightarrow> cs_default cs)"

text \<open>The store as a map from names to certificates, the default among them: a keyed store.\<close>

definition cert_get :: "cert_store \<Rightarrow> string \<Rightarrow> tls_certificate option" where
  "cert_get cs h = (if h = ''default'' then cs_default cs else hm_get (cs_certs cs) h)"

interpretation certs: keyed_store cert_get store_cert remove_cert "\<lambda>_. True"
  by unfold_locales
    (auto simp: cert_get_def store_cert_def remove_cert_def fun_eq_iff hm_get_insert hm_get_remove)

lemma add_cert_error: "fst (add_cert X fs h c k cs) = Inl e \<Longrightarrow> snd (add_cert X fs h c k cs) = cs"
  by (auto simp: add_cert_def split: sum.splits option.splits)

definition no_default_name :: "cert_store \<Rightarrow> bool" where
  "no_default_name cs \<longleftrightarrow> hm_get (cs_certs cs) ''default'' = None"

lemma callback_cert_get:
  assumes "no_default_name cs"
  shows "certificate_callback (Some n) cs =
    (case (if n = ''default'' then None else cert_get cs n) of Some c \<Rightarrow> Some c | None \<Rightarrow> cert_get cs ''default'')"
  using assms by (simp add: certificate_callback_def cert_get_def no_default_name_def split: option.split)

lemma store_no_default [simp]: "no_default_name cs \<Longrightarrow> no_default_name (store_cert h c cs)"
  by (simp add: no_default_name_def store_cert_def hm_get_insert)

text \<open>
  C33: After a certificate is installed from files for a host, a client that asks for that host gets
  it, a client that asks for another host gets what it got before, and the default certificate
  changes only for the host \<open>default\<close>.
\<close>

theorem add_cert_selected:
  assumes "add_cert X fs h cp kp cs = (Inr (), cs')" and "h \<noteq> ''default''" and "no_default_name cs"
  shows "\<exists>c. fs_content fs cp = Some (tc_cert c) \<and> fs_content fs kp = Some (tc_key c) \<and>
    certificate_callback (Some h) cs' = Some c \<and>
    (\<forall>n. n \<noteq> h \<longrightarrow> certificate_callback (Some n) cs' = certificate_callback (Some n) cs)"
proof -
  obtain c k where cp: "fst (fs_read cp fs) = Inr c" and kp: "fst (fs_read kp fs) = Inr k"
    and cs': "cs' = store_cert h \<lparr>tc_cert = c, tc_key = k, tc_chain = []\<rparr> cs"
    using assms(1) by (auto simp: add_cert_def split: sum.splits option.splits)
  have content: "fst (fs_read p fs) = Inr d \<Longrightarrow> fs_content fs p = Some d" for p d
    by (auto simp: fs_read_def guarded_def fs_content_def split: option.splits node.splits)
  show ?thesis
  proof (intro exI conjI)
    show "certificate_callback (Some h) cs' = Some \<lparr>tc_cert = c, tc_key = k, tc_chain = []\<rparr>"
      using assms(2,3) by (simp add: cs' callback_cert_get certs.get_put)
    show "\<forall>n. n \<noteq> h \<longrightarrow> certificate_callback (Some n) cs' = certificate_callback (Some n) cs"
      using assms(2,3) by (auto simp: cs' callback_cert_get certs.get_put split: option.split)
  qed (simp_all add: content cp kp)
qed

definition cert_fs :: fsys where
  "cert_fs = sample_fs\<lparr>fs_tree := [([''home''], Dir), ([''home'', ''c''], File 1), ([''home'', ''k''], File 2)],
     fs_data := (\<lambda>i. if i = 1 then ''CERT'' else ''KEY'')\<rparr>"

theorem add_cert_selected_witness:
  "certificate_callback (Some ''a.b'') (snd (add_cert sample_xt cert_fs ''a.b'' ''c'' ''k'' cert_store_new))
   = Some \<lparr>tc_cert = ''CERT'', tc_key = ''KEY'', tc_chain = []\<rparr>"
proof -
  have run: "add_cert sample_xt cert_fs ''a.b'' ''c'' ''k'' cert_store_new =
     (Inr (), store_cert ''a.b'' \<lparr>tc_cert = ''CERT'', tc_key = ''KEY'', tc_chain = []\<rparr> cert_store_new)"
    by code_simp
  have "no_default_name cert_store_new" by (simp add: no_default_name_def cert_store_new_def)
  from add_cert_selected [OF run _ this] have
    "\<exists>c. certificate_callback (Some ''a.b'') (snd (add_cert sample_xt cert_fs ''a.b'' ''c'' ''k'' cert_store_new)) = Some c"
    unfolding run by auto
  moreover have "certificate_callback (Some ''a.b'') (snd (add_cert sample_xt cert_fs ''a.b'' ''c'' ''k'' cert_store_new))
      = Some \<lparr>tc_cert = ''CERT'', tc_key = ''KEY'', tc_chain = []\<rparr>"
    unfolding run by code_simp
  ultimately show ?thesis by simp
qed

end
