(* ===== verification/Proxy.thy ===== *)
theory Proxy
  imports Tls
begin

text \<open>
  \<open>src/proxy.rs\<close>, the route table and the proxy manager: which backend a request on a port with a
  host goes to, how routes are added and removed, which ports are listened on and which are
  dead, and which Pingora servers have been started with which ports and which cache. A cache
  is a handle; a server keeps the handle it was started with.
\<close>

section \<open>Routes\<close>

record socket_addr =
  sa_ip :: string
  sa_port :: u16

datatype backend = BProxy socket_addr | BSpa string

record route_entry =
  re_name :: string
  re_port :: u16
  re_host :: "string option"
  re_backend :: backend

definition find_route :: "route_entry list \<Rightarrow> u16 \<Rightarrow> string option \<Rightarrow> route_entry option" where
  "find_route entries port host =
     (let port_routes = filter (\<lambda>r. re_port r = port) entries in
      case (case host of
              Some h \<Rightarrow> List.find (\<lambda>r. re_host r = Some h) port_routes
            | None \<Rightarrow> None) of
        Some r \<Rightarrow> Some r
      | None \<Rightarrow> List.find (\<lambda>r. re_host r = None) port_routes)"

section \<open>The manager\<close>

record server_thread =
  sv_ports :: "u16 list"
  sv_tls_ports :: "u16 set"
  sv_cache :: nat

record proxy_manager =
  px_routes :: "route_entry list"
  px_cache :: nat
  px_cache_ttls :: "nat \<Rightarrow> u64"
  px_next_cache :: nat
  px_cache_ttl_secs :: u64
  px_ports :: "u16 list"
  px_tls_ports :: "u16 set"
  px_certs :: cert_store
  px_dead :: "u16 set"
  px_servers :: "server_thread list"

definition default_cache_ttl_secs :: u64 where
  "default_cache_ttl_secs = 3"

definition proxy_new :: proxy_manager where
  "proxy_new = \<lparr>px_routes = [], px_cache = 0, px_cache_ttls = (\<lambda>_. default_cache_ttl_secs),
     px_next_cache = 1, px_cache_ttl_secs = default_cache_ttl_secs, px_ports = [], px_tls_ports = {},
     px_certs = cert_store_new, px_dead = {}, px_servers = []\<rparr>"

text \<open>A new cache with the given time to live replaces the manager's handle.\<close>

definition set_cache_ttl :: "u64 \<Rightarrow> proxy_manager \<Rightarrow> proxy_manager" where
  "set_cache_ttl secs px = px\<lparr>px_cache_ttl_secs := secs, px_cache := px_next_cache px,
     px_cache_ttls := (px_cache_ttls px)(px_next_cache px := secs), px_next_cache := Suc (px_next_cache px)\<rparr>"

definition put_route :: "route_entry \<Rightarrow> proxy_manager \<Rightarrow> proxy_manager" where
  "put_route r px = px\<lparr>px_routes := filter (\<lambda>q. re_name q \<noteq> re_name r) (px_routes px) @ [r]\<rparr>"

text \<open>Install the certificate if one is given; an error leaves the rest of the function undone.\<close>

definition install_cert ::
  "'e xt \<Rightarrow> fsys \<Rightarrow> u16 \<Rightarrow> string option \<Rightarrow> (string \<times> string) option \<Rightarrow> (proxy_manager, unit) act" where
  "install_cert X fs port host ssl px =
     (case ssl of
        None \<Rightarrow> (Inr (), px)
      | Some (cert_path, key_path) \<Rightarrow>
          (let sni_host = (case host of Some h \<Rightarrow> h | None \<Rightarrow> ''default'') in
           case add_cert X fs sni_host cert_path key_path (px_certs px) of
             (Inl e, cs) \<Rightarrow> (Inl e, px\<lparr>px_certs := cs\<rparr>)
           | (Inr _, cs) \<Rightarrow> (Inr (), px\<lparr>px_certs := cs, px_tls_ports := insert port (px_tls_ports px)\<rparr>)))"

text \<open>Revive the port, and start a server with all ports when the port is new.\<close>

definition open_port :: "u16 \<Rightarrow> proxy_manager \<Rightarrow> proxy_manager" where
  "open_port port px =
     (let px1 = px\<lparr>px_dead := px_dead px - {port}\<rparr> in
      if port \<in> set (px_ports px1) then px1
      else (let ports = px_ports px1 @ [port] in
            px1\<lparr>px_ports := ports,
                px_servers := px_servers px1 @ [\<lparr>sv_ports = ports, sv_tls_ports = px_tls_ports px1, sv_cache = px_cache px1\<rparr>]\<rparr>))"

definition add_route_with_tls ::
  "'e xt \<Rightarrow> fsys \<Rightarrow> string \<Rightarrow> u16 \<Rightarrow> string option \<Rightarrow> backend \<Rightarrow> (string \<times> string) option \<Rightarrow> (proxy_manager, unit) act" where
  "add_route_with_tls X fs name port host backend ssl =
     bindA (modify (put_route \<lparr>re_name = name, re_port = port, re_host = host, re_backend = backend\<rparr>)) (\<lambda>_.
     bindA (install_cert X fs port host ssl) (\<lambda>_.
     modify (open_port port)))"

definition add_route ::
  "'e xt \<Rightarrow> fsys \<Rightarrow> string \<Rightarrow> u16 \<Rightarrow> string option \<Rightarrow> backend \<Rightarrow> (proxy_manager, unit) act" where
  "add_route X fs name port host backend = add_route_with_tls X fs name port host backend None"

text \<open>A port is closed when no remaining route uses it.\<close>

definition close_port :: "u16 \<Rightarrow> proxy_manager \<Rightarrow> proxy_manager" where
  "close_port port px =
     (if list_ex (\<lambda>r. re_port r = port) (px_routes px) then px
      else px\<lparr>px_ports := filter (\<lambda>p. p \<noteq> port) (px_ports px), px_dead := insert port (px_dead px)\<rparr>)"

definition remove_routes :: "string \<Rightarrow> proxy_manager \<Rightarrow> proxy_manager" where
  "remove_routes name px =
     (let removed_ports = remdups (map re_port (filter (\<lambda>r. re_name r = name) (px_routes px))) in
      fold close_port removed_ports (px\<lparr>px_routes := filter (\<lambda>r. re_name r \<noteq> name) (px_routes px)\<rparr>))"

text \<open>The listeners a server opens: TLS for the ports marked at its start, plain TCP for the others.\<close>

datatype listener = Tcp u16 | TlsOn u16

definition server_listeners :: "bool \<Rightarrow> server_thread \<Rightarrow> listener list" where
  "server_listeners tls_settings_ok sv =
     map (\<lambda>p. if p \<in> sv_tls_ports sv \<and> tls_settings_ok then TlsOn p else Tcp p) (sv_ports sv)"

section \<open>Routing: properties\<close>

lemma find_route_None_host: "find_route es p None = List.find (\<lambda>r. re_port r = p \<and> re_host r = None) es"
  by (induction es) (auto simp: find_route_def)

lemma find_filter: "List.find P (filter Q xs) = List.find (\<lambda>x. Q x \<and> P x) xs"
  by (induction xs) auto

lemma find_route_Some_host:
  "find_route es p (Some h) =
     (case List.find (\<lambda>r. re_port r = p \<and> re_host r = Some h) es of
        Some r \<Rightarrow> Some r | None \<Rightarrow> List.find (\<lambda>r. re_port r = p \<and> re_host r = None) es)"
  by (simp add: find_route_def find_filter split: option.split)

lemma find_Some_in: "List.find P xs = Some x \<Longrightarrow> x \<in> set xs \<and> P x"
  by (induction xs) (auto split: if_splits)

lemma find_append: "List.find P (xs @ ys) = (case List.find P xs of Some x \<Rightarrow> Some x | None \<Rightarrow> List.find P ys)"
  by (induction xs) auto

lemma find_filter_keep: "List.find P xs = Some x \<Longrightarrow> Q x \<Longrightarrow> List.find P (filter Q xs) = Some x"
  by (induction xs) (auto split: if_splits)

lemma find_filter_None: "List.find P xs = None \<Longrightarrow> List.find P (filter Q xs) = None"
  by (auto simp: find_None_iff)

text \<open>
  C4: The route of a request is one of the table's entries on the port, with the request's host, or
  else a catch-all entry when no entry on the port has that host; there is a route exactly
  when such an entry exists.
\<close>

theorem find_route_spec:
  "(find_route es p h = None \<longleftrightarrow> (\<forall>r. r \<in> set es \<longrightarrow> re_port r = p \<longrightarrow> re_host r \<noteq> None \<and> re_host r \<noteq> h)) \<and>
   (\<forall>r. find_route es p h = Some r \<longrightarrow>
      r \<in> set es \<and> re_port r = p \<and>
      (re_host r = h \<or> re_host r = None \<and> (\<forall>q. q \<in> set es \<longrightarrow> re_port q = p \<longrightarrow> re_host q \<noteq> h)))"
proof (cases h)
  case None
  then show ?thesis
    by (auto simp: find_route_None_host find_None_iff dest: find_Some_in)
next
  case (Some x)
  show ?thesis
    unfolding Some find_route_Some_host
    by (auto simp: find_None_iff dest!: find_Some_in split: option.split)
qed

subsection \<open>The interface: what adding and removing do to the table\<close>

locale routing =
  fixes entries :: "'s \<Rightarrow> route_entry list"
    and add :: "route_entry \<Rightarrow> 's \<Rightarrow> 's"
    and del :: "string \<Rightarrow> 's \<Rightarrow> 's"
  assumes entries_add: "entries (add r s) = filter (\<lambda>q. re_name q \<noteq> re_name r) (entries s) @ [r]"
    and entries_del: "entries (del n s) = filter (\<lambda>q. re_name q \<noteq> n) (entries s)"
begin

definition names_distinct :: "'s \<Rightarrow> bool" where
  "names_distinct s \<longleftrightarrow> distinct (map re_name (entries s))"

lemma distinct_filter_names: "distinct (map re_name es) \<Longrightarrow> distinct (map re_name (filter P es))"
  by (simp add: distinct_map_filter)

lemma names_distinct_add: "names_distinct s \<Longrightarrow> names_distinct (add r s)"
  by (auto simp: names_distinct_def entries_add distinct_filter_names)

lemma names_distinct_del: "names_distinct s \<Longrightarrow> names_distinct (del n s)"
  by (simp add: names_distinct_def entries_del distinct_filter_names)

lemma del_other:
  "find_route (entries s) p h = Some r \<Longrightarrow> re_name r \<noteq> n \<Longrightarrow> find_route (entries (del n s)) p h = Some r"
  by (cases h)
    (auto simp: entries_del find_route_None_host find_route_Some_host find_filter_None find_filter_keep
      split: option.splits)

lemma del_gone: "find_route (entries (del n s)) p h = Some r \<Longrightarrow> re_name r \<noteq> n"
  using find_route_spec [of "entries (del n s)" p h] by (auto simp: entries_del)

lemma add_other:
  assumes "find_route (entries s) p h = Some q" and "re_name q \<noteq> re_name r"
    and "re_host q = h \<or> re_port r \<noteq> p \<or> re_host r \<noteq> h"
  shows "find_route (entries (add r s)) p h = Some q"
proof (cases h)
  case None
  then show ?thesis
    using assms by (simp add: entries_add find_route_None_host find_append find_filter_keep)
next
  case (Some x)
  show ?thesis
  proof (cases "List.find (\<lambda>r. re_port r = p \<and> re_host r = Some x) (entries s)")
    case None
    then have "re_host q \<noteq> h"
      using assms(1) Some by (auto simp: find_route_Some_host dest: find_Some_in)
    then show ?thesis
      using assms Some None
      by (auto simp: entries_add find_route_Some_host find_append find_filter_None find_filter_keep)
  next
    case (Some r')
    then show ?thesis
      using assms \<open>h = Some x\<close>
      by (simp add: entries_add find_route_Some_host find_append find_filter_keep)
  qed
qed

lemma add_found:
  assumes "\<And>q. q \<in> set (entries s) \<Longrightarrow> re_port q = re_port r \<Longrightarrow> re_host q = re_host r \<Longrightarrow> re_name q = re_name r"
  shows "find_route (entries (add r s)) (re_port r) (re_host r) = Some r"
proof -
  have "List.find (\<lambda>q. re_port q = re_port r \<and> re_host q = re_host r) (filter (\<lambda>q. re_name q \<noteq> re_name r) (entries s)) = None"
    using assms by (auto simp: find_None_iff)
  then show ?thesis
    by (cases "re_host r") (simp_all add: entries_add find_route_None_host find_route_Some_host find_append)
qed

end

lemma close_port_routes [simp]: "px_routes (close_port p px) = px_routes px"
  by (simp add: close_port_def)

lemma fold_close_routes [simp]: "px_routes (fold close_port ps px) = px_routes px"
  by (induction ps arbitrary: px) simp_all

lemma remove_routes_entries: "px_routes (remove_routes n px) = filter (\<lambda>q. re_name q \<noteq> n) (px_routes px)"
  by (simp add: remove_routes_def)

lemma open_port_routes [simp]: "px_routes (open_port p px) = px_routes px"
  by (simp add: open_port_def Let_def)

lemma install_cert_routes [simp]: "px_routes (snd (install_cert X fs p h ssl px)) = px_routes px"
  by (auto simp: install_cert_def Let_def split: option.split prod.split sum.split)

lemma add_route_with_tls_entries:
  "px_routes (snd (add_route_with_tls X fs n p h b ssl px)) =
     filter (\<lambda>q. re_name q \<noteq> n) (px_routes px) @ [\<lparr>re_name = n, re_port = p, re_host = h, re_backend = b\<rparr>]"
  by (simp add: add_route_with_tls_def put_route_def snd_bindA split: sum.split)

definition add_entry :: "'e xt \<Rightarrow> fsys \<Rightarrow> (string \<times> string) option \<Rightarrow> route_entry \<Rightarrow> proxy_manager \<Rightarrow> proxy_manager" where
  "add_entry X fs ssl r px = snd (add_route_with_tls X fs (re_name r) (re_port r) (re_host r) (re_backend r) ssl px)"

interpretation pxr: routing px_routes "add_entry X fs ssl" remove_routes
  by unfold_locales (simp_all add: add_entry_def add_route_with_tls_entries remove_routes_entries)



theorem find_route_spec_witness:
  "re_host (the (find_route
      [\<lparr>re_name = ''b'', re_port = 80, re_host = None, re_backend = BSpa ''e''\<rparr>,
       \<lparr>re_name = ''a'', re_port = 80, re_host = Some ''x'', re_backend = BSpa ''d''\<rparr>] 80 (Some ''x''))) = Some ''x''"
proof -
  let ?es = "[\<lparr>re_name = ''b'', re_port = 80, re_host = None, re_backend = BSpa ''e''\<rparr>,
       \<lparr>re_name = ''a'', re_port = 80, re_host = Some ''x'', re_backend = BSpa ''d''\<rparr>] :: route_entry list"
  obtain r where r: "find_route ?es 80 (Some ''x'') = Some r" by (simp add: find_route_def)
  from find_route_spec [of ?es 80 "Some ''x''"] r have
    "re_host r = Some ''x'' \<or> (\<forall>q. q \<in> set ?es \<longrightarrow> re_port q = 80 \<longrightarrow> re_host q \<noteq> Some ''x'')" by blast
  then have "re_host r = Some ''x''" by auto
  with r show ?thesis by simp
qed

text \<open>
  Adding a route never takes a request away from an application that has a route for exactly the
  request's port and host, nor any request on another port or for another host; and when no
  other application has the new route's port and host, requests for them reach the new route.
\<close>

theorem add_route_isolation:
  "(\<forall>p h q. find_route (px_routes px) p h = Some q \<longrightarrow> re_name q \<noteq> n \<longrightarrow>
      re_host q = h \<or> port \<noteq> p \<or> host \<noteq> h \<longrightarrow>
      find_route (px_routes (snd (add_route_with_tls X fs n port host b ssl px))) p h = Some q) \<and>
   ((\<forall>q. q \<in> set (px_routes px) \<longrightarrow> re_port q = port \<longrightarrow> re_host q = host \<longrightarrow> re_name q = n) \<longrightarrow>
      find_route (px_routes (snd (add_route_with_tls X fs n port host b ssl px))) port host =
        Some \<lparr>re_name = n, re_port = port, re_host = host, re_backend = b\<rparr>)"
proof -
  let ?r = "\<lparr>re_name = n, re_port = port, re_host = host, re_backend = b\<rparr>"
  have "snd (add_route_with_tls X fs n port host b ssl px) = add_entry X fs ssl ?r px"
    by (simp add: add_entry_def)
  then show ?thesis
    using pxr.add_other [of px _ _ _ ?r X fs ssl] pxr.add_found [of px ?r X fs ssl] by (simp; blast)
qed

theorem add_route_isolation_witness:
  "find_route (px_routes (snd (add_route_with_tls sample_xt sample_fs ''n'' 80 (Some ''x'') (BSpa ''d'') None proxy_new))) 80 (Some ''x'')
   = Some \<lparr>re_name = ''n'', re_port = 80, re_host = Some ''x'', re_backend = BSpa ''d''\<rparr>"
  by (rule add_route_isolation [THEN conjunct2, rule_format]) (simp add: proxy_new_def)

section \<open>Ports: properties\<close>

definition px_inv :: "proxy_manager \<Rightarrow> bool" where
  "px_inv px \<longleftrightarrow>
     distinct (px_ports px) \<and> set (px_ports px) \<inter> px_dead px = {} \<and>
     distinct (map re_name (px_routes px)) \<and>
     (\<forall>p \<in> set (px_ports px). \<exists>sv \<in> set (px_servers px). p \<in> set (sv_ports sv)) \<and>
     px_cache px < px_next_cache px \<and> (\<forall>sv \<in> set (px_servers px). sv_cache sv < px_next_cache px)"

text \<open>Every route's port is listened on.\<close>

definition px_served :: "proxy_manager \<Rightarrow> bool" where
  "px_served px \<longleftrightarrow> (\<forall>r \<in> set (px_routes px). re_port r \<in> set (px_ports px))"

lemma px_inv_new: "px_inv proxy_new" "px_served proxy_new"
  by (simp_all add: px_inv_def px_served_def proxy_new_def)

lemma px_inv_put: "px_inv px \<Longrightarrow> px_inv (put_route r px)"
  by (auto simp: px_inv_def put_route_def distinct_map_filter)

lemma px_inv_install: "px_inv px \<Longrightarrow> px_inv (snd (install_cert X fs p h ssl px))"
  by (auto simp: px_inv_def install_cert_def Let_def split: option.split prod.split sum.split)

lemma px_inv_open: "px_inv px \<Longrightarrow> px_inv (open_port p px)"
  by (auto simp: px_inv_def open_port_def Let_def)

lemma px_inv_close: "px_inv px \<Longrightarrow> px_inv (close_port p px)"
  by (auto simp: px_inv_def close_port_def)

lemma px_inv_set_cache: "px_inv px \<Longrightarrow> px_inv (set_cache_ttl s px)"
  by (auto simp: px_inv_def set_cache_ttl_def less_Suc_eq)

lemma px_inv_add: "px_inv px \<Longrightarrow> px_inv (snd (add_route_with_tls X fs n p h b ssl px))"
  by (simp add: add_route_with_tls_def snd_bindA px_inv_put px_inv_install px_inv_open split: sum.split)

lemma px_inv_remove: "px_inv px \<Longrightarrow> px_inv (remove_routes n px)"
proof -
  assume inv: "px_inv px"
  have "px_inv (px\<lparr>px_routes := filter (\<lambda>r. re_name r \<noteq> n) (px_routes px)\<rparr>)"
    using inv by (auto simp: px_inv_def distinct_map_filter)
  moreover have "px_inv q \<Longrightarrow> px_inv (fold close_port ps q)" for ps q
    by (induction ps arbitrary: q) (simp_all add: px_inv_close)
  ultimately show ?thesis by (simp add: remove_routes_def)
qed

lemma fold_close_ports:
  "set (px_ports (fold close_port ps px)) = set (px_ports px) - {p \<in> set ps. \<forall>r \<in> set (px_routes px). re_port r \<noteq> p}"
proof (induction ps arbitrary: px)
  case (Cons a ps)
  show ?case by (simp add: Cons) (auto simp: close_port_def list_ex_iff)
qed simp

lemma fold_close_dead:
  "px_dead (fold close_port ps px) = px_dead px \<union> {p \<in> set ps. \<forall>r \<in> set (px_routes px). re_port r \<noteq> p}"
proof (induction ps arbitrary: px)
  case (Cons a ps)
  show ?case by (simp add: Cons) (auto simp: close_port_def list_ex_iff)
qed simp

lemma px_served_remove: "px_served px \<Longrightarrow> px_served (remove_routes n px)"
  by (auto simp: px_served_def remove_routes_def Let_def fold_close_ports)

lemma px_served_add:
  assumes "px_served px" and "fst (add_route_with_tls X fs n p h b ssl px) = Inr ()"
  shows "px_served (snd (add_route_with_tls X fs n p h b ssl px))"
proof -
  let ?px = "put_route \<lparr>re_name = n, re_port = p, re_host = h, re_backend = b\<rparr> px"
  have ok: "fst (install_cert X fs p h ssl ?px) = Inr ()"
    using assms(2) by (auto simp: add_route_with_tls_def fst_bindA split: sum.splits)
  have ports: "px_ports (snd (install_cert X fs p h ssl ?px)) = px_ports px"
    by (auto simp: install_cert_def put_route_def Let_def split: option.split prod.split sum.split)
  have "snd (add_route_with_tls X fs n p h b ssl px) = open_port p (snd (install_cert X fs p h ssl ?px))"
    by (simp add: add_route_with_tls_def snd_bindA ok)
  then show ?thesis
    using assms(1) ports
    by (auto simp: px_served_def open_port_def Let_def put_route_def)
qed

text \<open>
  C29: After the routes of a name are removed, a port is dead if it was dead before or if only that
  name used it; in a state where every route's port is listened on, that stays so, and a dead
  port is never listened on.
\<close>

theorem remove_routes_ports:
  assumes "px_inv px" and "px_served px"
  shows "px_dead (remove_routes n px) =
      px_dead px \<union> {re_port r |r. r \<in> set (px_routes px) \<and> re_name r = n \<and>
                       (\<forall>q \<in> set (px_routes px). re_name q \<noteq> n \<longrightarrow> re_port q \<noteq> re_port r)} \<and>
    px_served (remove_routes n px) \<and> set (px_ports (remove_routes n px)) \<inter> px_dead (remove_routes n px) = {}"
proof (intro conjI)
  show "px_dead (remove_routes n px) =
      px_dead px \<union> {re_port r |r. r \<in> set (px_routes px) \<and> re_name r = n \<and>
                       (\<forall>q \<in> set (px_routes px). re_name q \<noteq> n \<longrightarrow> re_port q \<noteq> re_port r)}"
    by (auto simp: remove_routes_def Let_def fold_close_dead)
  show "px_served (remove_routes n px)" using assms(2) by (rule px_served_remove)
  show "set (px_ports (remove_routes n px)) \<inter> px_dead (remove_routes n px) = {}"
    using px_inv_remove [OF assms(1)] by (simp add: px_inv_def)
qed

definition two_apps :: proxy_manager where
  "two_apps = snd (add_route sample_xt sample_fs ''b'' 443 None (BSpa ''e'')
     (snd (add_route sample_xt sample_fs ''a'' 80 (Some ''x'') (BSpa ''d'') proxy_new)))"

lemma two_apps_inv: "px_inv two_apps" "px_served two_apps"
proof -
  have ok: "fst (add_route X fs n p h b px) = Inr ()" for X :: "nat xt" and fs n p h b px
    by (simp add: add_route_def add_route_with_tls_def fst_bindA install_cert_def)
  show "px_inv two_apps" by (simp add: two_apps_def add_route_def px_inv_add px_inv_new)
  show "px_served two_apps"
    using ok by (simp add: two_apps_def add_route_def px_served_add px_inv_new)
qed

theorem remove_routes_ports_witness:
  "80 \<in> px_dead (remove_routes ''a'' two_apps) \<and> px_served (remove_routes ''a'' two_apps)"
proof -
  let ?r = "\<lparr>re_name = ''a'', re_port = 80, re_host = Some ''x'', re_backend = BSpa ''d''\<rparr>"
  have routes: "px_routes two_apps = [?r, \<lparr>re_name = ''b'', re_port = 443, re_host = None, re_backend = BSpa ''e''\<rparr>]"
    by (simp add: two_apps_def add_route_def add_route_with_tls_entries proxy_new_def)
  have "re_port ?r \<in> px_dead (remove_routes ''a'' two_apps)"
    unfolding remove_routes_ports [THEN conjunct1, OF two_apps_inv]
    by (rule UnI2, rule CollectI, rule exI [of _ ?r]) (simp add: routes)
  then show ?thesis using remove_routes_ports [OF two_apps_inv, of "''a''"] by simp
qed

section \<open>Errors, certificates and caches: properties\<close>

text \<open>
  When the certificate of a new route cannot be loaded, the call fails but the route stays in
  the table, and its port is neither opened nor revived.
\<close>

theorem add_route_failure_keeps_route:
  assumes "fst (add_route_with_tls X fs n p h b ssl px) = Inl e"
  shows "\<lparr>re_name = n, re_port = p, re_host = h, re_backend = b\<rparr> \<in> set (px_routes (snd (add_route_with_tls X fs n p h b ssl px)))
    \<and> px_ports (snd (add_route_with_tls X fs n p h b ssl px)) = px_ports px
    \<and> px_dead (snd (add_route_with_tls X fs n p h b ssl px)) = px_dead px"
proof -
  let ?px = "put_route \<lparr>re_name = n, re_port = p, re_host = h, re_backend = b\<rparr> px"
  have e: "fst (install_cert X fs p h ssl ?px) = Inl e"
    using assms by (auto simp: add_route_with_tls_def fst_bindA split: sum.splits)
  have "px_ports (snd (install_cert X fs p h ssl ?px)) = px_ports px"
    "px_dead (snd (install_cert X fs p h ssl ?px)) = px_dead px"
    by (auto simp: install_cert_def put_route_def Let_def split: option.split prod.split sum.split)
  then show ?thesis
    by (simp add: add_route_with_tls_def snd_bindA e) (simp add: put_route_def)
qed

theorem add_route_failure_keeps_route_witness:
  "\<not> px_served (snd (add_route_with_tls sample_xt sample_fs ''n'' 443 None (BSpa ''d'') (Some (''c'', ''k'')) proxy_new))"
proof -
  obtain e where "fst (add_route_with_tls sample_xt sample_fs ''n'' 443 None (BSpa ''d'') (Some (''c'', ''k'')) proxy_new) = Inl e"
    by (simp add: add_route_with_tls_def fst_bindA install_cert_def add_cert_def Let_def fs_read_def guarded_def
        sample_fs_def fs_node_def resolve_def components_def is_absolute_def starts_with_def body_comps_def)
  from add_route_failure_keeps_route [OF this] show ?thesis
    by (force simp: px_served_def proxy_new_def)
qed

text \<open>
  A route added without certificate files never makes its port a TLS port: a server started for
  it listens in plain TCP, unless an earlier route on that port came with certificate files.
  A route that relies on ACME alone is added this way.
\<close>

theorem no_files_no_tls:
  assumes "p \<notin> px_tls_ports px" and "p \<notin> set (px_ports px)"
  shows "\<exists>sv. px_servers (snd (add_route_with_tls X fs n p h b None px)) = px_servers px @ [sv] \<and>
    Tcp p \<in> set (server_listeners t sv) \<and> TlsOn p \<notin> set (server_listeners t sv)"
  using assms
  by (auto simp: add_route_with_tls_def snd_bindA install_cert_def open_port_def put_route_def Let_def server_listeners_def)

theorem no_files_no_tls_witness:
  "\<exists>sv. px_servers (snd (add_route_with_tls sample_xt sample_fs ''n'' 443 (Some ''a.b'') (BSpa ''d'') None proxy_new)) = [sv] \<and>
    Tcp 443 \<in> set (server_listeners True sv) \<and> TlsOn 443 \<notin> set (server_listeners True sv)"
  using no_files_no_tls [of 443 proxy_new sample_xt sample_fs "''n''" "Some ''a.b''" "BSpa ''d''" True]
  by (simp add: proxy_new_def)

text \<open>
  Changing the cache time to live gives the manager a new cache that no running server uses:
  every server keeps the handle, and the time to live, it was started with.
\<close>

theorem set_cache_ttl_running_servers:
  assumes "px_inv px"
  shows "px_servers (set_cache_ttl secs px) = px_servers px \<and>
    (\<forall>sv \<in> set (px_servers px). sv_cache sv \<noteq> px_cache (set_cache_ttl secs px) \<and>
       px_cache_ttls (set_cache_ttl secs px) (sv_cache sv) = px_cache_ttls px (sv_cache sv))"
  using assms by (auto simp: set_cache_ttl_def px_inv_def)

theorem set_cache_ttl_running_servers_witness:
  "list_all (\<lambda>sv. px_cache_ttls (set_cache_ttl 120 two_apps) (sv_cache sv) = px_cache_ttls two_apps (sv_cache sv)) (px_servers two_apps)"
  using set_cache_ttl_running_servers [OF two_apps_inv(1), of 120] by (simp add: list_all_iff)

end
