(* ===== verification/Server.thy ===== *)
theory Server
  imports Logs State_Store Cli_Config Proxy
begin

text \<open>
  \<open>src/server.rs\<close>, the daemon's request handlers over the whole state: the process manager, the
  proxy manager, the registered ACME names, the cloud agent and the metrics server. A handler
  is an action whose error is the text of a \<open>Response::Error\<close>. Requests hold the daemon's lock, so
  they run one after the other; the health checker takes the same lock and is one more step.
\<close>

section \<open>State\<close>

record daemon_state =
  ds_process :: process_manager
  ds_proxy :: proxy_manager
  ds_acme :: "(string \<times> string) list"
  ds_agent :: "(string \<times> string) option"
  ds_metrics_server :: "u16 option"
  ds_tick :: u64
  ds_exiting :: bool

type_synonym 'e dstate = "daemon_state \<times> 'e world"

definition onPM :: "('e pstate, 'a) act \<Rightarrow> ('e dstate, 'a) act" where
  "onPM = zoom (\<lambda>s. (ds_process (fst s), snd s)) (\<lambda>t s. ((fst s)\<lparr>ds_process := fst t\<rparr>, snd t))"

definition onPx :: "(proxy_manager, 'a) act \<Rightarrow> ('e dstate, 'a) act" where
  "onPx = zoom (ds_proxy \<circ> fst) (\<lambda>px s. ((fst s)\<lparr>ds_proxy := px\<rparr>, snd s))"

definition onV :: "('e world, 'a) act \<Rightarrow> ('e dstate, 'a) act" where
  "onV = zoom snd (\<lambda>w s. (fst s, w))"

definition onD :: "(daemon_state \<Rightarrow> daemon_state) \<Rightarrow> ('e dstate, unit) act" where
  "onD f = modify (\<lambda>s. (f (fst s), snd s))"

definition d_metric :: "metric_op \<Rightarrow> ('e dstate, unit) act" where
  "d_metric m = onPM (pm_metric m)"

definition daemon_new :: daemon_state where
  "daemon_new = \<lparr>ds_process = process_manager_new True, ds_proxy = proxy_new, ds_acme = [], ds_agent = None,
     ds_metrics_server = None, ds_tick = 0, ds_exiting = False\<rparr>"

section \<open>Helpers of the server\<close>

definition port_field :: "string \<Rightarrow> u16 result" where
  "port_field s = (case parse_u16 s of Some p \<Rightarrow> Inr p | None \<Rightarrow> Inl (''invalid port: '' @ s))"

definition parse_port_mapping_str :: "string \<Rightarrow> port_mapping result" where
  "parse_port_mapping_str port =
     (let parts = split_on (CHR '':'') port in
      if length parts = 1 then
        andThen (port_field (parts ! 0)) (\<lambda>p. Inr \<lparr>pm_host = None, pm_public_port = p, pm_app_port = None\<rparr>)
      else if length parts = 2 then
        andThen (port_field (parts ! 0)) (\<lambda>public. andThen (port_field (parts ! 1)) (\<lambda>app.
          Inr \<lparr>pm_host = None, pm_public_port = public, pm_app_port = Some app\<rparr>))
      else if length parts = 3 then
        andThen (port_field (parts ! 1)) (\<lambda>public. andThen (port_field (parts ! 2)) (\<lambda>app.
          Inr \<lparr>pm_host = Some (parts ! 0), pm_public_port = public, pm_app_port = Some app\<rparr>))
      else Inl (''invalid port mapping: '' @ port))"

fun env_loop :: "string list \<Rightarrow> (string, string) hmap \<Rightarrow> (string, string) hmap" where
  "env_loop [] vars = vars"
| "env_loop (l # ls) vars =
     (let line = trim l in
      if line = [] \<or> starts_with ''#'' line then env_loop ls vars
      else (case split_once (CHR ''='') line of
              Some (key, value) \<Rightarrow>
                env_loop ls (hm_insert (trim key) (trim_matches (CHR 0x27) (trim_matches (CHR 0x22) (trim value))) vars)
            | None \<Rightarrow> env_loop ls vars))"

definition parse_env_file_str :: "string \<Rightarrow> fsys \<Rightarrow> (string, string) hmap result" where
  "parse_env_file_str path fs =
     (case fst (fs_read path fs) of
        Inl e \<Rightarrow> Inl (''failed to read env file '' @ q path @ '': '' @ e)
      | Inr content \<Rightarrow> Inr (env_loop (lines_of content) []))"

text \<open>The task that this function spawns first registers the name for renewal; issuing is in \<open>src/acme.rs\<close>.\<close>

definition spawn_acme_issue :: "string \<Rightarrow> string \<Rightarrow> ('e dstate, unit) act" where
  "spawn_acme_issue hostname email =
     onD (\<lambda>d. if list_ex (\<lambda>(h, _). h = hostname) (ds_acme d) then d
               else d\<lparr>ds_acme := ds_acme d @ [(hostname, email)]\<rparr>)"

definition acme_if_requested :: "string option \<Rightarrow> string option \<Rightarrow> ('e dstate, unit) act" where
  "acme_if_requested acme_email host =
     (case (acme_email, host) of
        (Some email, Some hostname) \<Rightarrow> spawn_acme_issue hostname email
      | _ \<Rightarrow> ok ())"

definition loopback :: "u16 \<Rightarrow> backend" where
  "loopback p = BProxy \<lparr>sa_ip = ''127.0.0.1'', sa_port = p\<rparr>"

definition spa_backend :: "fsys \<Rightarrow> string \<Rightarrow> backend" where
  "spa_backend fs dir = BSpa (case fs_canon fs dir of Inr c \<Rightarrow> c | Inl _ \<Rightarrow> dir)"

section \<open>Run\<close>

definition remap_port :: "'e xt \<Rightarrow> process_config \<Rightarrow> port_mapping \<Rightarrow> ('e dstate, port_mapping \<times> process_config) act" where
  "remap_port X config pm =
     (if pm_app_port pm = Some (pm_public_port pm) \<or> pm_app_port pm = None
      then bindA (map_err (\<lambda>e. ''failed to find free port: '' @ e) (onV (onX (x_free_port X)))) (\<lambda>auto_port.
        let pm' = pm\<lparr>pm_app_port := Some auto_port\<rparr> in
        ok (pm', config\<lparr>pc_port_mapping := Some pm', pc_env_vars := hm_insert ''PORT'' (show_word auto_port) (pc_env_vars config)\<rparr>))
      else ok (pm, config))"

definition run_spa :: "'e xt \<Rightarrow> process_config \<Rightarrow> port_mapping \<Rightarrow> (string \<times> string) option \<Rightarrow> ('e dstate, response) act" where
  "run_spa X config pm ssl =
     bindA (gets (w_fs \<circ> snd)) (\<lambda>fs.
     if \<not> fs_is_dir (pc_path config) fs then err (q (pc_path config) @ '' is not a directory'')
     else
       bindA (onPx (add_route_with_tls X fs (pc_name config) (pm_public_port pm) (pm_host pm)
                      (spa_backend fs (pc_path config)) ssl)) (\<lambda>_.
       bindA (onPM (register_spa X config)) (\<lambda>_.
       bindA (acme_if_requested (pc_acme config) (pm_host pm)) (\<lambda>_.
       ok (RespOk (''SPA '' @ q (pc_name config) @ '' serving on port '' @ show_word (pm_public_port pm)))))))"

definition run_proxied :: "'e xt \<Rightarrow> process_config \<Rightarrow> port_mapping \<Rightarrow> (string \<times> string) option \<Rightarrow> ('e dstate, response) act" where
  "run_proxied X config pm ssl =
     (let app_port = (case pm_app_port pm of Some p \<Rightarrow> p | None \<Rightarrow> pm_public_port pm) in
      bindA (onPM (spawn_process X config)) (\<lambda>msg.
      bindA (gets (w_fs \<circ> snd)) (\<lambda>fs.
      bindA (attempt (onPx (add_route_with_tls X fs (pc_name config) (pm_public_port pm) (pm_host pm) (loopback app_port) ssl))) (\<lambda>r.
      case r of
        Inl e \<Rightarrow> bindA (ignore (onPM (delete_process X (pc_name config)))) (\<lambda>_. err (''proxy setup failed: '' @ e))
      | Inr _ \<Rightarrow>
          bindA (acme_if_requested (pc_acme config) (pm_host pm)) (\<lambda>_.
          ok (RespOk (msg @ '' (proxy '' @
            (case pm_host pm of
               Some host \<Rightarrow> host @ '':'' @ show_word (pm_public_port pm) @ '' -> '' @ show_word app_port
             | None \<Rightarrow> '':'' @ show_word (pm_public_port pm) @ '' -> '' @ show_word app_port) @ '')'')))))))"

definition handle_run :: "'e xt \<Rightarrow> process_config \<Rightarrow> ('e dstate, response) act" where
  "handle_run X config =
     (case pc_port_mapping config of
        None \<Rightarrow> err ''run requires --p port mapping''
      | Some pm0 \<Rightarrow>
          bindA (remap_port X config pm0) (\<lambda>(pm, config').
          if pc_acme config \<noteq> None \<and> pm_host pm = None
          then err ''ACME requires host-based port mapping (e.g. --p domain.com:443:8000)''
          else
            let ssl = map_option (\<lambda>s. (ssl_cert_path s, ssl_key_path s)) (pc_ssl config) in
            if pc_spa config then run_spa X config' pm ssl else run_proxied X config' pm ssl))"

section \<open>Update\<close>

definition pull_update :: "'e xt \<Rightarrow> string \<Rightarrow> string option \<Rightarrow> ('e dstate, (string \<times> string) option) act" where
  "pull_update X name img =
     (case img of
        None \<Rightarrow> ok None
      | Some img_ref \<Rightarrow>
          if \<not> is_oci_reference img_ref then err (q img_ref @ '' is not a valid OCI image reference'')
          else bindA (attempt (onV (pull_and_extract X img_ref name))) (\<lambda>r.
            case r of
              Inl e \<Rightarrow> bindA (d_metric OciPullErrInc) (\<lambda>_. err (''OCI pull failed: '' @ e))
            | Inr extract_dir \<Rightarrow>
                bindA (d_metric OciPullInc) (\<lambda>_.
                bindA (gets (\<lambda>s. find_entrypoint X extract_dir (w_fs (snd s)))) (\<lambda>ep.
                case ep of
                  Inl e \<Rightarrow> err (''OCI entrypoint error: '' @ e)
                | Inr (entrypoint, _) \<Rightarrow> ok (Some (img_ref, entrypoint))))))"

definition config_named :: "string \<Rightarrow> 'e dstate \<Rightarrow> process_config option" where
  "config_named name s = List.find (\<lambda>c. pc_name c = name) (get_configs (ds_process (fst s)))"

definition update_backend :: "fsys \<Rightarrow> process_config \<Rightarrow> port_mapping \<Rightarrow> backend" where
  "update_backend fs cfg pm =
     (if pc_spa cfg then spa_backend fs (pc_path cfg)
      else loopback (case pm_app_port pm of Some p \<Rightarrow> p | None \<Rightarrow> pm_public_port pm))"

definition update_route :: "'e xt \<Rightarrow> string \<Rightarrow> process_config \<Rightarrow> ('e dstate, unit) act" where
  "update_route X name old_config =
     bindA (onPx (modify (remove_routes name))) (\<lambda>_.
     bindA (gets (config_named name)) (\<lambda>found.
     case found of
       None \<Rightarrow> ok ()
     | Some cfg \<Rightarrow>
         (case pc_port_mapping cfg of
            None \<Rightarrow> ok ()
          | Some pm \<Rightarrow>
              bindA (gets (w_fs \<circ> snd)) (\<lambda>fs.
              bindA (attempt (onPx (add_route X fs name (pm_public_port pm) (pm_host pm) (update_backend fs cfg pm)))) (\<lambda>r.
              case r of
                Inr _ \<Rightarrow> ok ()
              | Inl e \<Rightarrow>
                  bindA (ignore (onPM (update_config name (pc_port_mapping old_config) (pc_ssl old_config) (pc_acme old_config)
                           (pc_env_file old_config) (Some (pc_env_vars old_config)) (Some (pc_args old_config))))) (\<lambda>_.
                  err (''proxy route update failed: '' @ e)))))))"

definition restart_updated :: "'e xt \<Rightarrow> string \<Rightarrow> ('e dstate, response) act" where
  "restart_updated X name =
     bindA (gets (config_named name)) (\<lambda>found.
     if (case found of Some c \<Rightarrow> pc_spa c | None \<Rightarrow> False) then ok (RespOk (q name @ '' config updated''))
     else bindA (map_err (\<lambda>e. ''config updated but restart failed: '' @ e) (onPM (restart X name))) (\<lambda>msg.
       ok (RespOk (''updated and restarted: '' @ msg))))"

definition handle_update ::
  "'e xt \<Rightarrow> string \<Rightarrow> string option \<Rightarrow> string list option \<Rightarrow> string option \<Rightarrow> string option \<Rightarrow> string option \<Rightarrow> string option
   \<Rightarrow> ('e dstate, response) act" where
  "handle_update X name port ssl acme env_file args img =
     bindA (pull_update X name img) (\<lambda>oci_update.
     bindA (case port of Some p \<Rightarrow> bindA (lift_result (parse_port_mapping_str p)) (\<lambda>pm. ok (Some pm)) | None \<Rightarrow> ok None) (\<lambda>port_mapping.
     let ssl_config = map_option (\<lambda>s. \<lparr>ssl_cert_path = (if 0 < length s then s ! 0 else ''''),
                                       ssl_key_path = (if 1 < length s then s ! 1 else '''')\<rparr>) ssl in
     bindA (gets (w_fs \<circ> snd)) (\<lambda>fs.
     bindA (case env_file of Some ef \<Rightarrow> bindA (lift_result (parse_env_file_str ef fs)) (\<lambda>v. ok (Some v)) | None \<Rightarrow> ok None) (\<lambda>env_vars.
     let parsed_args = map_option (\<lambda>a. case x_shlex_split X a of Some xs \<Rightarrow> xs | None \<Rightarrow> []) args in
     bindA (onPM (update_config name port_mapping ssl_config acme env_file env_vars parsed_args)) (\<lambda>old_config.
     bindA (case oci_update of Some (img_ref, entrypoint) \<Rightarrow> onPM (update_oci_config name img_ref entrypoint) | None \<Rightarrow> ok ()) (\<lambda>_.
     bindA (if port \<noteq> None then update_route X name old_config else ok ()) (\<lambda>_.
     restart_updated X name)))))))"

section \<open>Requests\<close>

definition as_ok :: "('e dstate, string) act \<Rightarrow> ('e dstate, response) act" where
  "as_ok m = bindA m (\<lambda>msg. ok (RespOk msg))"

definition handle_del :: "'e xt \<Rightarrow> string \<Rightarrow> ('e dstate, response) act" where
  "handle_del X name =
     bindA (onPx (modify (remove_routes name))) (\<lambda>_.
     bindA (attempt (onPM (delete_process X name))) (\<lambda>r.
     case r of
       Inr msg \<Rightarrow> ok (RespOk msg)
     | Inl e \<Rightarrow> if contains_str ''not found'' e then ok (RespOk (q name @ '' removed'')) else err e))"

definition handle_set_cache_ttl :: "string \<Rightarrow> ('e dstate, response) act" where
  "handle_set_cache_ttl value =
     (case parse_u64 value of
        Some secs \<Rightarrow> bindA (onPx (modify (set_cache_ttl secs))) (\<lambda>_. ok (RespOk (''cache-ttl set to '' @ show_word secs @ ''s'')))
      | None \<Rightarrow> err (''invalid value '' @ q value @ '': expected seconds''))"

definition handle_save :: "'e xt \<Rightarrow> ('e dstate, response) act" where
  "handle_save X =
     bindA (gets (get_configs \<circ> ds_process \<circ> fst)) (\<lambda>configs.
     bindA (onV (onX (save_state X configs))) (\<lambda>_.
     ok (RespOk (''saved '' @ show_nat (length configs) @ '' processes''))))"

definition handle_link :: "'e xt \<Rightarrow> string \<Rightarrow> ('e dstate, response) act" where
  "handle_link X api_key =
     bindA (map_err (\<lambda>e. ''failed to save cloud config: '' @ e) (onV (onX (save_cloud_config X api_key)))) (\<lambda>_.
     bindA (onD (\<lambda>d. d\<lparr>ds_agent := None\<rparr>)) (\<lambda>_.
     bindA (onD (\<lambda>d. d\<lparr>ds_agent := Some (api_key, default_cloud_url)\<rparr>)) (\<lambda>_.
     ok (RespOk ''linked to cloud''))))"

definition handle_unlink :: "'e xt \<Rightarrow> ('e dstate, response) act" where
  "handle_unlink X =
     bindA (onD (\<lambda>d. d\<lparr>ds_agent := None\<rparr>)) (\<lambda>_.
     bindA (map_err (\<lambda>e. ''failed to remove cloud config: '' @ e) (onV (onX (remove_cloud_config X)))) (\<lambda>_.
     ok (RespOk ''unlinked from cloud'')))"

definition handle_kill :: "'e xt \<Rightarrow> ('e dstate, response) act" where
  "handle_kill X =
     bindA (onD (\<lambda>d. d\<lparr>ds_agent := None, ds_metrics_server := None\<rparr>)) (\<lambda>_.
     bindA (onPM (kill_all X)) (\<lambda>msg.
     bindA (ignore (onV (onX (save_state X [])))) (\<lambda>_.
     bindA (onV (onX (store_close X))) (\<lambda>_.
     bindA (onD (\<lambda>d. d\<lparr>ds_exiting := True\<rparr>)) (\<lambda>_.
     ok (RespOk msg))))))"

definition handle_metrics_enable :: "u16 \<Rightarrow> ('e dstate, response) act" where
  "handle_metrics_enable port =
     bindA (onD (\<lambda>d. d\<lparr>ds_metrics_server := None\<rparr>)) (\<lambda>_.
     bindA (onD (\<lambda>d. d\<lparr>ds_metrics_server := Some port\<rparr>)) (\<lambda>_.
     ok (RespOk (''metrics server started on :'' @ show_word port))))"

definition handle_metrics_disable :: "('e dstate, response) act" where
  "handle_metrics_disable =
     bindA (gets (ds_metrics_server \<circ> fst)) (\<lambda>running.
     if running = None then ok (RespOk ''metrics server is not running'')
     else bindA (onD (\<lambda>d. d\<lparr>ds_metrics_server := None\<rparr>)) (\<lambda>_. ok (RespOk ''metrics server stopped'')))"

text \<open>Every request but \<open>Set\<close>, which can also panic.\<close>

fun dispatch :: "'e xt \<Rightarrow> request \<Rightarrow> ('e dstate, response) act" where
  "dispatch X (ReqBin config) = as_ok (onPM (spawn_process X config))"
| "dispatch X (ReqRun config) = handle_run X config"
| "dispatch X ReqLs = bindA (gets (\<lambda>s. list_processes (x_now X (w_x (snd s))) (ds_process (fst s)))) (\<lambda>ps. ok (RespProcessList ps))"
| "dispatch X (ReqDel name) = handle_del X name"
| "dispatch X (ReqRestart name) = as_ok (onPM (restart X name))"
| "dispatch X (ReqReload name) = as_ok (onPM (reload X name))"
| "dispatch X (ReqUpdate name port ssl acme env_file args img) = handle_update X name port ssl acme env_file args img"
| "dispatch X (ReqLogs name n) =
     bindA (gets (\<lambda>s. get_logs (ds_process (fst s)) name n (w_fs (snd s)))) (\<lambda>r. bindA (lift_result r) (\<lambda>logs. ok (RespLogs logs)))"
| "dispatch X (ReqSet key value) =
     (if key = ''cache-ttl'' then handle_set_cache_ttl value
      else err (''unknown config key '' @ q key @ ''. available: cache-ttl, default-registry''))"
| "dispatch X ReqExport = bindA (gets (get_configs \<circ> ds_process \<circ> fst)) (\<lambda>cs. ok (RespConfigList cs))"
| "dispatch X ReqSave = handle_save X"
| "dispatch X ReqKill = handle_kill X"
| "dispatch X (ReqLink api_key) = handle_link X api_key"
| "dispatch X ReqUnlink = handle_unlink X"
| "dispatch X (ReqMetricsEnable port) = handle_metrics_enable port"
| "dispatch X ReqMetricsDisable = handle_metrics_disable"

text \<open>The response is absent when the handler's task panicked.\<close>

definition set_default_registry :: "'e xt \<Rightarrow> string \<Rightarrow> 'e dstate \<Rightarrow> response option \<times> 'e dstate" where
  "set_default_registry X value s =
     (case save_default_registry X value (w_fs (snd s)) of
        None \<Rightarrow> (None, s)
      | Some (r, fs) \<Rightarrow>
          (Some (case r of
                   Inr _ \<Rightarrow> RespOk (''default-registry set to '' @ q value)
                 | Inl e \<Rightarrow> RespError (''failed to save default-registry: '' @ e)),
           (fst s, (snd s)\<lparr>w_fs := fs\<rparr>)))"

definition handle_request :: "'e xt \<Rightarrow> request \<Rightarrow> 'e dstate \<Rightarrow> response option \<times> 'e dstate" where
  "handle_request X req s =
     (case req of
        ReqSet key value \<Rightarrow>
          if key = ''default-registry'' then set_default_registry X value s
          else (case dispatch X req s of (r, s') \<Rightarrow> (Some (case r of Inl e \<Rightarrow> RespError e | Inr a \<Rightarrow> a), s'))
      | _ \<Rightarrow> (case dispatch X req s of (r, s') \<Rightarrow> (Some (case r of Inl e \<Rightarrow> RespError e | Inr a \<Rightarrow> a), s')))"

text \<open>One round of the health checker.\<close>

definition health_tick :: "'e xt \<Rightarrow> ('e dstate, unit) act" where
  "health_tick X =
     bindA (onPM (check_and_restart X)) (\<lambda>_.
     bindA (onPM (collect_process_stats X)) (\<lambda>_.
     bindA (onD (\<lambda>d. d\<lparr>ds_tick := ds_tick d + 1\<rparr>)) (\<lambda>_.
     bindA (gets (ds_tick \<circ> fst)) (\<lambda>tick.
     if tick mod 30 = 0 then bindA (gets (ds_process \<circ> fst)) (\<lambda>pm. onV (onF (rotate_logs pm))) else ok ()))))"

section \<open>The invariant of the daemon\<close>

lemma wp_onPM [wp_simps]:
  "wp (onPM m) Q E s = wp m (\<lambda>a t. Q a ((fst s)\<lparr>ds_process := fst t\<rparr>, snd t)) (\<lambda>e t. E e ((fst s)\<lparr>ds_process := fst t\<rparr>, snd t))
     (ds_process (fst s), snd s)"
  by (simp add: wp_def onPM_def zoom_def split: prod.split sum.split)

lemma wp_onPx [wp_simps]:
  "wp (onPx m) Q E s = wp m (\<lambda>a px. Q a ((fst s)\<lparr>ds_proxy := px\<rparr>, snd s)) (\<lambda>e px. E e ((fst s)\<lparr>ds_proxy := px\<rparr>, snd s))
     (ds_proxy (fst s))"
  by (simp add: wp_def onPx_def zoom_def split: prod.split sum.split)

lemma wp_onV [wp_simps]:
  "wp (onV m) Q E s = wp m (\<lambda>a w. Q a (fst s, w)) (\<lambda>e w. E e (fst s, w)) (snd s)"
  by (simp add: wp_def onV_def zoom_def split: prod.split sum.split)

lemma wp_onD [wp_simps]: "wp (onD f) Q E s = Q () (f (fst s), snd s)"
  by (simp add: wp_def onD_def modify_def)

definition d_inv :: "'e dstate \<Rightarrow> bool" where
  "d_inv s \<longleftrightarrow> pr_inv (ds_process (fst s), snd s) \<and> px_inv (ds_proxy (fst s)) \<and> distinct (map fst (ds_acme (fst s)))"

lemma on_run:
  "snd (onPM m s) = ((fst s)\<lparr>ds_process := fst (snd (m (ds_process (fst s), snd s)))\<rparr>, snd (snd (m (ds_process (fst s), snd s))))"
  "snd (onPx f s) = ((fst s)\<lparr>ds_proxy := snd (f (ds_proxy (fst s)))\<rparr>, snd s)"
  "snd (onV g s) = (fst s, snd (g (snd s)))"
  by (simp_all add: onPM_def onPx_def onV_def zoom_def split: prod.split)

lemma d_inv_onPM [pres_intros]: "preserves pr_inv m \<Longrightarrow> preserves d_inv (onPM m)"
  by (simp add: preserves_def d_inv_def on_run)

lemma d_inv_onPx: "preserves px_inv m \<Longrightarrow> preserves d_inv (onPx m)"
  by (simp add: preserves_def d_inv_def on_run)

lemma d_inv_onV: "(\<And>v. preserves (gauge_is v) m) \<Longrightarrow> preserves d_inv (onV m)"
  by (simp add: preserves_def d_inv_def on_run pr_inv_upto_def gauge_is_def)

lemma d_inv_onVX [pres_intros]: "preserves d_inv (onV (onX m))"
  by (intro d_inv_onV gauge_onX)

lemma d_inv_onVF [pres_intros]: "preserves d_inv (onV (onF m))"
  by (intro d_inv_onV gauge_onF)

lemma d_inv_pull [pres_intros]: "preserves d_inv (onV (pull_and_extract X r n))"
  by (intro d_inv_onV pull_and_extract_gauge)

lemma d_inv_onD:
  "(\<And>d. ds_process (f d) = ds_process d \<and> ds_proxy (f d) = ds_proxy d \<and>
     (distinct (map fst (ds_acme d)) \<longrightarrow> distinct (map fst (ds_acme (f d))))) \<Longrightarrow> preserves d_inv (onD f)"
  by (simp add: preserves_def d_inv_def onD_def modify_def)

lemma d_inv_add_route [pres_intros]: "preserves d_inv (onPx (add_route_with_tls X fs n p h b ssl))"
  by (intro d_inv_onPx) (simp add: preserves_def px_inv_add)

lemma d_inv_remove_routes [pres_intros]: "preserves d_inv (onPx (modify (remove_routes n)))"
  by (intro d_inv_onPx) (simp add: preserves_def px_inv_remove)

lemma d_inv_set_cache [pres_intros]: "preserves d_inv (onPx (modify (set_cache_ttl n)))"
  by (intro d_inv_onPx) (simp add: preserves_def px_inv_set_cache)

lemma d_inv_metric [pres_intros]: "(\<And>v. managed_step m v = v) \<Longrightarrow> preserves d_inv (d_metric m)"
  unfolding d_metric_def pm_metric_def by (intro pres_intros inv_onW gauge_metric_if) simp

lemma d_inv_acme [pres_intros]: "preserves d_inv (acme_if_requested e h)"
  unfolding acme_if_requested_def spawn_acme_issue_def
  by (auto split: option.split intro!: pres_intros d_inv_onD simp: list_ex_iff case_prod_beta)

lemma handle_run_inv [pres_intros]: "preserves d_inv (handle_run X c)"
  unfolding handle_run_def remap_port_def run_spa_def run_proxied_def Let_def by (intro pres_intros)

lemma handle_update_inv [pres_intros]: "preserves d_inv (handle_update X n p ssl acme ef args i)"
  unfolding handle_update_def pull_update_def update_route_def restart_updated_def Let_def add_route_def
  by (intro pres_intros) simp_all

lemma reload_inv [pres_intros]: "preserves pr_inv (reload X n)"
  unfolding reload_def by (rule restart_inv)

lemma dispatch_inv: "preserves d_inv (dispatch X req)"
  by (cases req)
    (auto simp: as_ok_def handle_del_def handle_set_cache_ttl_def handle_save_def handle_link_def handle_unlink_def
      handle_kill_def handle_metrics_enable_def handle_metrics_disable_def intro!: pres_intros d_inv_onD)

text \<open>
  The daemon as a machine: its steps are the requests of any clients, in the order in which they get the lock, and the rounds of the
  health checker in between.
\<close>

datatype dstep = Req request | Tick

fun d_step :: "'e xt \<Rightarrow> dstep \<Rightarrow> 'e dstate \<Rightarrow> 'e dstate" where
  "d_step X (Req r) s = snd (handle_request X r s)"
| "d_step X Tick s = snd (health_tick X s)"

definition d_init :: "'e dstate \<Rightarrow> bool" where
  "d_init s \<longleftrightarrow> fst s = daemon_new \<and> w_metrics (snd s) = []"

lemma set_default_registry_run:
  "\<exists>fs. snd (set_default_registry X v s) = (fst s, (snd s)\<lparr>w_fs := fs\<rparr>)"
proof (cases "save_default_registry X v (w_fs (snd s))")
  case None
  then have "snd (set_default_registry X v s) = (fst s, (snd s)\<lparr>w_fs := w_fs (snd s)\<rparr>)"
    by (simp add: set_default_registry_def)
  then show ?thesis by blast
qed (auto simp: set_default_registry_def)

lemma handle_request_run:
  "(\<exists>v. req = ReqSet ''default-registry'' v \<and> handle_request X req s = set_default_registry X v s) \<or>
   handle_request X req s =
     (Some (case fst (dispatch X req s) of Inl e \<Rightarrow> RespError e | Inr a \<Rightarrow> a), snd (dispatch X req s))"
  by (cases req) (auto simp: handle_request_def case_prod_beta simp del: dispatch.simps)

lemma d_inv_fs: "d_inv s \<Longrightarrow> d_inv (fst s, (snd s)\<lparr>w_fs := fs\<rparr>)"
  by (simp add: d_inv_def pr_inv_upto_def gauge_is_def)

lemma handle_request_inv: "d_inv s \<Longrightarrow> d_inv (snd (handle_request X req s))"
  using handle_request_run [of req X s] set_default_registry_run [of X _ s] d_inv_fs preservesD [OF dispatch_inv]
  by (metis snd_conv)

lemma health_tick_inv: "preserves d_inv (health_tick X)"
  unfolding health_tick_def by (intro pres_intros d_inv_onD) simp_all

interpretation dm: machine d_init "d_step X" d_inv
proof
  show "d_inv s" if "d_init s" for s :: "'a dstate"
    using that by (simp add: d_init_def d_inv_def daemon_new_def process_manager_new_def pr_inv_upto_def gauge_is_def px_inv_new)
  show "d_inv (d_step X i s)" if "d_inv s" for i and s :: "'a dstate"
    using that by (cases i) (simp_all add: handle_request_inv preservesD [OF health_tick_inv])
qed

section \<open>Properties\<close>

abbreviation dprocs :: "'e dstate \<Rightarrow> string \<Rightarrow> managed_process option" where
  "dprocs s \<equiv> hm_get (pr_processes (ds_process (fst s)))"

abbreviation droutes :: "'e dstate \<Rightarrow> route_entry list" where
  "droutes s \<equiv> px_routes (ds_proxy (fst s))"

text \<open>
  C1: whatever requests arrive and however the health checker runs in between, from the start of the daemon on every process is filed
  once, under its own name, and is running, or stopped with neither child nor pid; the gauge of managed processes shows their
  number; no name has two routes; every open port belongs to a started server and is not marked dead; and no
  host is registered twice for renewal.
\<close>

theorem daemon_invariant:
  assumes "d_init s"
  shows "d_inv (fold (d_step X) steps s)"
  using assms by (rule dm.inv_from_init)

theorem daemon_invariant_witness:
  "d_inv (fold (d_step sample_xt) [Req (ReqBin sample_config), Tick, Req ReqKill] (daemon_new, sample_world))"
  by (rule daemon_invariant) (simp add: d_init_def sample_world_def)

lemma env_loop_extend: "env_loop ls vars = hm_extend vars (List.map_filter env_line ls)"
  by (induction ls vars rule: env_loop.induct)
    (auto simp: hm_extend_def env_line_def Let_def List.map_filter_simps split: option.split)

text \<open>
  C28: The daemon's own parsers of port mappings and environment files, written a second time in the server, agree with the
  client's on every input.
\<close>

theorem server_parsers_agree:
  "parse_port_mapping_str p = parse_port_mapping p \<and> parse_env_file_str path fs = parse_env_file path fs"
proof -
  have "port_field = port_or_error" by (rule ext) (simp add: port_field_def port_or_error_def)
  then have "parse_port_mapping_str p = parse_port_mapping p"
    by (auto simp: parse_port_mapping_str_def parse_port_mapping_def Let_def length_Suc_conv numeral_eq_Suc split: list.split)
  then show ?thesis
    by (simp add: parse_env_file_str_def parse_env_file_def env_loop_extend env_vars_of_def q_def quoted_def split: sum.split)
qed

lemma contains_not_found: "contains_str ''not found'' (not_found n)"
  unfolding contains_str_iff not_found_def
  by (rule exI [of _ "''process '' @ q n @ '' ''"], rule exI [of _ "[]"]) simp

text \<open>
  A delete request always succeeds. Afterwards no process and no route has the name, and everything else in the two tables is
  as before.
\<close>

theorem delete_request:
  "\<exists>m s'. handle_request X (ReqDel n) s = (Some (RespOk m), s') \<and> dprocs s' = (dprocs s)(n := None) \<and>
     droutes s' = filter (\<lambda>r. re_name r \<noteq> n) (droutes s)"
proof -
  have "wp (handle_del X n)
      (\<lambda>r s'. (\<exists>m. r = RespOk m) \<and> dprocs s' = (dprocs s)(n := None) \<and> droutes s' = filter (\<lambda>r. re_name r \<noteq> n) (droutes s))
      (\<lambda>_ _. False) s"
    unfolding handle_del_def wp_bindA wp_onPx wp_modify wp_attempt wp_onPM
    by (rule wp_delete_process)
      (auto simp: wp_simps contains_not_found hm_get_remove remove_routes_entries fun_upd_idem_iff)
  then show ?thesis
    by (auto simp: handle_request_def wp_def split: prod.splits sum.splits)
qed

subsection \<open>Run\<close>

definition remapped :: "port_mapping \<Rightarrow> process_config \<Rightarrow> port_mapping \<Rightarrow> process_config \<Rightarrow> bool" where
  "remapped pm0 c pm c' \<longleftrightarrow>
     pm_host pm = pm_host pm0 \<and> pm_public_port pm = pm_public_port pm0 \<and> pm_app_port pm \<noteq> None \<and>
     (pm_app_port pm0 \<noteq> None \<and> pm_app_port pm0 \<noteq> Some (pm_public_port pm0) \<longrightarrow> pm = pm0 \<and> c' = c) \<and>
     (pm_app_port pm0 = None \<or> pm_app_port pm0 = Some (pm_public_port pm0) \<longrightarrow>
        hm_get (pc_env_vars c') ''PORT'' = map_option show_word (pm_app_port pm)) \<and>
     pc_name c' = pc_name c \<and> pc_path c' = pc_path c \<and> pc_acme c' = pc_acme c \<and> pc_spa c' = pc_spa c"

lemma wp_remap_port:
  assumes "\<And>pm' c' w'. remapped pm c pm' c' \<Longrightarrow> Q (pm', c') (fst s, w')" and "\<And>e w'. E e (fst s, w')"
  shows "wp (remap_port X c pm) Q E s"
proof (cases "pm_app_port pm = Some (pm_public_port pm) \<or> pm_app_port pm = None")
  case True
  then show ?thesis
    unfolding remap_port_def if_P [OF True] wp_bindA wp_map_err wp_onV wp_onX Let_def wp_ok fst_conv
    by (intro wp_any assms) (auto simp: remapped_def hm_get_insert)
next
  case False
  then have "Q (pm, c) (fst s, snd s)" by (intro assms) (auto simp: remapped_def)
  with False show ?thesis by (auto simp: remap_port_def wp_simps)
qed

lemma wp_acme [wp_simps]:
  "wp (acme_if_requested em h) Q E s = Q () ((case (em, h) of
      (Some email, Some hostname) \<Rightarrow>
        if list_ex (\<lambda>(h, _). h = hostname) (ds_acme (fst s)) then fst s
        else (fst s)\<lparr>ds_acme := ds_acme (fst s) @ [(hostname, email)]\<rparr>
    | _ \<Rightarrow> fst s), snd s)"
  by (auto simp: acme_if_requested_def spawn_acme_issue_def wp_simps split: option.split)

abbreviation acme_only :: "'e dstate \<Rightarrow> 'e dstate \<Rightarrow> bool" where
  "acme_only s s' \<equiv> ds_process (fst s') = ds_process (fst s) \<and> ds_proxy (fst s') = ds_proxy (fst s)"

definition run_done :: "process_config \<Rightarrow> port_mapping \<Rightarrow> backend \<Rightarrow> 'e dstate \<Rightarrow> 'e dstate \<Rightarrow> bool" where
  "run_done c pm b s s' \<longleftrightarrow> dprocs s (pc_name c) = None \<and>
     (case dprocs s' (pc_name c) of
        Some p \<Rightarrow> pc_name (mp_config p) = pc_name c \<and> mp_status p = Running \<and> dprocs s' = (dprocs s)(pc_name c \<mapsto> p)
      | None \<Rightarrow> False) \<and>
     droutes s' = filter (\<lambda>r. re_name r \<noteq> pc_name c) (droutes s) @
       [\<lparr>re_name = pc_name c, re_port = pm_public_port pm, re_host = pm_host pm, re_backend = b\<rparr>]"

definition run_backend :: "process_config \<Rightarrow> port_mapping \<Rightarrow> backend \<Rightarrow> bool" where
  "run_backend c pm b \<longleftrightarrow> (if pc_spa c then \<exists>dir. b = BSpa dir else b = loopback (the (pm_app_port pm)))"

lemma add_route_plain:
  "add_route_with_tls X fs n p h b None px =
     (Inr (), open_port p (put_route \<lparr>re_name = n, re_port = p, re_host = h, re_backend = b\<rparr> px))"
  by (simp add: add_route_with_tls_def install_cert_def bindA_def modify_def)

lemma wp_plain_route:
  "wp (add_route_with_tls X fs n p h b None) Q E px =
     Q () (open_port p (put_route \<lparr>re_name = n, re_port = p, re_host = h, re_backend = b\<rparr> px))"
  by (simp add: wp_def add_route_plain)

lemma wp_add_route:
  assumes "\<And>px. px_routes px = filter (\<lambda>q. re_name q \<noteq> n) (px_routes px0) @ [\<lparr>re_name = n, re_port = p, re_host = h, re_backend = b\<rparr>] \<Longrightarrow> Q () px"
    and "\<And>e px. px_routes px = filter (\<lambda>q. re_name q \<noteq> n) (px_routes px0) @ [\<lparr>re_name = n, re_port = p, re_host = h, re_backend = b\<rparr>] \<Longrightarrow> E e px"
  shows "wp (add_route_with_tls X fs n p h b ssl) Q E px0"
  using assms add_route_with_tls_entries [of X fs n p h b ssl px0]
  by (cases "add_route_with_tls X fs n p h b ssl px0") (auto simp: wp_def split: sum.split)

lemma wp_run_proxied:
  "wp (run_proxied X c pm ssl)
     (\<lambda>r s'. (\<exists>m. r = RespOk m) \<and> run_done c pm (loopback (case pm_app_port pm of Some p \<Rightarrow> p | None \<Rightarrow> pm_public_port pm)) s s')
     (\<lambda>_ s'. dprocs s' = dprocs s) s"
  unfolding run_proxied_def Let_def wp_bindA wp_onPM
proof (rule wp_spawn_process, goal_cases)
  case (3 m p w')
  then show ?case
    unfolding wp_gets wp_attempt wp_onPx
    by (intro wp_add_route)
      (auto simp: wp_simps run_done_def started_def hm_get_insert intro!: wp_delete_process split: option.split simp: hm_get_remove)
qed simp_all

lemma wp_run_spa:
  "wp (run_spa X c pm ssl)
     (\<lambda>r s'. (\<exists>m. r = RespOk m) \<and> (\<exists>dir. run_done c pm (BSpa dir) s s'))
     (\<lambda>_ s'. dprocs s' = dprocs s) s"
  unfolding run_spa_def wp_bindA wp_gets wp_if wp_err wp_onPx
  by (auto intro!: wp_add_route simp: wp_simps register_spa_def run_done_def hm_get_insert spa_backend_def split: option.split)

lemma handle_run_result:
  "case handle_run X c s of
     (Inr r, s') \<Rightarrow> (\<exists>m. r = RespOk m) \<and>
       (case pc_port_mapping c of
          Some pm0 \<Rightarrow> \<exists>pm c' b. remapped pm0 c pm c' \<and> run_done c' pm b s s' \<and> run_backend c pm b
        | None \<Rightarrow> False)
   | (Inl e, s') \<Rightarrow> dprocs s' = dprocs s"
proof (cases "pc_port_mapping c")
  case None
  then show ?thesis by (simp add: handle_run_def err_def)
next
  case (Some pm0)
  have done_cong: "run_done c' pm b (fst s, w') s' = run_done c' pm b s s'" for c' pm b w' s'
    by (simp add: run_done_def split: option.split)
  let ?E = "\<lambda>_ s'. dprocs s' = dprocs s"
  let ?Q = "\<lambda>r s'. (\<exists>m. r = RespOk m) \<and> (\<exists>pm c' b. remapped pm0 c pm c' \<and> run_done c' pm b s s' \<and> run_backend c pm b)"
  have "wp (handle_run X c) ?Q ?E s"
    unfolding handle_run_def Some option.case wp_bindA
  proof (rule wp_remap_port, goal_cases)
    case (1 pm c' w')
    let ?ssl = "map_option (\<lambda>s. (ssl_cert_path s, ssl_key_path s)) (pc_ssl c)"
    have app: "(case pm_app_port pm of Some p \<Rightarrow> p | None \<Rightarrow> pm_public_port pm) = the (pm_app_port pm)"
      using 1 by (auto simp: remapped_def)
    have "wp (run_spa X c' pm ?ssl) ?Q ?E (fst s, w')" if "pc_spa c"
      using 1 that by (intro wp_mono [OF wp_run_spa]) (auto simp: done_cong run_backend_def)
    moreover have "wp (run_proxied X c' pm ?ssl) ?Q ?E (fst s, w')" if "\<not> pc_spa c"
      using 1 that by (intro wp_mono [OF wp_run_proxied]) (auto simp: done_cong app run_backend_def)
    ultimately show ?case
      unfolding prod.case Let_def wp_if wp_err by simp
  qed simp
  then show ?thesis
    by (cases "handle_run X c s") (auto simp: wp_def Some split: sum.splits)
qed

text \<open>
  C3: a run request is all or nothing for the process table. When it succeeds, one running process has been added under a name
  that was free, and one route leads from the requested port and host to its backend, the old route of the name, if any,
  being replaced. When it fails, at whatever point, the processes are the same as before.
\<close>

theorem run_request_spec:
  "case handle_run X c s of
     (Inr r, s') \<Rightarrow> (\<exists>m. r = RespOk m) \<and>
       (case pc_port_mapping c of
          Some pm0 \<Rightarrow> \<exists>pm c' b. remapped pm0 c pm c' \<and> run_done c' pm b s s' \<and> run_backend c pm b
        | None \<Rightarrow> False)
   | (Inl e, s') \<Rightarrow> dprocs s' = dprocs s"
  by (rule handle_run_result)

text \<open>
  A run request that asks for a certificate without naming a host is refused before anything is started or routed.
\<close>

theorem acme_needs_host:
  assumes "pc_acme c \<noteq> None" and "pc_port_mapping c = Some pm" and "pm_host pm = None"
  shows "\<exists>e w'. handle_run X c s = (Inl e, (fst s, w'))"
proof -
  have "wp (handle_run X c) (\<lambda>_ _. False) (\<lambda>_ s'. fst s' = fst s) s"
    unfolding handle_run_def assms(2) option.case wp_bindA
    using assms(1,3) by (intro wp_remap_port) (auto simp: remapped_def wp_err)
  then show ?thesis
    by (cases "handle_run X c s") (auto simp: wp_def split: sum.splits)
qed

text \<open>
  C39: when the certificate of a proxied process cannot be loaded the process is killed and removed again, but the route that was
  entered for it stays behind.
\<close>

theorem failed_tls_leaves_route:
  assumes "fst (spawn_process X c (ds_process (fst s), snd s)) = Inr m" and "run_proxied X c pm ssl s = (Inl e, s')"
  shows "dprocs s' (pc_name c) = None \<and> (\<exists>r. r \<in> set (droutes s') \<and> re_name r = pc_name c)"
proof -
  obtain t where "spawn_process X c (ds_process (fst s), snd s) = (Inr m, t)"
    using assms(1) by (metis prod.collapse)
  then have spawned: "onPM (spawn_process X c) s = (Inr m, ((fst s)\<lparr>ds_process := fst t\<rparr>, snd t))"
    by (simp add: onPM_def zoom_def)
  have "wp (run_proxied X c pm ssl) (\<lambda>_ _. True)
      (\<lambda>_ s'. dprocs s' (pc_name c) = None \<and> (\<exists>r. r \<in> set (droutes s') \<and> re_name r = pc_name c)) s"
    unfolding run_proxied_def Let_def wp_bindA_value [where m = "onPM (spawn_process X c)" and s = s, OF spawned]
    unfolding wp_bindA wp_gets wp_attempt wp_onPx
  proof (rule wp_add_route, goal_cases)
    case (1 px)
    show ?case unfolding sum.case wp_bindA wp_acme wp_ok ..
  next
    case (2 e px)
    then show ?case
      unfolding sum.case wp_bindA wp_ignore wp_onPM wp_err
      by (intro wp_delete_process) (auto simp: hm_get_remove)
  qed
  from wp_Inl [OF this assms(2)] show ?thesis .
qed

text \<open>
  A second run request for a directory under a name that is taken is refused, but only after the running application's route has
  been replaced by the new one.
\<close>

theorem spa_rerun_replaces_route:
  assumes "fs_is_dir (pc_path c) (w_fs (snd s))" and "dprocs s (pc_name c) = Some p"
  shows "\<exists>s' dir. run_spa X c pm None s = (Inl (already_exists (pc_name c)), s') \<and> dprocs s' = dprocs s \<and>
    droutes s' = filter (\<lambda>r. re_name r \<noteq> pc_name c) (droutes s) @
      [\<lparr>re_name = pc_name c, re_port = pm_public_port pm, re_host = pm_host pm, re_backend = BSpa dir\<rparr>]"
proof -
  let ?dir = "case fs_canon (w_fs (snd s)) (pc_path c) of Inr c \<Rightarrow> c | Inl _ \<Rightarrow> pc_path c"
  have "wp (run_spa X c pm None) (\<lambda>_ _. False)
      (\<lambda>e s'. e = already_exists (pc_name c) \<and> dprocs s' = dprocs s \<and>
        droutes s' = filter (\<lambda>r. re_name r \<noteq> pc_name c) (droutes s) @
          [\<lparr>re_name = pc_name c, re_port = pm_public_port pm, re_host = pm_host pm, re_backend = BSpa ?dir\<rparr>]) s"
    using assms by (simp add: run_spa_def wp_simps wp_plain_route register_spa_def put_route_def spa_backend_def)
  then show ?thesis
    by (cases "run_spa X c pm None s") (auto simp: wp_def split: sum.splits)
qed

subsection \<open>Routes belong to processes\<close>

text \<open>
  Every route leads to a managed process and its port is open. Requests that load no certificate
  files keep this, with the exception of the request that stops the daemon.
\<close>

definition d_owned :: "'e dstate \<Rightarrow> bool" where
  "d_owned s \<longleftrightarrow> (\<forall>r\<in>set (droutes s). dprocs s (re_name r) \<noteq> None) \<and> px_served (ds_proxy (fst s))"

definition keeps_names :: "('e pstate, 'a) act \<Rightarrow> bool" where
  "keeps_names m \<longleftrightarrow> (\<forall>k. preserves (\<lambda>t. procs t k \<noteq> None) m)"

lemma keeps_namesD: "keeps_names m \<Longrightarrow> procs t k \<noteq> None \<Longrightarrow> procs (snd (m t)) k \<noteq> None"
  unfolding keeps_names_def preserves_def by blast

lemma owned_onPM: "keeps_names m \<Longrightarrow> preserves d_owned (onPM m)"
  using keeps_namesD [of m] by (auto simp: preserves_def d_owned_def on_run)

lemma keeps_restart: "keeps_names (restart X n)"
  unfolding keeps_names_def preserves_wp
  by (intro allI impI wp_restart) (auto simp: hm_get_insert)

lemma keeps_spawn: "keeps_names (spawn_process X c)"
  unfolding keeps_names_def preserves_wp
  by (intro allI impI wp_spawn_process) (auto simp: hm_get_insert)

lemma keeps_register: "keeps_names (register_spa X c)"
  unfolding keeps_names_def preserves_wp by (auto simp: register_spa_def wp_simps hm_get_insert)

lemma keeps_update: "keeps_names (update_config n a b c d e f)" "keeps_names (update_oci_config n r ep)"
  unfolding keeps_names_def preserves_wp
  by (auto simp: update_config_def update_oci_config_def wp_simps hm_get_insert split: option.split)

lemma keeps_metric: "keeps_names (pm_metric m)"
  unfolding keeps_names_def preserves_wp by (auto simp: wp_simps)

lemmas owned_process [pres_intros] =
  keeps_restart [THEN owned_onPM] keeps_spawn [THEN owned_onPM] keeps_register [THEN owned_onPM]
  keeps_update [THEN owned_onPM] keeps_metric [THEN owned_onPM, folded d_metric_def]

lemma owned_remove [pres_intros]: "preserves d_owned (onPx (modify (remove_routes n)))"
  by (auto simp: preserves_def d_owned_def on_run px_served_remove remove_routes_entries)

lemma owned_cache [pres_intros]: "preserves d_owned (onPx (modify (set_cache_ttl v)))"
  by (simp add: preserves_def d_owned_def on_run set_cache_ttl_def px_served_def)

lemma owned_onV [pres_intros]: "preserves d_owned (onV m)"
  by (simp add: preserves_def d_owned_def on_run)

lemma owned_onD:
  "(\<And>d. ds_process (f d) = ds_process d \<and> ds_proxy (f d) = ds_proxy d) \<Longrightarrow> preserves d_owned (onD f)"
  by (simp add: preserves_def d_owned_def onD_def)

lemma owned_acme [pres_intros]: "preserves d_owned (acme_if_requested e h)"
  unfolding acme_if_requested_def spawn_acme_issue_def
  by (auto split: option.split intro!: pres_intros owned_onD)

lemma owned_add:
  assumes "d_owned s" and "dprocs s n \<noteq> None"
  shows "d_owned ((fst s)\<lparr>ds_proxy := open_port p (put_route \<lparr>re_name = n, re_port = p, re_host = h, re_backend = b\<rparr> (ds_proxy (fst s)))\<rparr>, snd s)"
  using assms px_served_add [of "ds_proxy (fst s)" undefined undefined n p h b None]
  by (auto simp: d_owned_def add_route_plain put_route_def)

lemma served_plain: "px_served px \<Longrightarrow> px_served (open_port (re_port r) (put_route r px))"
  by (auto simp: px_served_def open_port_def put_route_def Let_def)

lemma owned_run_spa: "d_owned s \<Longrightarrow> wp (run_spa X c pm None) (\<lambda>_. d_owned) (\<lambda>_. d_owned) s"
  using served_plain [of "ds_proxy (fst s)" "\<lparr>re_name = pc_name c, re_port = pm_public_port pm, re_host = pm_host pm,
      re_backend = spa_backend (w_fs (snd s)) (pc_path c)\<rparr>"]
  by (auto simp: run_spa_def wp_simps wp_plain_route register_spa_def d_owned_def put_route_def hm_get_insert split: option.splits)

lemma owned_run_proxied: "d_owned s \<Longrightarrow> wp (run_proxied X c pm None) (\<lambda>_. d_owned) (\<lambda>_. d_owned) s"
  unfolding run_proxied_def Let_def wp_bindA wp_onPM
proof (rule wp_spawn_process, goal_cases)
  case (3 m p w')
  then show ?case
    using served_plain [of "ds_proxy (fst s)" "\<lparr>re_name = pc_name c, re_port = pm_public_port pm, re_host = pm_host pm,
        re_backend = loopback (case pm_app_port pm of None \<Rightarrow> pm_public_port pm | Some p \<Rightarrow> p)\<rparr>"]
    by (auto simp: wp_simps wp_plain_route d_owned_def put_route_def hm_get_insert split: option.splits)
qed (simp_all add: d_owned_def)

lemma owned_handle_run:
  assumes "pc_ssl c = None"
  shows "preserves d_owned (handle_run X c)"
  unfolding preserves_wp
proof (intro allI impI, cases "pc_port_mapping c")
  case None
  fix s :: "'a dstate" assume "d_owned s"
  with None show "wp (handle_run X c) (\<lambda>_. d_owned) (\<lambda>_. d_owned) s"
    by (simp add: handle_run_def wp_simps)
next
  case (Some pm)
  fix s :: "'a dstate" assume own: "d_owned s"
  have same: "d_owned (fst s, w')" for w' using own by (simp add: d_owned_def)
  show "wp (handle_run X c) (\<lambda>_. d_owned) (\<lambda>_. d_owned) s"
    unfolding handle_run_def Some option.case wp_bindA assms option.map(1) Let_def
    by (rule wp_remap_port) (simp_all add: same wp_err owned_run_spa owned_run_proxied)
qed

text \<open>
  C15: The route update of an update request cannot fail, so the branch that reverts the configuration is never taken: the
  routes of the name are replaced by one that follows the configured port mapping, and the processes are untouched. When the mapping has no
  application port the backend of a process is the public port itself, on which the proxy listens.
\<close>

theorem update_route_spec:
  "\<exists>s'. update_route X n old s = (Inr (), s') \<and> ds_process (fst s') = ds_process (fst s) \<and>
    droutes s' = filter (\<lambda>r. re_name r \<noteq> n) (droutes s) @
      (case config_named n s of
         None \<Rightarrow> []
       | Some cfg \<Rightarrow> (case pc_port_mapping cfg of
           None \<Rightarrow> []
         | Some pm \<Rightarrow> [\<lparr>re_name = n, re_port = pm_public_port pm, re_host = pm_host pm,
             re_backend = (if pc_spa cfg then spa_backend (w_fs (snd s)) (pc_path cfg)
               else loopback (case pm_app_port pm of Some p \<Rightarrow> p | None \<Rightarrow> pm_public_port pm))\<rparr>]))"
proof -
  have cfg: "config_named n ((fst s)\<lparr>ds_proxy := px\<rparr>, snd s) = config_named n s" for px
    by (simp add: config_named_def)
  let ?Q = "\<lambda>s'. ds_process (fst s') = ds_process (fst s) \<and>
    droutes s' = filter (\<lambda>r. re_name r \<noteq> n) (droutes s) @
      (case config_named n s of
         None \<Rightarrow> []
       | Some cfg \<Rightarrow> (case pc_port_mapping cfg of
           None \<Rightarrow> []
         | Some pm \<Rightarrow> [\<lparr>re_name = n, re_port = pm_public_port pm, re_host = pm_host pm,
             re_backend = (if pc_spa cfg then spa_backend (w_fs (snd s)) (pc_path cfg)
               else loopback (case pm_app_port pm of Some p \<Rightarrow> p | None \<Rightarrow> pm_public_port pm))\<rparr>]))"
  have "wp (update_route X n old) (\<lambda>_. ?Q) (\<lambda>_ _. False) s"
    by (simp add: update_route_def wp_simps cfg add_route_def wp_plain_route put_route_def remove_routes_entries update_backend_def
        split: option.split)
  then show ?thesis
    by (cases "update_route X n old s") (auto simp: wp_def split: sum.splits)
qed

lemma config_named_known:
  assumes "d_inv s" and "config_named n s = Some cfg"
  shows "dprocs s n \<noteq> None"
proof -
  have "cfg \<in> set (get_configs (ds_process (fst s)))" and "pc_name cfg = n"
    using find_Some_in [of _ _ cfg] assms(2) by (auto simp: config_named_def)
  then obtain k p where "(k, p) \<in> set (pr_processes (ds_process (fst s)))" and "mp_config p = cfg"
    by (auto simp: get_configs_def)
  with assms(1) \<open>pc_name cfg = n\<close> have "(n, p) \<in> set (pr_processes (ds_process (fst s)))"
    by (auto simp: d_inv_def pr_inv_upto_def)
  then show ?thesis by (auto simp: map_of_eq_None_iff image_iff intro: bexI [of _ "(n, p)"])
qed

definition d_good :: "'e dstate \<Rightarrow> bool" where
  "d_good s \<longleftrightarrow> d_inv s \<and> d_owned s"

lemma goodI: "preserves d_inv m \<Longrightarrow> preserves d_owned m \<Longrightarrow> preserves d_good m"
  by (simp add: preserves_def d_good_def)

lemma update_route_inv: "preserves d_inv (update_route X n old)"
  unfolding update_route_def add_route_def by (intro pres_intros)

lemma update_route_good: "preserves d_good (update_route X n old)"
proof (unfold preserves_def, intro allI impI)
  fix s :: "'a dstate" assume good: "d_good s"
  have known: "config_named n s = Some cfg \<Longrightarrow> dprocs s n \<noteq> None" for cfg
    using good config_named_known [of s n cfg] by (simp add: d_good_def)
  let ?px = "remove_routes n (ds_proxy (fst s))"
  have served: "px_served ?px" using good by (simp add: d_good_def d_owned_def px_served_remove)
  have cfg: "config_named n ((fst s)\<lparr>ds_proxy := px\<rparr>, snd s) = config_named n s" for px
    by (simp add: config_named_def)
  have "wp (update_route X n old) (\<lambda>_. d_owned) (\<lambda>_. d_owned) s"
    using good known served
    by (auto simp: update_route_def wp_simps add_route_def wp_plain_route cfg d_good_def d_owned_def put_route_def remove_routes_entries
        split: option.splits
        intro!: served_plain [of ?px "\<lparr>re_name = n, re_port = p, re_host = h, re_backend = b\<rparr>" for p h b, simplified put_route_def, simplified])
  then show "d_good (snd (update_route X n old s))"
    using good preservesD [OF update_route_inv, of s X n old] by (simp add: d_good_def wp_snd)
qed

lemma pull_update_good: "preserves d_good (pull_update X n i)"
  unfolding pull_update_def by (rule goodI; intro pres_intros; simp)

lemma restart_updated_good: "preserves d_good (restart_updated X n)"
  unfolding restart_updated_def by (rule goodI; intro pres_intros)

lemma update_leaf_good:
  "preserves d_good (onPM (update_config n a b c d e f))" "preserves d_good (onPM (update_oci_config n r ep))"
  "preserves d_good (lift_result r')"
  by (rule goodI; intro pres_intros)+

lemma handle_update_good: "preserves d_good (handle_update X n p ssl acme ef args i)"
  unfolding handle_update_def Let_def
  by (intro preserves_bindA preserves_if preserves_ok preserves_option preserves_prod preserves_gets update_route_good
      pull_update_good restart_updated_good update_leaf_good)

lemma keeps_del: "preserves d_owned (handle_del X n)"
  unfolding preserves_wp handle_del_def wp_bindA wp_onPx wp_modify wp_attempt wp_onPM
  by (intro allI impI wp_delete_process)
    (auto simp: wp_simps contains_not_found d_owned_def hm_get_remove remove_routes_entries px_served_remove)

definition plain_request :: "request \<Rightarrow> bool" where
  "plain_request req \<longleftrightarrow> (case req of ReqRun c \<Rightarrow> pc_ssl c = None | ReqKill \<Rightarrow> False | _ \<Rightarrow> True)"

lemma dispatch_owned:
  assumes "plain_request req"
  shows "(\<exists>n p ssl a ef args i. req = ReqUpdate n p ssl a ef args i) \<or> preserves d_owned (dispatch X req)"
  using assms
  by (cases req)
    (auto simp: plain_request_def as_ok_def handle_set_cache_ttl_def handle_save_def handle_link_def handle_unlink_def reload_def
      handle_metrics_enable_def handle_metrics_disable_def
      intro!: owned_handle_run keeps_del pres_intros owned_onD)

lemma dispatch_good: "plain_request req \<Longrightarrow> preserves d_good (dispatch X req)"
  using dispatch_owned [of req X] goodI [OF dispatch_inv] handle_update_good by fastforce

lemma request_good: "plain_request req \<Longrightarrow> d_good s \<Longrightarrow> d_good (snd (handle_request X req s))"
proof -
  assume plain: "plain_request req" and good: "d_good s"
  have fs: "d_good (fst s, (snd s)\<lparr>w_fs := fs\<rparr>)" for fs
    using good d_inv_fs [of s fs] by (simp add: d_good_def d_owned_def)
  show ?thesis
    using handle_request_run [of req X s] set_default_registry_run [of X _ s] fs preservesD [OF dispatch_good [OF plain] good]
    by (metis snd_conv)
qed



section \<open>The statements on concrete inputs\<close>

definition web_port :: port_mapping where
  "web_port = \<lparr>pm_host = None, pm_public_port = 80, pm_app_port = Some 8000\<rparr>"

theorem acme_needs_host_witness:
  "\<exists>e w'. handle_run sample_xt (sample_config\<lparr>pc_acme := Some ''a@b'', pc_port_mapping := Some web_port\<rparr>) (daemon_new, sample_world) =
     (Inl e, (daemon_new, w'))"
  using acme_needs_host [of "sample_config\<lparr>pc_acme := Some ''a@b'', pc_port_mapping := Some web_port\<rparr>" web_port sample_xt
      "(daemon_new, sample_world)"]
  by (simp add: web_port_def)

definition no_cert_xt :: "nat xt" where
  "no_cert_xt = sample_xt\<lparr>x_parse_cert := (\<lambda>_. Some ''not a certificate'')\<rparr>"

lemma no_cert_route: "\<not> is_ok (fst (add_route_with_tls no_cert_xt fs n p h b (Some ck) px))"
  by (cases ck)
    (auto simp: add_route_with_tls_def fst_bindA install_cert_def add_cert_def no_cert_xt_def Let_def
      split: sum.splits option.splits prod.splits)

theorem failed_tls_leaves_route_witness:
  "(case run_proxied no_cert_xt sample_config web_port (Some (''c'', ''k'')) (daemon_new, sample_world) of
      (Inl e, s') \<Rightarrow> dprocs s' ''web'' = None \<and> (\<exists>r. r \<in> set (droutes s') \<and> re_name r = ''web'')
    | _ \<Rightarrow> False)"
proof -
  let ?s = "(daemon_new, sample_world)" and ?ssl = "Some (''c'', ''k'')"
  have "is_ok (fst (spawn_process no_cert_xt sample_config (ds_process daemon_new, sample_world)))"
    by code_simp
  then obtain m where m: "fst (spawn_process no_cert_xt sample_config (ds_process (fst ?s), snd ?s)) = Inr m"
    by (auto simp: is_ok_iff)
  have "wp (run_proxied no_cert_xt sample_config web_port ?ssl) (\<lambda>_ _. False) (\<lambda>_ _. True) ?s"
    unfolding run_proxied_def Let_def wp_bindA wp_gets wp_attempt wp_onPx
  proof (rule wp_any, goal_cases)
    case (1 msg s1)
    show ?case
      by (rule wp_fails [OF no_cert_route]) (simp add: wp_simps wp_True)
  qed simp
  then obtain e s' where run: "run_proxied no_cert_xt sample_config web_port ?ssl ?s = (Inl e, s')"
    by (cases "run_proxied no_cert_xt sample_config web_port ?ssl ?s") (auto simp: wp_def split: sum.splits)
  show ?thesis
    unfolding run using failed_tls_leaves_route [OF m run] by (simp add: sample_config_def)
qed

theorem spa_rerun_replaces_route_witness:
  "\<exists>s'. run_spa sample_xt (sample_config\<lparr>pc_path := ''/home''\<rparr>) web_port None
       (daemon_new\<lparr>ds_process := one_app\<rparr>, sample_world) = (Inl (already_exists ''web''), s') \<and>
     map re_name (droutes s') = [''web'']"
proof -
  let ?c = "sample_config\<lparr>pc_path := ''/home''\<rparr>" and ?s = "(daemon_new\<lparr>ds_process := one_app\<rparr>, sample_world)"
  have "fs_is_dir (pc_path ?c) (w_fs (snd ?s))" by code_simp
  moreover have "dprocs ?s (pc_name ?c) = Some crashed_app" by (simp add: one_app_def sample_config_def)
  ultimately obtain s' dir where run: "run_spa sample_xt ?c web_port None ?s = (Inl (already_exists (pc_name ?c)), s')"
    and routes: "droutes s' = filter (\<lambda>r. re_name r \<noteq> pc_name ?c) (droutes ?s) @
      [\<lparr>re_name = pc_name ?c, re_port = pm_public_port web_port, re_host = pm_host web_port, re_backend = BSpa dir\<rparr>]"
    using spa_rerun_replaces_route [of ?c ?s crashed_app sample_xt web_port] by blast
  have "map re_name (droutes s') = [''web'']" "pc_name ?c = ''web''"
    unfolding routes by (simp_all add: daemon_new_def proxy_new_def sample_config_def)
  with run show ?thesis by metis
qed

end
