(* ===== verification/Acme.thy ===== *)
theory Acme
  imports Tls
begin

text \<open>
  \<open>src/acme.rs\<close>: the store of HTTP-01 challenge answers that the proxy reads, the issuing of a
  certificate for a host, and one round of the renewal loop. The ACME client library, its JSON
  credentials and OpenSSL's dates are the fields of the record \<open>acme_api\<close>; an order and an account are
  handles.
\<close>

section \<open>Challenge store\<close>

type_synonym challenge_store = "(string, string) hmap"

definition challenge_set :: "string \<Rightarrow> string \<Rightarrow> challenge_store \<Rightarrow> challenge_store" where
  "challenge_set token key_auth st = hm_insert token key_auth st"

definition challenge_get :: "challenge_store \<Rightarrow> string \<Rightarrow> string option" where
  "challenge_get st token = hm_get st token"

definition challenge_remove :: "string \<Rightarrow> challenge_store \<Rightarrow> challenge_store" where
  "challenge_remove token st = hm_remove token st"

interpretation challenges: keyed_store challenge_get challenge_set challenge_remove "\<lambda>_. True"
  by unfold_locales (simp_all add: challenge_get_def challenge_set_def challenge_remove_def fun_eq_iff hm_get_insert hm_get_remove)

section \<open>The client library\<close>

datatype order_status = OrdPending | OrdReady | OrdProcessing | OrdValid | OrdInvalid

record challenge =
  cg_token :: string
  cg_key_auth :: string
  cg_url :: string

record authorization =
  az_valid :: bool
  az_http01 :: "challenge option"

text \<open>
  \<open>ac_not_after\<close>: the end of validity of a certificate text, if it parses; \<open>ac_days_from_now\<close>: a
  date relative to the clock; the rest are the calls of the client library in the order of use.
\<close>

record 'e acme_api =
  ac_not_after :: "string \<Rightarrow> int option"
  ac_days_from_now :: "nat \<Rightarrow> 'e \<Rightarrow> int result"
  ac_builder :: "unit result"
  ac_parse_creds :: "string \<Rightarrow> string result"
  ac_show_creds :: "string \<Rightarrow> string result"
  ac_from_credentials :: "string \<Rightarrow> ('e, nat) act"
  ac_create :: "string \<Rightarrow> ('e, nat \<times> string) act"
  ac_new_order :: "nat \<Rightarrow> string \<Rightarrow> ('e, nat) act"
  ac_auth_urls :: "nat \<Rightarrow> 'e \<Rightarrow> string list"
  ac_fetch_auth :: "string \<Rightarrow> ('e, authorization) act"
  ac_set_ready :: "challenge \<Rightarrow> ('e, unit) act"
  ac_poll_ready :: "nat \<Rightarrow> ('e, order_status) act"
  ac_finalize :: "nat \<Rightarrow> ('e, string) act"
  ac_poll_certificate :: "nat \<Rightarrow> ('e, string) act"

record 'e acme_state =
  am_tokens :: challenge_store
  am_certs :: cert_store
  am_world :: "'e world"

definition amT :: "(challenge_store \<Rightarrow> challenge_store) \<Rightarrow> ('e acme_state, unit) act" where
  "amT f = modify (\<lambda>s. s\<lparr>am_tokens := f (am_tokens s)\<rparr>)"

definition amC :: "(cert_store, 'a) act \<Rightarrow> ('e acme_state, 'a) act" where
  "amC = zoom am_certs (\<lambda>c s. s\<lparr>am_certs := c\<rparr>)"

definition amW :: "('e world, 'a) act \<Rightarrow> ('e acme_state, 'a) act" where
  "amW = zoom am_world (\<lambda>w s. s\<lparr>am_world := w\<rparr>)"

section \<open>Issuing\<close>

definition certs_dir :: string where "certs_dir = ''/var/run/nyrun/certs''"
definition renew_before_days :: nat where "renew_before_days = 30"

definition cert_file :: "string \<Rightarrow> string" where
  "cert_file hostname = path_join (path_join certs_dir hostname) ''cert.pem''"

definition key_file :: "string \<Rightarrow> string" where
  "key_file hostname = path_join (path_join certs_dir hostname) ''key.pem''"

definition account_file :: string where
  "account_file = path_join certs_dir ''account.json''"

text \<open>The end of validity of the certificate on disk, if both files exist and the certificate is read and parsed.\<close>

definition existing_cert :: "'e acme_api \<Rightarrow> string \<Rightarrow> fsys \<Rightarrow> int option" where
  "existing_cert A hostname fs =
     (if fs_exists (cert_file hostname) fs \<and> fs_exists (key_file hostname) fs then
        (case fst (fs_read (cert_file hostname) fs) of
           Inl _ \<Rightarrow> None
         | Inr pem \<Rightarrow> ac_not_after A pem)
      else None)"

definition time_error :: "string \<Rightarrow> string" where
  "time_error e = ''time error: '' @ e"

text \<open>Whether the certificate on disk is kept: it is valid for more than the renewal margin.\<close>

definition still_valid :: "'e acme_api \<Rightarrow> string \<Rightarrow> ('e acme_state, bool) act" where
  "still_valid A hostname =
     bindA (gets (\<lambda>s. existing_cert A hostname (w_fs (am_world s)))) (\<lambda>x.
       case x of
         None \<Rightarrow> ok False
       | Some not_after \<Rightarrow>
           bindA (gets (\<lambda>s. ac_days_from_now A 0 (w_x (am_world s)))) (\<lambda>now.
           bindA (map_err time_error (lift_result now)) (\<lambda>_.
           bindA (gets (\<lambda>s. ac_days_from_now A renew_before_days (w_x (am_world s)))) (\<lambda>r.
           bindA (map_err time_error (lift_result r)) (\<lambda>renew_at. ok (not_after > renew_at))))))"

definition load_existing :: "'e xt \<Rightarrow> string \<Rightarrow> ('e acme_state, unit) act" where
  "load_existing X hostname =
     bindA (gets (\<lambda>s. w_fs (am_world s))) (\<lambda>fs.
       amC (add_cert X fs hostname (cert_file hostname) (key_file hostname)))"

definition acme_account :: "'e acme_api \<Rightarrow> string \<Rightarrow> ('e acme_state, nat) act" where
  "acme_account A email =
     bindA (gets (\<lambda>s. fs_exists account_file (w_fs (am_world s)))) (\<lambda>known.
     if known then
       bindA (map_err (\<lambda>e. ''failed to read account: '' @ e) (amW (onF (fs_read account_file)))) (\<lambda>creds_json.
       bindA (map_err (\<lambda>e. ''failed to parse account: '' @ e) (lift_result (ac_parse_creds A creds_json))) (\<lambda>creds.
       bindA (map_err (\<lambda>e. ''failed to create account builder: '' @ e) (lift_result (ac_builder A))) (\<lambda>_.
       map_err (\<lambda>e. ''failed to load account: '' @ e) (amW (onX (ac_from_credentials A creds))))))
     else
       bindA (map_err (\<lambda>e. ''failed to create account builder: '' @ e) (lift_result (ac_builder A))) (\<lambda>_.
       bindA (map_err (\<lambda>e. ''failed to create ACME account: '' @ e) (amW (onX (ac_create A (''mailto:'' @ email))))) (\<lambda>(account, creds).
       bindA (map_err (\<lambda>e. ''failed to create certs dir: '' @ e) (amW (onF (fs_create_dir_all certs_dir)))) (\<lambda>_.
       bindA (map_err (\<lambda>e. ''serialize error: '' @ e) (lift_result (ac_show_creds A creds))) (\<lambda>creds_json.
       bindA (map_err (\<lambda>e. ''failed to save account: '' @ e) (amW (onF (fs_write account_file creds_json)))) (\<lambda>_.
       ok account))))))"

text \<open>The loop over the authorizations: the tokens stored, in order.\<close>

fun authorize :: "'e acme_api \<Rightarrow> string list \<Rightarrow> string list \<Rightarrow> ('e acme_state, string list) act" where
  "authorize A [] tokens = ok tokens"
| "authorize A (u # us) tokens =
     bindA (map_err (\<lambda>e. ''authorization error: '' @ e) (amW (onX (ac_fetch_auth A u)))) (\<lambda>auth.
     if az_valid auth then authorize A us tokens
     else (case az_http01 auth of
             None \<Rightarrow> err ''no HTTP-01 challenge found''
           | Some ch \<Rightarrow>
               bindA (amT (challenge_set (cg_token ch) (cg_key_auth ch))) (\<lambda>_.
               bindA (map_err (\<lambda>e. ''failed to set challenge ready: '' @ e) (amW (onX (ac_set_ready A ch)))) (\<lambda>_.
               authorize A us (tokens @ [cg_token ch])))))"

definition cleanup_tokens :: "string list \<Rightarrow> ('e acme_state, unit) act" where
  "cleanup_tokens tokens = amT (fold challenge_remove tokens)"

text \<open>
  Wait for the order, removing the tokens on the way out: by a spawned task when polling fails, here
  otherwise.
\<close>

definition await_order :: "'e acme_api \<Rightarrow> nat \<Rightarrow> string list \<Rightarrow> ('e acme_state, unit) act" where
  "await_order A order tokens =
     bindA (attempt (amW (onX (ac_poll_ready A order)))) (\<lambda>r.
       case r of
         Inl e \<Rightarrow> bindA (cleanup_tokens tokens) (\<lambda>_. err (''order poll_ready failed: '' @ e))
       | Inr status \<Rightarrow>
           bindA (cleanup_tokens tokens) (\<lambda>_.
           if status = OrdInvalid then err ''ACME order became invalid'' else ok ()))"

definition save_cert :: "'e xt \<Rightarrow> string \<Rightarrow> string \<Rightarrow> string \<Rightarrow> ('e acme_state, unit) act" where
  "save_cert X hostname cert_chain_pem key_pem =
     bindA (map_err (\<lambda>e. ''failed to create cert dir: '' @ e) (amW (onF (fs_create_dir_all (path_join certs_dir hostname))))) (\<lambda>_.
     bindA (map_err (\<lambda>e. ''failed to write cert: '' @ e) (amW (onF (fs_write (cert_file hostname) cert_chain_pem)))) (\<lambda>_.
     bindA (map_err (\<lambda>e. ''failed to write key: '' @ e) (amW (onF (fs_write (key_file hostname) key_pem)))) (\<lambda>_.
     amC (add_cert_from_pem X hostname cert_chain_pem key_pem))))"

definition order_cert :: "'e xt \<Rightarrow> 'e acme_api \<Rightarrow> string \<Rightarrow> nat \<Rightarrow> ('e acme_state, unit) act" where
  "order_cert X A hostname account =
     bindA (map_err (\<lambda>e. ''failed to create order: '' @ e) (amW (onX (ac_new_order A account hostname)))) (\<lambda>order.
     bindA (gets (\<lambda>s. ac_auth_urls A order (w_x (am_world s)))) (\<lambda>urls.
     bindA (authorize A urls []) (\<lambda>tokens.
     bindA (await_order A order tokens) (\<lambda>_.
     bindA (map_err (\<lambda>e. ''failed to finalize order: '' @ e) (amW (onX (ac_finalize A order)))) (\<lambda>key_pem.
     bindA (map_err (\<lambda>e. ''failed to get certificate: '' @ e) (amW (onX (ac_poll_certificate A order)))) (\<lambda>cert_chain_pem.
     save_cert X hostname cert_chain_pem key_pem))))))"

definition request_cert :: "'e xt \<Rightarrow> 'e acme_api \<Rightarrow> string \<Rightarrow> string \<Rightarrow> ('e acme_state, unit) act" where
  "request_cert X A email hostname = bindA (acme_account A email) (order_cert X A hostname)"

definition issue_cert :: "'e xt \<Rightarrow> 'e acme_api \<Rightarrow> string \<Rightarrow> string \<Rightarrow> ('e acme_state, unit) act" where
  "issue_cert X A email hostname =
     bindA (still_valid A hostname) (\<lambda>keep.
     if keep then load_existing X hostname else request_cert X A email hostname)"

text \<open>One round of the renewal loop, which runs every twelve hours: a failure for one host does not stop the others.\<close>

definition renewal_round :: "'e xt \<Rightarrow> 'e acme_api \<Rightarrow> (string \<times> string) list \<Rightarrow> ('e acme_state, unit) act" where
  "renewal_round X A configs = forA configs (\<lambda>(hostname, email). ignore (issue_cert X A email hostname))"

section \<open>Specification\<close>

lemma wp_amT [wp_simps]: "wp (amT f) Q E s = Q () (s\<lparr>am_tokens := f (am_tokens s)\<rparr>)"
  by (simp add: amT_def wp_simps)

lemma wp_amC [wp_simps]:
  "wp (amC m) Q E s = wp m (\<lambda>a c. Q a (s\<lparr>am_certs := c\<rparr>)) (\<lambda>e c. E e (s\<lparr>am_certs := c\<rparr>)) (am_certs s)"
  by (simp add: amC_def wp_zoom)

lemma wp_amW:
  "wp (amW m) Q E s = wp m (\<lambda>a w. Q a (s\<lparr>am_world := w\<rparr>)) (\<lambda>e w. E e (s\<lparr>am_world := w\<rparr>)) (am_world s)"
  by (simp add: amW_def wp_zoom)

lemma wp_talk:
  "(\<And>a w. Q a (s\<lparr>am_world := w\<rparr>)) \<Longrightarrow> (\<And>e w. E e (s\<lparr>am_world := w\<rparr>)) \<Longrightarrow> wp (amW m) Q E s"
  by (simp add: wp_amW wp_any)

text \<open>Tokens and certificates are untouched by everything that only talks to the world.\<close>

definition stores_are :: "challenge_store \<Rightarrow> cert_store \<Rightarrow> 'e acme_state \<Rightarrow> bool" where
  "stores_are T C s \<longleftrightarrow> am_tokens s = T \<and> am_certs s = C"

lemma stores_amW [pres_intros]: "preserves (stores_are T C) (amW m)"
  by (simp add: preserves_def amW_def zoom_def stores_are_def split: prod.split)

lemma stores_account: "preserves (stores_are T C) (acme_account A email)"
  unfolding acme_account_def by (intro pres_intros)

text \<open>The loop only adds answers under the tokens it returns; the certificates stay.\<close>

lemma wp_authorize:
  "wp (authorize A us ts)
     (\<lambda>ts' s'. am_certs s' = am_certs s \<and> set ts \<subseteq> set ts' \<and>
        (\<forall>t. t \<in> set ts' \<or> challenge_get (am_tokens s') t = challenge_get (am_tokens s) t))
     (\<lambda>_ s'. am_certs s' = am_certs s) s"
proof (induction us arbitrary: ts s)
  case (Cons u us)
  have next_url: "wp (authorize A us ts1)
     (\<lambda>ts' s'. am_certs s' = am_certs s \<and> set ts \<subseteq> set ts' \<and>
        (\<forall>t. t \<in> set ts' \<or> challenge_get (am_tokens s') t = challenge_get (am_tokens s) t))
     (\<lambda>_ s'. am_certs s' = am_certs s) s1"
    if "am_certs s1 = am_certs s" "set ts \<subseteq> set ts1"
      "\<forall>t. t \<in> set ts1 \<or> challenge_get (am_tokens s1) t = challenge_get (am_tokens s) t" for ts1 s1
    by (rule wp_mono [OF Cons.IH [of ts1 s1]]) (use that in \<open>auto, metis subsetD\<close>)
  show ?case
    by (auto simp: wp_simps challenges.get_put split: option.split if_splits intro!: wp_talk next_url)
qed (simp add: wp_simps)

lemma challenge_get_removed:
  "challenge_get (fold challenge_remove ts m) t = (if t \<in> set ts then None else challenge_get m t)"
  by (rule challenges.get_del_all) simp

text \<open>
  What a finished call has done to the stores: only the host's own certificate may differ; after an
  error the certificates are as before; after a success the host has a certificate whose key is the
  one on disk, and no challenge answer has been added.
\<close>

definition issued :: "string \<Rightarrow> 'e acme_state \<Rightarrow> 'e acme_state \<Rightarrow> bool" where
  "issued h s s' \<longleftrightarrow>
     cert_get (am_certs s') = (cert_get (am_certs s))(h := cert_get (am_certs s') h) \<and>
     (\<exists>c. cert_get (am_certs s') h = Some c \<and> fs_content (w_fs (am_world s')) (key_file h) = Some (tc_key c)) \<and>
     challenge_get (am_tokens s') \<subseteq>\<^sub>m challenge_get (am_tokens s)"

lemma wp_load_existing:
  "wp (load_existing X h) (\<lambda>_. issued h s) (\<lambda>_ s'. am_certs s' = am_certs s) s"
proof -
  have content: "fst (fs_read p fs) = Inr d \<Longrightarrow> fs_content fs p = Some d" for p d fs
    by (auto simp: fs_read_def guarded_def fs_content_def split: option.splits node.splits)
  have "wp (add_cert X fs h (cert_file h) (key_file h))
      (\<lambda>_ c. issued h s (s\<lparr>am_certs := c\<rparr>)) (\<lambda>_ c. c = am_certs s) (am_certs s)"
    if "fs = w_fs (am_world s)" for fs
    using that
    by (auto simp: wp_def add_cert_def issued_def certs.get_put content split: sum.split option.split)
  then show ?thesis
    by (auto simp: load_existing_def wp_simps elim: wp_mono)
qed

lemma wp_save_cert:
  "challenge_get (am_tokens s) \<subseteq>\<^sub>m challenge_get (am_tokens s0) \<Longrightarrow> am_certs s = am_certs s0 \<Longrightarrow>
   wp (save_cert X h chain key) (\<lambda>_. issued h s0) (\<lambda>_ s'. am_certs s' = am_certs s0) s"
proof -
  assume T: "challenge_get (am_tokens s) \<subseteq>\<^sub>m challenge_get (am_tokens s0)" and C: "am_certs s = am_certs s0"
  have last: "wp (amC (add_cert_from_pem X h chain key)) (\<lambda>_. issued h s0) (\<lambda>_ s'. am_certs s' = am_certs s0) t"
    if "stores_are (am_tokens s) (am_certs s) t" "fs_content (w_fs (am_world t)) (key_file h) = Some key" for t
    using that T C unfolding wp_amC
    by (auto simp: wp_def add_cert_from_pem_def issued_def stores_are_def certs.get_put split: sum.split option.split list.split)
  have wrote: "wp (amW (onF (fs_write p d))) (\<lambda>_ t'. stores_are T C t' \<and> fs_content (w_fs (am_world t')) p = Some d)
      (\<lambda>_. stores_are T C) t" if "stores_are T C t" for p d T C and t :: "'a acme_state"
    using that unfolding wp_amW wp_onF by (auto simp: wp_def stores_are_def dest: fs_read_after_write split: prod.split sum.split)
  have keep: "wp (amW m) (\<lambda>_. stores_are T C) (\<lambda>_. stores_are T C) t" if "stores_are T C t" for m T C and t :: "'a acme_state"
    using preservesD [OF stores_amW that] by (simp add: wp_snd)
  show ?thesis
    unfolding save_cert_def wp_bindA wp_map_err
    by (rule wp_mono [OF keep [of "am_tokens s" "am_certs s"]], simp add: stores_are_def,
        rule wp_mono [OF wrote], assumption, rule wp_mono [OF wrote], blast, rule last)
      (auto simp: stores_are_def C)
qed

lemma wp_await_order:
  "wp (await_order A order ts)
     (\<lambda>_ s'. am_certs s' = am_certs s \<and> challenge_get (am_tokens s') = challenge_get (fold challenge_remove ts (am_tokens s)))
     (\<lambda>_ s'. am_certs s' = am_certs s) s"
  unfolding await_order_def cleanup_tokens_def wp_bindA wp_attempt
  by (rule wp_talk) (auto simp: wp_simps)

lemma wp_order_cert:
  assumes "stores_are (am_tokens s) (am_certs s) t"
  shows "wp (order_cert X A h account) (\<lambda>_. issued h s) (\<lambda>_ s'. am_certs s' = am_certs s) t"
  unfolding order_cert_def wp_bindA wp_map_err wp_gets
proof (rule wp_talk, goal_cases)
  case (1 order w)
  show ?case
    by (rule wp_mono [OF wp_authorize], rule wp_mono [OF wp_await_order], intro wp_talk wp_save_cert)
      (use assms in \<open>auto simp: stores_are_def map_le_def challenge_get_removed split: if_splits\<close>)
qed (use assms in \<open>simp add: stores_are_def\<close>)

lemma wp_request_cert:
  "wp (request_cert X A email h) (\<lambda>_. issued h s) (\<lambda>_ s'. am_certs s' = am_certs s) s"
  unfolding request_cert_def wp_bindA
  by (rule wp_mono [OF preserves_wpD [OF stores_account, of "am_tokens s" "am_certs s"]])
    (simp_all add: wp_order_cert stores_are_def)

lemma wp_issue_cert:
  "wp (issue_cert X A email h) (\<lambda>_. issued h s) (\<lambda>_ s'. am_certs s' = am_certs s) s"
  unfolding issue_cert_def still_valid_def wp_bindA wp_gets wp_option wp_map_err wp_lift_result wp_ok
  by (simp add: wp_request_cert wp_load_existing split: option.split sum.split)

text \<open>
  C10: Issuing a certificate for a host changes no other host's certificate. When it fails the
  certificate store is as it was; when it succeeds the host has a certificate whose private key is
  the one stored on disk, and every challenge answer published on the way has been withdrawn.
\<close>

theorem issue_cert_spec:
  "case issue_cert X A email h s of (r, s') \<Rightarrow>
     cert_get (am_certs s') = (cert_get (am_certs s))(h := cert_get (am_certs s') h) \<and>
     (case r of
        Inl e \<Rightarrow> am_certs s' = am_certs s
      | Inr _ \<Rightarrow> (\<exists>c. cert_get (am_certs s') h = Some c \<and> fs_content (w_fs (am_world s')) (key_file h) = Some (tc_key c)) \<and>
                challenge_get (am_tokens s') \<subseteq>\<^sub>m challenge_get (am_tokens s))"
  using wp_issue_cert [of X A email h s] by (auto simp: wp_def issued_def split: prod.split sum.splits)

lemma issued_others:
  "issued h s s' \<Longrightarrow> n \<noteq> h \<Longrightarrow> cert_get (am_certs s') n = cert_get (am_certs s) n"
  by (metis fun_upd_apply issued_def)

lemma issue_cert_others:
  "cert_get (am_certs (snd (issue_cert X A email h s))) n = cert_get (am_certs s) n \<or>
   n = h \<and> cert_get (am_certs (snd (issue_cert X A email h s))) n \<noteq> None"
proof -
  have "wp (issue_cert X A email h) (\<lambda>_ s'. issued h s s' \<or> am_certs s' = am_certs s) (\<lambda>_ s'. issued h s s' \<or> am_certs s' = am_certs s) s"
    by (rule wp_mono [OF wp_issue_cert]) simp_all
  then have "issued h s (snd (issue_cert X A email h s)) \<or> am_certs (snd (issue_cert X A email h s)) = am_certs s"
    by (simp add: wp_snd)
  then show ?thesis
    using issued_others by (cases "n = h") (auto simp: issued_def)
qed

text \<open>
  A round of renewals runs to its end whatever fails in it; no host loses its certificate, and
  hosts that are not registered for renewal keep the one they have.
\<close>

theorem renewal_round_keeps_certs:
  "\<exists>s'. renewal_round X A configs s = (Inr (), s') \<and>
     dom (cert_get (am_certs s)) \<subseteq> dom (cert_get (am_certs s')) \<and>
     cert_get (am_certs s') |` (- set (map fst configs)) = cert_get (am_certs s) |` (- set (map fst configs))"
proof (induction configs arbitrary: s)
  case (Cons c configs)
  obtain h email where c: "c = (h, email)" by (cases c)
  let ?s1 = "snd (issue_cert X A email h s)"
  obtain s' where s': "renewal_round X A configs ?s1 = (Inr (), s')"
    "dom (cert_get (am_certs ?s1)) \<subseteq> dom (cert_get (am_certs s'))"
    "cert_get (am_certs s') |` (- set (map fst configs)) = cert_get (am_certs ?s1) |` (- set (map fst configs))"
    using Cons.IH by blast
  have "dom (cert_get (am_certs s)) \<subseteq> dom (cert_get (am_certs s'))"
    using s'(2) issue_cert_others [of X A email h s] by (metis (no_types, lifting) domIff subset_iff)
  moreover have "cert_get (am_certs s') |` (- set (map fst (c # configs))) = cert_get (am_certs s) |` (- set (map fst (c # configs)))"
    using s'(3) issue_cert_others [of X A email h s] by (fastforce simp: restrict_map_def fun_eq_iff c split: if_splits)
  ultimately show ?case
    using s'(1) by (simp add: renewal_round_def c)
qed (simp add: renewal_round_def)

text \<open>
  As long as the certificate on disk is valid beyond the renewal margin, issuing contacts no
  server, writes no file and publishes no challenge answer.
\<close>

theorem valid_cert_not_reissued:
  assumes "existing_cert A h (w_fs (am_world s)) = Some not_after"
    and "ac_days_from_now A 0 (w_x (am_world s)) = Inr now"
    and "ac_days_from_now A renew_before_days (w_x (am_world s)) = Inr renew_at"
    and "not_after > renew_at"
  shows "am_world (snd (issue_cert X A email h s)) = am_world s \<and> am_tokens (snd (issue_cert X A email h s)) = am_tokens s"
  using assms
  by (simp add: issue_cert_def still_valid_def load_existing_def amC_def zoom_def bindA_def gets_def map_err_def lift_result_def ok_def
      split: prod.split)

text \<open>
  When telling the server that a challenge is ready fails, the function returns without
  withdrawing the answers published so far: the token stays in the store.
\<close>

theorem failed_challenge_stays_published:
  assumes "ac_fetch_auth A u (w_x (am_world s)) = (Inr auth, x1)" and "\<not> az_valid auth" and "az_http01 auth = Some ch"
    and "ac_set_ready A ch x1 = (Inl e, x2)"
  shows "\<exists>s'. authorize A (u # us) ts s = (Inl (''failed to set challenge ready: '' @ e), s') \<and>
    challenge_get (am_tokens s') (cg_token ch) = Some (cg_key_auth ch)"
  using assms
  by (simp add: bindA_def map_err_def amW_def amT_def onX_def zoom_def modify_def challenges.get_put)

lemma amC_run: "amC m s = (Inr a, s') \<longleftrightarrow> (\<exists>cs. m (am_certs s) = (Inr a, cs) \<and> s' = s\<lparr>am_certs := cs\<rparr>)"
  by (auto simp: amC_def zoom_def split: prod.splits)

text \<open>
  C38: A certificate that has been issued is served with its intermediate certificates; the next round of the renewal loop, twelve
  hours later, finds it still valid, loads it again from the file, and from then on it is served without them.
\<close>

theorem renewal_drops_chain:
  assumes "save_cert X h chain_pem key_pem s = (Inr (), s1)" and "x_parse_chain X chain_pem = Inr (leaf # chain)"
    and "existing_cert A h (w_fs (am_world s1)) = Some not_after" and "ac_days_from_now A 0 (w_x (am_world s1)) = Inr now"
    and "ac_days_from_now A renew_before_days (w_x (am_world s1)) = Inr renew_at" and "not_after > renew_at"
    and "issue_cert X A email h s1 = (Inr (), s2)"
  shows "\<exists>c1 c2. cert_get (am_certs s1) h = Some c1 \<and> tc_chain c1 = chain \<and>
    cert_get (am_certs (snd (renewal_round X A [(h, email)] s1))) h = Some c2 \<and> tc_chain c2 = []"
proof -
  have "\<exists>c1. cert_get (am_certs s1) h = Some c1 \<and> tc_chain c1 = chain"
    using assms(1,2)
    by (auto simp: save_cert_def bindA_Inr amC_run add_cert_from_pem_def certs.get_put split: option.splits)
  moreover have "load_existing X h s1 = (Inr (), s2)"
    using assms(3-7) by (simp add: issue_cert_def still_valid_def bindA_def gets_def map_err_def lift_result_def ok_def)
  then have "\<exists>c2. cert_get (am_certs s2) h = Some c2 \<and> tc_chain c2 = []"
    by (auto simp: load_existing_def amC_run add_cert_def certs.get_put split: sum.splits option.splits)
  ultimately show ?thesis
    using assms(7) by (simp add: renewal_round_def ignore_def)
qed

section \<open>A concrete run\<close>

text \<open>A certificate authority that is down once asked, and certificates that are valid until day one hundred.\<close>

definition sample_acme :: "nat acme_api" where
  "sample_acme = \<lparr>
     ac_not_after = (\<lambda>_. Some 100),
     ac_days_from_now = (\<lambda>d n. Inr (int d)),
     ac_builder = Inr (),
     ac_parse_creds = (\<lambda>s. Inr s),
     ac_show_creds = (\<lambda>s. Inr s),
     ac_from_credentials = (\<lambda>_ n. (Inr 0, n)),
     ac_create = (\<lambda>m n. (Inr (0, m), n)),
     ac_new_order = (\<lambda>_ _ n. (Inr 0, n)),
     ac_auth_urls = (\<lambda>_ _. [''u'']),
     ac_fetch_auth = (\<lambda>_ n. (Inr \<lparr>az_valid = False, az_http01 = Some \<lparr>cg_token = ''t'', cg_key_auth = ''t.k'', cg_url = ''c''\<rparr>\<rparr>, n)),
     ac_set_ready = (\<lambda>_ n. (Inl ''unreachable'', n)),
     ac_poll_ready = (\<lambda>_ n. (Inl ''unreachable'', n)),
     ac_finalize = (\<lambda>_ n. (Inl ''unreachable'', n)),
     ac_poll_certificate = (\<lambda>_ n. (Inl ''unreachable'', n))\<rparr>"

definition acme_fs :: fsys where
  "acme_fs = sample_fs\<lparr>fs_tree := [([''var'', ''run'', ''nyrun'', ''certs'', ''a.b'', ''cert.pem''], File 1),
     ([''var'', ''run'', ''nyrun'', ''certs'', ''a.b'', ''key.pem''], File 2)], fs_data := (\<lambda>i. if i = 1 then ''CERT'' else ''KEY'')\<rparr>"

definition sample_acme_state :: "nat acme_state" where
  "sample_acme_state = \<lparr>am_tokens = [], am_certs = cert_store_new, am_world = sample_world\<lparr>w_fs := acme_fs\<rparr>\<rparr>"

theorem valid_cert_not_reissued_witness:
  "am_world (snd (issue_cert sample_xt sample_acme ''a@b'' ''a.b'' sample_acme_state)) = am_world sample_acme_state"
proof -
  have "existing_cert sample_acme ''a.b'' (w_fs (am_world sample_acme_state)) = Some 100" by code_simp
  then show ?thesis
    using valid_cert_not_reissued [of sample_acme "''a.b''" sample_acme_state 100 0 30 sample_xt "''a@b''"]
    by (simp add: sample_acme_def renew_before_days_def)
qed

theorem failed_challenge_stays_published_witness:
  "\<exists>s'. authorize sample_acme [''u''] [] sample_acme_state = (Inl ''failed to set challenge ready: unreachable'', s') \<and>
    challenge_get (am_tokens s') ''t'' = Some ''t.k''"
  using failed_challenge_stays_published [of sample_acme "''u''" sample_acme_state
      "\<lparr>az_valid = False, az_http01 = Some \<lparr>cg_token = ''t'', cg_key_auth = ''t.k'', cg_url = ''c''\<rparr>\<rparr>" 2
      "\<lparr>cg_token = ''t'', cg_key_auth = ''t.k'', cg_url = ''c''\<rparr>" "''unreachable''" 2 "[]" "[]"]
  by (simp add: sample_acme_def sample_acme_state_def sample_world_def)

definition chain_xt :: "nat xt" where
  "chain_xt = sample_xt\<lparr>x_parse_chain := (\<lambda>p. Inr [p, ''CA''])\<rparr>"

abbreviation chain_saved :: "unit result \<times> nat acme_state" where
  "chain_saved \<equiv> save_cert chain_xt ''a.b'' ''CERT'' ''KEY'' sample_acme_state"

theorem renewal_drops_chain_witness:
  "\<exists>c1 c2. cert_get (am_certs (snd chain_saved)) ''a.b'' = Some c1 \<and> tc_chain c1 = [''CA''] \<and>
    cert_get (am_certs (snd (renewal_round chain_xt sample_acme [(''a.b'', ''a@b'')] (snd chain_saved)))) ''a.b'' = Some c2 \<and> tc_chain c2 = []"
proof (rule renewal_drops_chain)
  have "is_ok (fst chain_saved)" by code_simp
  then show "chain_saved = (Inr (), snd chain_saved)" by (auto simp: is_ok_iff prod_eq_iff)
  show "existing_cert sample_acme ''a.b'' (w_fs (am_world (snd chain_saved))) = Some 100" by code_simp
  show "x_parse_chain chain_xt ''CERT'' = Inr [''CERT'', ''CA'']" by (simp add: chain_xt_def)
  show "ac_days_from_now sample_acme 0 (w_x (am_world (snd chain_saved))) = Inr 0"
    "ac_days_from_now sample_acme renew_before_days (w_x (am_world (snd chain_saved))) = Inr 30"
    by (simp_all add: sample_acme_def renew_before_days_def)
  have "is_ok (fst (issue_cert chain_xt sample_acme ''a@b'' ''a.b'' (snd chain_saved)))" by code_simp
  then show "issue_cert chain_xt sample_acme ''a@b'' ''a.b'' (snd chain_saved) =
      (Inr (), snd (issue_cert chain_xt sample_acme ''a@b'' ''a.b'' (snd chain_saved)))"
    by (auto simp: is_ok_iff prod_eq_iff)
qed simp

end
