(* ===== verification/Proxy_Http.thy ===== *)
theory Proxy_Http
  imports Proxy Acme
begin

text \<open>
  \<open>src/proxy.rs\<close>, the request side: the callbacks that Pingora calls for a request on one of the
  servers' ports (\<open>impl ProxyHttp for NyrunProxy\<close>), the response cache and the serving of
  static files. Pingora's session and header types, the cache library and the clock are the fields
  of the record \<open>http_api\<close>; the order in which Pingora calls the filters is written out in \<open>exchange\<close>.
\<close>

section \<open>Sessions and headers\<close>

record 'q session =
  ss_local_port :: "u16 option"
  ss_client_addr :: "string option"
  ss_tls :: bool
  ss_req :: 'q

text \<open>What is written to the client: a header with the end-of-stream flag, or a body with it.\<close>

datatype 'h written = WHeader 'h bool | WBody string bool

record ('q, 'h, 'e) http_api =
  ha_method :: "'q \<Rightarrow> string"
  ha_path :: "'q \<Rightarrow> string"
  ha_query :: "'q \<Rightarrow> string option"
  ha_req_get :: "'q \<Rightarrow> string \<Rightarrow> string option"
  ha_req_insert :: "string \<Rightarrow> string \<Rightarrow> 'q \<Rightarrow> 'q result"
  ha_to_str :: "string \<Rightarrow> string option"
  ha_build :: "u16 \<Rightarrow> 'h result"
  ha_status :: "'h \<Rightarrow> u16"
  ha_insert :: "string \<Rightarrow> string \<Rightarrow> 'h \<Rightarrow> 'h result"
  ha_remove :: "string \<Rightarrow> 'h \<Rightarrow> 'h"
  ha_cache_get :: "nat \<Rightarrow> string \<Rightarrow> 'e \<Rightarrow> ('h \<times> string) option \<times> 'e"
  ha_cache_insert :: "nat \<Rightarrow> string \<Rightarrow> 'h \<times> string \<Rightarrow> 'e \<Rightarrow> 'e"
  ha_write :: "'h written \<Rightarrow> ('e, unit) act"
  ha_now :: "'e \<Rightarrow> int"

text \<open>
  The proxy object of one server: it shares the routes, the dead ports and the challenge answers
  with the manager, and has the cache that the manager held when the server was started.
\<close>

record nyrun_proxy =
  np_routes :: "route_entry list"
  np_cache :: nat
  np_metrics :: bool
  np_challenges :: challenge_store
  np_dead_ports :: "u16 set"

definition nyrun_proxy_of :: "proxy_manager \<Rightarrow> server_thread \<Rightarrow> bool \<Rightarrow> challenge_store \<Rightarrow> nyrun_proxy" where
  "nyrun_proxy_of px sv metrics challenges =
     \<lparr>np_routes = px_routes px, np_cache = sv_cache sv, np_metrics = metrics, np_challenges = challenges, np_dead_ports = px_dead px\<rparr>"

record 'h proxy_ctx =
  cx_cache_key :: string
  cx_should_cache :: bool
  cx_response_header :: "'h option"
  cx_response_body :: string
  cx_request_start :: int
  cx_request_bytes :: u64
  cx_response_bytes :: u64

text \<open>The state a callback runs on: its context, what was written to the client, and the world.\<close>

record ('h, 'e) hstate =
  hs_ctx :: "'h proxy_ctx"
  hs_out :: "'h written list"
  hs_world :: "'e world"

definition onH :: "('e world, 'a) act \<Rightarrow> (('h, 'e) hstate, 'a) act" where
  "onH = zoom hs_world (\<lambda>w s. s\<lparr>hs_world := w\<rparr>)"

definition on_ctx :: "('h proxy_ctx \<Rightarrow> 'h proxy_ctx) \<Rightarrow> (('h, 'e) hstate, unit) act" where
  "on_ctx f = modify (\<lambda>s. s\<lparr>hs_ctx := f (hs_ctx s)\<rparr>)"

definition write_out :: "('q, 'h, 'e) http_api \<Rightarrow> 'h written \<Rightarrow> (('h, 'e) hstate, unit) act" where
  "write_out H x = bindA (onH (onX (ha_write H x))) (\<lambda>_. modify (\<lambda>s. s\<lparr>hs_out := hs_out s @ [x]\<rparr>))"

definition get_listen_port :: "'q session \<Rightarrow> u16" where
  "get_listen_port session = (case ss_local_port session of Some p \<Rightarrow> p | None \<Rightarrow> 80)"

definition extract_host :: "('q, 'h, 'e) http_api \<Rightarrow> 'q session \<Rightarrow> string option" where
  "extract_host H session =
     map_option (\<lambda>h. hd (split_on (CHR '':'') h)) (Option.bind (ha_req_get H (ss_req session) ''host'') (ha_to_str H))"

section \<open>Static files\<close>

definition content_type :: "string \<Rightarrow> string" where
  "content_type path =
     (case extension path of
        None \<Rightarrow> ''application/octet-stream''
      | Some e \<Rightarrow>
          (if e = ''html'' then ''text/html; charset=utf-8''
           else if e = ''css'' then ''text/css; charset=utf-8''
           else if e = ''js'' \<or> e = ''mjs'' then ''application/javascript; charset=utf-8''
           else if e = ''json'' then ''application/json; charset=utf-8''
           else if e = ''png'' then ''image/png''
           else if e = ''jpg'' \<or> e = ''jpeg'' then ''image/jpeg''
           else if e = ''gif'' then ''image/gif''
           else if e = ''svg'' then ''image/svg+xml''
           else if e = ''ico'' then ''image/x-icon''
           else if e = ''webp'' then ''image/webp''
           else if e = ''woff'' then ''font/woff''
           else if e = ''woff2'' then ''font/woff2''
           else if e = ''ttf'' then ''font/ttf''
           else if e = ''otf'' then ''font/otf''
           else if e = ''wasm'' then ''application/wasm''
           else if e = ''xml'' then ''application/xml''
           else if e = ''txt'' then ''text/plain; charset=utf-8''
           else if e = ''pdf'' then ''application/pdf''
           else if e = ''zip'' then ''application/zip''
           else if e = ''mp4'' then ''video/mp4''
           else if e = ''webm'' then ''video/webm''
           else if e = ''mp3'' then ''audio/mpeg''
           else ''application/octet-stream''))"

text \<open>Write a whole response: the header is built first, and nothing is written when that fails.\<close>

definition respond :: "('q, 'h, 'e) http_api \<Rightarrow> 'h result \<Rightarrow> string \<Rightarrow> (('h, 'e) hstate, unit) act" where
  "respond H header body =
     bindA (lift_result header) (\<lambda>h.
     bindA (write_out H (WHeader h False)) (\<lambda>_.
     write_out H (WBody body True)))"

definition spa_file_path :: "string \<Rightarrow> string \<Rightarrow> string" where
  "spa_file_path uri_path dir =
     (let clean_path = trim_start_matches (CHR ''/'') uri_path in
      if clean_path = [] then path_join dir ''index.html'' else path_join dir clean_path)"

text \<open>The file that is read, given the canonical directory.\<close>

definition spa_resolved :: "fsys \<Rightarrow> string \<Rightarrow> string \<Rightarrow> string" where
  "spa_resolved fs canonical_dir file_path =
     (if fs_exists file_path fs then
        (case fs_canon fs file_path of
           Inr p \<Rightarrow> if path_starts_with p canonical_dir then p else path_join canonical_dir ''index.html''
         | Inl _ \<Rightarrow> path_join canonical_dir ''index.html'')
      else path_join canonical_dir ''index.html'')"

definition typed_header :: "('q, 'h, 'e) http_api \<Rightarrow> u16 \<Rightarrow> string \<Rightarrow> 'h result" where
  "typed_header H status mime = andThen (ha_build H status) (ha_insert H ''content-type'' mime)"

definition sized_header :: "('q, 'h, 'e) http_api \<Rightarrow> u16 \<Rightarrow> string \<Rightarrow> string \<Rightarrow> 'h result" where
  "sized_header H status mime body =
     andThen (typed_header H status mime) (ha_insert H ''content-length'' (show_nat (length body)))"

definition serve_spa :: "('q, 'h, 'e) http_api \<Rightarrow> string \<Rightarrow> string \<Rightarrow> (('h, 'e) hstate, unit) act" where
  "serve_spa H uri_path dir =
     bindA (gets (\<lambda>s. w_fs (hs_world s))) (\<lambda>fs.
     case fs_canon fs dir of
       Inl _ \<Rightarrow> respond H (typed_header H 500 ''text/plain'') (''SPA directory not found'' @ [newline])
     | Inr canonical_dir \<Rightarrow>
         (let resolved = spa_resolved fs canonical_dir (spa_file_path uri_path dir) in
          case fst (fs_read resolved fs) of
            Inr content \<Rightarrow> respond H (sized_header H 200 (content_type resolved) content) content
          | Inl _ \<Rightarrow> respond H (typed_header H 404 ''text/plain'') (''not found'' @ [newline])))"

section \<open>The callbacks\<close>

text \<open>\<open>new_ctx\<close>: the connection is counted, the context starts empty.\<close>

definition new_ctx :: "('q, 'h, 'e) http_api \<Rightarrow> nyrun_proxy \<Rightarrow> ('e world, 'h proxy_ctx) act" where
  "new_ctx H np =
     bindA (metric_if (np_metrics np) ActiveInc) (\<lambda>_.
     gets (\<lambda>w. \<lparr>cx_cache_key = [], cx_should_cache = False, cx_response_header = None, cx_response_body = [],
       cx_request_start = ha_now H (w_x w), cx_request_bytes = 0, cx_response_bytes = 0\<rparr>))"

definition request_size :: "('q, 'h, 'e) http_api \<Rightarrow> 'q session \<Rightarrow> u64" where
  "request_size H session =
     (case Option.bind (Option.bind (ha_req_get H (ss_req session) ''content-length'') (ha_to_str H)) parse_u64 of
        Some n \<Rightarrow> n
      | None \<Rightarrow> 0)"

definition acme_prefix :: string where
  "acme_prefix = ''/.well-known/acme-challenge/''"

definition acme_answer :: "nyrun_proxy \<Rightarrow> string \<Rightarrow> string option" where
  "acme_answer np uri_path = Option.bind (strip_prefix acme_prefix uri_path) (challenge_get (np_challenges np))"

definition cache_key_of :: "('q, 'h, 'e) http_api \<Rightarrow> 'q session \<Rightarrow> string" where
  "cache_key_of H session =
     (case extract_host H session of Some h \<Rightarrow> h | None \<Rightarrow> ''localhost'') @ ha_path H (ss_req session) @
     (case ha_query H (ss_req session) of None \<Rightarrow> '''' | Some q \<Rightarrow> ''?'' @ q)"

text \<open>\<open>let _ = header.insert_header(...)\<close>: an error leaves the header as it is.\<close>

definition set_header :: "('q, 'h, 'e) http_api \<Rightarrow> string \<Rightarrow> string \<Rightarrow> 'h \<Rightarrow> 'h" where
  "set_header H k v h = (case ha_insert H k v h of Inr h' \<Rightarrow> h' | Inl _ \<Rightarrow> h)"

definition cache_lookup :: "('q, 'h, 'e) http_api \<Rightarrow> nyrun_proxy \<Rightarrow> string \<Rightarrow> ('e world, ('h \<times> string) option) act" where
  "cache_lookup H np key w = (case ha_cache_get H (np_cache np) key (w_x w) of (r, e) \<Rightarrow> (Inr r, w\<lparr>w_x := e\<rparr>))"

text \<open>The part of the filter for a request that goes to a proxied application.\<close>

definition from_cache :: "('q, 'h, 'e) http_api \<Rightarrow> nyrun_proxy \<Rightarrow> 'q session \<Rightarrow> (('h, 'e) hstate, bool) act" where
  "from_cache H np session =
     (if ha_method H (ss_req session) \<noteq> ''GET'' then ok False
      else (let key = cache_key_of H session in
        bindA (on_ctx (\<lambda>c. c\<lparr>cx_cache_key := key\<rparr>)) (\<lambda>_.
        bindA (onH (cache_lookup H np key)) (\<lambda>hit.
        case hit of
          Some (header, body) \<Rightarrow>
            bindA (onH (metric_if (np_metrics np) CacheHit)) (\<lambda>_.
            bindA (write_out H (WHeader (set_header H ''X-Cache'' ''HIT'' header) True)) (\<lambda>_.
            bindA (write_out H (WBody body True)) (\<lambda>_. ok True)))
        | None \<Rightarrow> bindA (onH (metric_if (np_metrics np) CacheMiss)) (\<lambda>_. ok False)))))"

text \<open>The value says whether the response has been written; an error ends the request.\<close>

definition request_filter :: "('q, 'h, 'e) http_api \<Rightarrow> nyrun_proxy \<Rightarrow> 'q session \<Rightarrow> (('h, 'e) hstate, bool) act" where
  "request_filter H np session =
     (if get_listen_port session \<in> np_dead_ports np then err ''port closed''
      else
        bindA (on_ctx (\<lambda>c. c\<lparr>cx_request_bytes := request_size H session\<rparr>)) (\<lambda>_.
        case acme_answer np (ha_path H (ss_req session)) of
          Some key_auth \<Rightarrow> bindA (respond H (sized_header H 200 ''text/plain'' key_auth) key_auth) (\<lambda>_. ok True)
        | None \<Rightarrow>
            (case find_route (np_routes np) (get_listen_port session) (extract_host H session) of
               Some r \<Rightarrow>
                 (case re_backend r of
                    BSpa dir \<Rightarrow> bindA (serve_spa H (ha_path H (ss_req session)) dir) (\<lambda>_. ok True)
                  | BProxy _ \<Rightarrow> from_cache H np session)
             | None \<Rightarrow>
                 (let body = ''no route found'' @ [newline] in
                  bindA (respond H (sized_header H 404 ''text/plain'' body) body) (\<lambda>_. ok True)))))"

definition upstream_peer :: "('q, 'h, 'e) http_api \<Rightarrow> nyrun_proxy \<Rightarrow> 'q session \<Rightarrow> socket_addr result" where
  "upstream_peer H np session =
     (case find_route (np_routes np) (get_listen_port session) (extract_host H session) of
        Some r \<Rightarrow> (case re_backend r of BProxy addr \<Rightarrow> Inr addr | BSpa _ \<Rightarrow> Inl ''no upstream route'')
      | None \<Rightarrow> Inl ''no upstream route'')"

definition set_req_header :: "('q, 'h, 'e) http_api \<Rightarrow> string \<Rightarrow> string \<Rightarrow> 'q \<Rightarrow> 'q" where
  "set_req_header H k v q = (case ha_req_insert H k v q of Inr q' \<Rightarrow> q' | Inl _ \<Rightarrow> q)"

definition client_ip :: "string \<Rightarrow> string" where
  "client_ip addr = hd (split_on (CHR '':'') addr)"

definition upstream_request_filter :: "('q, 'h, 'e) http_api \<Rightarrow> 'q session \<Rightarrow> 'q \<Rightarrow> 'q" where
  "upstream_request_filter H session q =
     (let q1 = (case ss_client_addr session of
                  None \<Rightarrow> q
                | Some addr \<Rightarrow>
                    (let q0 = set_req_header H ''X-Forwarded-For'' (client_ip addr) q in
                     if ha_req_get H q0 ''X-Real-IP'' = None then set_req_header H ''X-Real-IP'' (client_ip addr) q0 else q0));
          q2 = set_req_header H ''X-Forwarded-Proto'' (if ss_tls session then ''https'' else ''http'') q1
      in case Option.bind (ha_req_get H (ss_req session) ''Host'') (ha_to_str H) of
           None \<Rightarrow> q2
         | Some h \<Rightarrow> set_req_header H ''X-Forwarded-Host'' h q2)"

definition response_filter :: "('q, 'h, 'e) http_api \<Rightarrow> 'h \<Rightarrow> 'h proxy_ctx \<Rightarrow> 'h proxy_ctx" where
  "response_filter H resp c =
     (if cx_cache_key c = [] then c
      else if ha_status H resp = 200 then c\<lparr>cx_should_cache := True, cx_response_header := Some resp\<rparr>
      else c)"

definition cache_limit :: nat where
  "cache_limit = 5 * 1024 * 1024"

definition count_chunk :: "string option \<Rightarrow> 'h proxy_ctx \<Rightarrow> 'h proxy_ctx" where
  "count_chunk body c =
     (case body of None \<Rightarrow> c | Some b \<Rightarrow> c\<lparr>cx_response_bytes := cx_response_bytes c + of_nat (length b)\<rparr>)"

text \<open>The header that is stored: framed by its length, since the body is kept whole.\<close>

definition stored_header :: "('q, 'h, 'e) http_api \<Rightarrow> string \<Rightarrow> 'h \<Rightarrow> 'h" where
  "stored_header H body h = set_header H ''Content-Length'' (show_nat (length body)) (ha_remove H ''Transfer-Encoding'' h)"

definition store_response :: "('q, 'h, 'e) http_api \<Rightarrow> nyrun_proxy \<Rightarrow> (('h, 'e) hstate, unit) act" where
  "store_response H np =
     bindA (gets hs_ctx) (\<lambda>c.
       case cx_response_header c of
         None \<Rightarrow> ok ()
       | Some header \<Rightarrow>
           bindA (on_ctx (\<lambda>c. c\<lparr>cx_response_header := None, cx_response_body := []\<rparr>)) (\<lambda>_.
           onH (onX (modify (ha_cache_insert H (np_cache np) (cx_cache_key c)
             (stored_header H (cx_response_body c) header, cx_response_body c))))))"

definition response_body_filter ::
  "('q, 'h, 'e) http_api \<Rightarrow> nyrun_proxy \<Rightarrow> string option \<Rightarrow> bool \<Rightarrow> (('h, 'e) hstate, unit) act" where
  "response_body_filter H np body end_of_stream =
     bindA (on_ctx (count_chunk body)) (\<lambda>_.
     bindA (gets hs_ctx) (\<lambda>c.
     if \<not> cx_should_cache c then ok ()
     else if (case body of None \<Rightarrow> False | Some b \<Rightarrow> length (cx_response_body c) + length b > cache_limit)
     then on_ctx (\<lambda>c. c\<lparr>cx_should_cache := False, cx_response_body := []\<rparr>)
     else
       bindA (on_ctx (\<lambda>c. c\<lparr>cx_response_body := cx_response_body c @ (case body of None \<Rightarrow> [] | Some b \<Rightarrow> b)\<rparr>)) (\<lambda>_.
       if end_of_stream then store_response H np else ok ())))"

text \<open>\<open>logging\<close>: \<open>status\<close> is the status written, if a response was written; \<open>failed\<close> whether Pingora reports an error.\<close>

definition logging :: "('q, 'h, 'e) http_api \<Rightarrow> nyrun_proxy \<Rightarrow> 'q session \<Rightarrow> u16 option \<Rightarrow> bool \<Rightarrow> (('h, 'e) hstate, unit) act" where
  "logging H np session status failed =
     (if \<not> np_metrics np then ok ()
      else bindA (gets id) (\<lambda>s.
        let c = hs_ctx s; host = (case extract_host H session of Some h \<Rightarrow> h | None \<Rightarrow> '''') in
        bindA (onH (metric ActiveDec)) (\<lambda>_.
        bindA (onH (metric (DurationObserve (ha_now H (w_x (hs_world s)) - cx_request_start c)))) (\<lambda>_.
        bindA (onH (metric (RequestInc (ha_method H (ss_req session)) (case status of Some x \<Rightarrow> x | None \<Rightarrow> 0) host))) (\<lambda>_.
        bindA (onH (metric (ReceivedInc host (cx_request_bytes c)))) (\<lambda>_.
        bindA (onH (metric (SentInc host (cx_response_bytes c)))) (\<lambda>_.
        bindA (onH (metric (SizeObserve (cx_response_bytes c)))) (\<lambda>_.
        if failed then onH (metric (UpstreamErrInc host)) else ok ()))))))))"

text \<open>
  The order of the calls for a request that is answered by its upstream: the request filter, which
  must not have answered, the response filter on the upstream's header, and the body filter on each
  chunk, the last one with the end-of-stream flag. A chunk may be absent.
\<close>

fun body_chunks :: "('q, 'h, 'e) http_api \<Rightarrow> nyrun_proxy \<Rightarrow> string option list \<Rightarrow> (('h, 'e) hstate, unit) act" where
  "body_chunks H np [] = ok ()"
| "body_chunks H np (b # bs) = bindA (response_body_filter H np b (bs = [])) (\<lambda>_. body_chunks H np bs)"

definition exchange ::
  "('q, 'h, 'e) http_api \<Rightarrow> nyrun_proxy \<Rightarrow> 'q session \<Rightarrow> 'h \<Rightarrow> string option list \<Rightarrow> (('h, 'e) hstate, bool) act" where
  "exchange H np session resp chunks =
     bindA (request_filter H np session) (\<lambda>answered.
     if answered then ok True
     else bindA (on_ctx (response_filter H resp)) (\<lambda>_. bindA (body_chunks H np chunks) (\<lambda>_. ok False)))"

definition chunk_bytes :: "string option list \<Rightarrow> string" where
  "chunk_bytes bs = concat (map (\<lambda>b. case b of None \<Rightarrow> [] | Some x \<Rightarrow> x) bs)"

section \<open>Static files stay inside\<close>

text \<open>What \<open>canonicalize\<close> promises of its answers: an absolute path without \<open>..\<close>.\<close>

definition canonical :: "string \<Rightarrow> bool" where
  "canonical p \<longleftrightarrow> is_absolute p \<and> ParentDir \<notin> set (components p)"

definition canon_law :: "fsys \<Rightarrow> bool" where
  "canon_law fs \<longleftrightarrow> (\<forall>p q. fs_canon fs p = Inr q \<longrightarrow> canonical q)"

lemma canonical_prefix:
  assumes "canonical p" and "canonical d" and "path_starts_with p d"
  shows "prefix (resolve cwd d) (resolve cwd p)"
proof -
  obtain cs where p: "components p = components d @ cs"
    using assms(3) by (auto simp: path_starts_with_def prefix_def)
  obtain q where q: "components p = RootDir # rel_comps q"
    using assms(1) by (auto simp: canonical_def is_absolute_iff components_root)
  have "components d \<noteq> []"
    using assms(2) by (auto simp: canonical_def is_absolute_iff components_root)
  then have "set cs \<subseteq> set (rel_comps q)"
    using p q by (cases "components d") auto
  then have "RootDir \<notin> set cs" by (auto simp: rel_comps_def)
  moreover have "ParentDir \<notin> set cs" using assms(1) by (auto simp: canonical_def p)
  ultimately show ?thesis by (simp add: resolve_def p walk_append walk_names)
qed

lemma spa_resolved_inside:
  assumes "canon_law fs" and "fs_canon fs dir = Inr d"
  shows "prefix (resolve cwd d) (resolve cwd (spa_resolved fs d f))"
proof -
  have d: "canonical d" using assms by (auto simp: canon_law_def)
  then have "d \<noteq> []" by (auto simp: canonical_def is_absolute_iff)
  moreover have "plain_relative ''index.html''" by code_simp
  ultimately have "prefix (resolve cwd d) (resolve cwd (path_join d ''index.html''))"
    by (rule plain_relative_inside)
  then show ?thesis
    using assms(1) d canonical_prefix by (auto simp: spa_resolved_def canon_law_def split: sum.split)
qed

lemma wp_onH [wp_simps]:
  "wp (onH m) Q E s = wp m (\<lambda>a w. Q a (s\<lparr>hs_world := w\<rparr>)) (\<lambda>e w. E e (s\<lparr>hs_world := w\<rparr>)) (hs_world s)"
  by (simp add: onH_def wp_zoom)

lemma wp_on_ctx [wp_simps]: "wp (on_ctx f) Q E s = Q () (s\<lparr>hs_ctx := f (hs_ctx s)\<rparr>)"
  by (simp add: on_ctx_def wp_simps)

lemma wp_write_out:
  assumes "\<And>e. Q () (s\<lparr>hs_world := (hs_world s)\<lparr>w_x := e\<rparr>, hs_out := hs_out s @ [x]\<rparr>)"
    and "\<And>m e. E m (s\<lparr>hs_world := (hs_world s)\<lparr>w_x := e\<rparr>\<rparr>)"
  shows "wp (write_out H x) Q E s"
  unfolding write_out_def wp_bindA wp_onH wp_onX wp_modify by (rule wp_any) (use assms in auto)

lemma wp_respond:
  "wp (respond H header body)
     (\<lambda>_ s'. \<exists>h. header = Inr h \<and> hs_out s' = hs_out s @ [WHeader h False, WBody body True])
     (\<lambda>_ s'. \<exists>n. hs_out s' = hs_out s @ n \<and> length n \<le> 1) s"
  unfolding respond_def wp_bindA wp_lift_result
  by (cases header) (auto intro!: wp_write_out)

text \<open>
  C14: Whatever the path of the request and whatever symbolic links there are, what is written for a
  static-file route is one of the two fixed error texts, or the content of a file whose name lies
  below the canonical directory of the route.
\<close>

theorem spa_serves_inside:
  assumes "canon_law (w_fs (hs_world s))" and "serve_spa H uri dir s = (Inr (), s')"
  shows "\<exists>h body. hs_out s' = hs_out s @ [WHeader h False, WBody body True] \<and>
    (body \<in> {''SPA directory not found'' @ [newline], ''not found'' @ [newline]} \<or>
     (\<exists>d p. fs_canon (w_fs (hs_world s)) dir = Inr d \<and> fs_content (w_fs (hs_world s)) p = Some body \<and>
        prefix (fs_res (w_fs (hs_world s)) d) (fs_res (w_fs (hs_world s)) p)))"
proof -
  let ?fs = "w_fs (hs_world s)"
  have content: "fst (fs_read p ?fs) = Inr b \<Longrightarrow> fs_content ?fs p = Some b" for p b
    by (auto simp: fs_read_def guarded_def fs_content_def split: option.splits node.splits)
  have out: "\<exists>h. hs_out s' = hs_out s @ [WHeader h False, WBody body True]"
    if "respond H header body s = (Inr (), s')" for header body
    using wp_Inr [OF wp_respond that] by auto
  show ?thesis
  proof (cases "fs_canon ?fs dir")
    case (Inl e)
    with assms(2) show ?thesis by (auto simp: serve_spa_def dest!: out)
  next
    case (Inr d)
    let ?p = "spa_resolved ?fs d (spa_file_path uri dir)"
    have "prefix (fs_res ?fs d) (fs_res ?fs ?p)" using assms(1) Inr by (rule spa_resolved_inside)
    then show ?thesis
      using assms(2) Inr content [of ?p] by (auto simp: serve_spa_def Let_def split: sum.splits dest!: out)
  qed
qed

section \<open>Who answers a request\<close>

lemma wp_serve_spa_answers: "wp (bindA (serve_spa H u d) (\<lambda>_. ok True)) (\<lambda>a _. a) (\<lambda>_ _. True) s"
  by (simp add: wp_simps wp_any)

lemma from_cache_False:
  "wp (from_cache H np session) (\<lambda>a s'. a \<or> (hs_out s' = hs_out s)) (\<lambda>_ _. True) s"
  unfolding from_cache_def Let_def
  by (auto simp: wp_simps cache_lookup_def metric_if_def metric_def wp_any wp_def [of "cache_lookup H np k" for k]
      split: option.split prod.split)

text \<open>
  A request that the filter lets through has a route to a proxied application, Pingora is given
  that application's address, and nothing has been written to the client yet.
\<close>

theorem passed_request_has_upstream:
  assumes "request_filter H np session s = (Inr False, s')"
  shows "\<exists>r addr. find_route (np_routes np) (get_listen_port session) (extract_host H session) = Some r \<and>
    re_backend r = BProxy addr \<and> upstream_peer H np session = Inr addr \<and>
    get_listen_port session \<notin> np_dead_ports np \<and> hs_out s' = hs_out s"
proof -
  have answered: "bindA (m :: (('a, 'b) hstate, unit) act) (\<lambda>_. ok True) t \<noteq> (Inr False, t')" for m t t'
    by (auto simp: bindA_Inr)
  let ?s = "s\<lparr>hs_ctx := (hs_ctx s)\<lparr>cx_request_bytes := request_size H session\<rparr>\<rparr>"
  have alive: "get_listen_port session \<notin> np_dead_ports np"
    using assms by (auto simp: request_filter_def)
  obtain r addr where r: "find_route (np_routes np) (get_listen_port session) (extract_host H session) = Some r"
      "re_backend r = BProxy addr" and run: "from_cache H np session ?s = (Inr False, s')"
    using assms alive by (auto simp: request_filter_def on_ctx_def Let_def answered split: option.splits backend.splits)
  have "hs_out s' = hs_out s"
    using wp_Inr [OF from_cache_False run] by simp
  with r alive show ?thesis by (simp add: upstream_peer_def)
qed

lemma fold_close_port_dead:
  "p \<in> set ps \<Longrightarrow> \<not> list_ex (\<lambda>r. re_port r = p) (px_routes px) \<Longrightarrow> p \<in> px_dead (fold close_port ps px)"
proof (induction ps arbitrary: px)
  case (Cons q ps)
  have mono: "p \<in> px_dead y \<Longrightarrow> p \<in> px_dead (fold close_port ps y)" for y
    by (induction ps arbitrary: y) (auto simp: close_port_def)
  show ?case
  proof (cases "p = q")
    case True
    with Cons.prems have "p \<in> px_dead (close_port q px)" by (simp add: close_port_def)
    then show ?thesis by (simp add: mono)
  next
    case False
    have "px_routes (close_port q px) = px_routes px" by (simp add: close_port_def)
    with Cons False show ?thesis by simp
  qed
qed simp

text \<open>
  Once the routes of a process are removed, a request on a port that no other process uses is
  refused by every server, also by the ones started before, and leaves no trace.
\<close>

theorem removed_port_refuses:
  assumes "r \<in> set (px_routes px)" and "re_name r = name" and "re_port r = get_listen_port session"
    and "\<And>q. q \<in> set (px_routes px) \<Longrightarrow> re_port q = get_listen_port session \<Longrightarrow> re_name q = name"
  shows "request_filter H (nyrun_proxy_of (remove_routes name px) sv metrics challenges) session s = (Inl ''port closed'', s)"
proof -
  have "get_listen_port session \<in> px_dead (remove_routes name px)"
    unfolding remove_routes_def Let_def
  proof (rule fold_close_port_dead)
    show "get_listen_port session \<in> set (remdups (map re_port (filter (\<lambda>r. re_name r = name) (px_routes px))))"
      using assms(1,2,3) by (simp add: rev_image_eqI)
    show "\<not> list_ex (\<lambda>r. re_port r = get_listen_port session)
        (px_routes (px\<lparr>px_routes := filter (\<lambda>r. re_name r \<noteq> name) (px_routes px)\<rparr>))"
      using assms(4) by (auto simp: list_ex_iff)
  qed
  then show ?thesis by (simp add: request_filter_def nyrun_proxy_of_def err_def)
qed

text \<open>
  While the manager holds the answer to a challenge, a request for its path on any port that is
  not closed is answered with it, whatever routes there are.
\<close>

theorem challenge_is_answered:
  assumes "challenge_get (np_challenges np) token = Some key_auth"
    and "ha_path H (ss_req session) = acme_prefix @ token"
    and "get_listen_port session \<notin> np_dead_ports np"
    and "request_filter H np session s = (Inr b, s')"
  shows "b \<and> (\<exists>h. sized_header H 200 ''text/plain'' key_auth = Inr h \<and> hs_out s' = hs_out s @ [WHeader h False, WBody key_auth True])"
proof -
  have "acme_answer np (ha_path H (ss_req session)) = Some key_auth"
    using assms(1,2) by (simp add: acme_answer_def)
  then have "b \<and> (\<exists>s1. respond H (sized_header H 200 ''text/plain'' key_auth) key_auth
      (s\<lparr>hs_ctx := (hs_ctx s)\<lparr>cx_request_bytes := request_size H session\<rparr>\<rparr>) = (Inr (), s1) \<and> s' = s1)"
    using assms(3,4) by (auto simp: request_filter_def on_ctx_def bindA_Inr)
  then show ?thesis using wp_Inr [OF wp_respond] by fastforce
qed

section \<open>The cache\<close>

lemmas filter_simps = response_body_filter_def store_response_def on_ctx_def onH_def onX_def zoom_def modify_def gets_def
  count_chunk_def bindA_def ok_def

abbreviation chunk :: "string option \<Rightarrow> string" where
  "chunk b \<equiv> (case b of None \<Rightarrow> [] | Some x \<Rightarrow> x)"

lemma chunk_bytes_simps [simp]: "chunk_bytes [] = []" "chunk_bytes (b # bs) = chunk b @ chunk_bytes bs"
  by (simp_all add: chunk_bytes_def)

text \<open>Without the flag, the chunks are only counted.\<close>

lemma body_chunks_plain:
  "\<not> cx_should_cache (hs_ctx s) \<Longrightarrow>
   body_chunks H np bs s = (Inr (), s\<lparr>hs_ctx := (hs_ctx s)\<lparr>cx_response_bytes :=
     cx_response_bytes (hs_ctx s) + of_nat (length (chunk_bytes bs))\<rparr>\<rparr>)"
proof (induction bs arbitrary: s)
  case (Cons b bs)
  have "response_body_filter H np b (bs = []) s =
      (Inr (), s\<lparr>hs_ctx := (hs_ctx s)\<lparr>cx_response_bytes := cx_response_bytes (hs_ctx s) + of_nat (length (chunk b))\<rparr>\<rparr>)"
    using Cons.prems by (simp add: filter_simps split: option.split)
  then show ?case
    using Cons.IH [of "s\<lparr>hs_ctx := (hs_ctx s)\<lparr>cx_response_bytes := cx_response_bytes (hs_ctx s) + of_nat (length (chunk b))\<rparr>\<rparr>"] Cons.prems
    by (simp add: bindA_def add.assoc)
qed (simp add: ok_def)

text \<open>With the flag, the whole body is stored under the key when it fits, and nothing otherwise.\<close>

lemma body_chunks_caching:
  assumes "bs \<noteq> []" and "cx_should_cache (hs_ctx s)" and "cx_response_header (hs_ctx s) = Some h"
    and "length (cx_response_body (hs_ctx s)) \<le> cache_limit"
  shows "\<exists>s'. body_chunks H np bs s = (Inr (), s') \<and> hs_out s' = hs_out s \<and>
    cx_response_bytes (hs_ctx s') = cx_response_bytes (hs_ctx s) + of_nat (length (chunk_bytes bs)) \<and>
    hs_world s' =
      (let body = cx_response_body (hs_ctx s) @ chunk_bytes bs in
       if length body \<le> cache_limit
       then (hs_world s)\<lparr>w_x := ha_cache_insert H (np_cache np) (cx_cache_key (hs_ctx s)) (stored_header H body h, body) (w_x (hs_world s))\<rparr>
       else hs_world s)"
  using assms
proof (induction bs arbitrary: s)
  case (Cons b bs)
  let ?c = "(hs_ctx s)\<lparr>cx_response_bytes := cx_response_bytes (hs_ctx s) + of_nat (length (chunk b))\<rparr>"
  show ?case
  proof (cases "length (cx_response_body (hs_ctx s)) + length (chunk b) \<le> cache_limit")
    case False
    let ?s1 = "s\<lparr>hs_ctx := ?c\<lparr>cx_should_cache := False, cx_response_body := []\<rparr>\<rparr>"
    have "response_body_filter H np b (bs = []) s = (Inr (), ?s1)"
      using False Cons.prems by (cases b) (simp_all add: filter_simps)
    moreover have "\<not> cx_should_cache (hs_ctx ?s1)" by simp
    ultimately show ?thesis
      using False body_chunks_plain [of ?s1 H np bs] by (simp add: bindA_def Let_def add.assoc)
  next
    case True
    let ?s1 = "s\<lparr>hs_ctx := ?c\<lparr>cx_response_body := cx_response_body (hs_ctx s) @ chunk b\<rparr>\<rparr>"
    have step: "response_body_filter H np b (bs = []) s = (if bs = [] then store_response H np ?s1 else (Inr (), ?s1))"
      using True Cons.prems(2)
      by (cases b) (simp_all add: response_body_filter_def count_chunk_def on_ctx_def modify_def bindA_def gets_def ok_def)
    show ?thesis
    proof (cases "bs = []")
      case last: True
      then show ?thesis
        using step True Cons.prems by (simp add: store_response_def on_ctx_def onH_def onX_def zoom_def modify_def bindA_def gets_def ok_def Let_def)
    next
      case False
      with step have "body_chunks H np (b # bs) s = body_chunks H np bs ?s1" by (simp add: bindA_def)
      moreover have "cx_should_cache (hs_ctx ?s1)" "cx_response_header (hs_ctx ?s1) = Some h" "length (cx_response_body (hs_ctx ?s1)) \<le> cache_limit"
        using Cons.prems True by simp_all
      ultimately show ?thesis
        using Cons.IH [of ?s1] False by (auto simp: Let_def add.assoc)
    qed
  qed
qed simp

definition ctx_fresh :: "'h proxy_ctx \<Rightarrow> bool" where
  "ctx_fresh c \<longleftrightarrow> cx_cache_key c = [] \<and> \<not> cx_should_cache c \<and> cx_response_header c = None \<and> cx_response_body c = []"

lemma metric_if_x [simp]: "w_x (snd (metric_if b m w)) = w_x w" "fst (metric_if b m w) = Inr ()"
  by (simp_all add: metric_if_def metric_def modify_def ok_def)

text \<open>What a request that is let through has done: counted its length, and looked its key up when it is a \<open>GET\<close>.\<close>

lemma request_filter_passes:
  assumes "request_filter H np session s = (Inr False, s')"
  shows "hs_ctx s' = (hs_ctx s)\<lparr>cx_request_bytes := request_size H session,
      cx_cache_key := (if ha_method H (ss_req session) = ''GET'' then cache_key_of H session else cx_cache_key (hs_ctx s))\<rparr>"
    and "w_x (hs_world s') = (if ha_method H (ss_req session) = ''GET''
      then snd (ha_cache_get H (np_cache np) (cache_key_of H session) (w_x (hs_world s))) else w_x (hs_world s))"
proof -
  have answered: "bindA (m :: (('a, 'b) hstate, unit) act) (\<lambda>_. ok True) t \<noteq> (Inr False, t')" for m t t'
    by (auto simp: bindA_Inr)
  have run: "from_cache H np session (s\<lparr>hs_ctx := (hs_ctx s)\<lparr>cx_request_bytes := request_size H session\<rparr>\<rparr>) = (Inr False, s')"
    using assms by (auto simp: request_filter_def on_ctx_def Let_def answered split: option.splits backend.splits if_splits)
  have miss: "onH (metric_if b m) t = (Inr (), t') \<longleftrightarrow> t' = t\<lparr>hs_world := snd (metric_if b m (hs_world t))\<rparr>" for b m and t t' :: "('a, 'b) hstate"
    by (auto simp: onH_def zoom_def metric_if_def metric_def modify_def ok_def)
  have look: "onH (cache_lookup H np k) t = (Inr r, t') \<longleftrightarrow> r = fst (ha_cache_get H (np_cache np) k (w_x (hs_world t))) \<and>
      t' = t\<lparr>hs_world := (hs_world t)\<lparr>w_x := snd (ha_cache_get H (np_cache np) k (w_x (hs_world t)))\<rparr>\<rparr>" for k r and t t' :: "('a, 'b) hstate"
    by (auto simp: onH_def zoom_def cache_lookup_def split: prod.split)
  have "hs_ctx s' = (hs_ctx s)\<lparr>cx_request_bytes := request_size H session,
      cx_cache_key := (if ha_method H (ss_req session) = ''GET'' then cache_key_of H session else cx_cache_key (hs_ctx s))\<rparr> \<and>
    w_x (hs_world s') = (if ha_method H (ss_req session) = ''GET''
      then snd (ha_cache_get H (np_cache np) (cache_key_of H session) (w_x (hs_world s))) else w_x (hs_world s))"
    using run
    by (auto simp: from_cache_def Let_def on_ctx_def bindA_Inr miss look split: if_splits option.splits prod.splits)
  then show "hs_ctx s' = (hs_ctx s)\<lparr>cx_request_bytes := request_size H session,
      cx_cache_key := (if ha_method H (ss_req session) = ''GET'' then cache_key_of H session else cx_cache_key (hs_ctx s))\<rparr>"
    and "w_x (hs_world s') = (if ha_method H (ss_req session) = ''GET''
      then snd (ha_cache_get H (np_cache np) (cache_key_of H session) (w_x (hs_world s))) else w_x (hs_world s))"
    by simp_all
qed

definition cacheable :: "('q, 'h, 'e) http_api \<Rightarrow> 'q session \<Rightarrow> 'h \<Rightarrow> string option list \<Rightarrow> bool" where
  "cacheable H session resp chunks \<longleftrightarrow> ha_method H (ss_req session) = ''GET'' \<and> cache_key_of H session \<noteq> [] \<and>
     ha_status H resp = 200 \<and> length (chunk_bytes chunks) \<le> cache_limit"

lemma exchange_effect:
  assumes "exchange H np session resp chunks s = (Inr False, s')" and "ctx_fresh (hs_ctx s)" and "chunks \<noteq> []"
  shows "w_x (hs_world s') =
      (let e = (if ha_method H (ss_req session) = ''GET''
                then snd (ha_cache_get H (np_cache np) (cache_key_of H session) (w_x (hs_world s))) else w_x (hs_world s)) in
       if cacheable H session resp chunks
       then ha_cache_insert H (np_cache np) (cache_key_of H session) (stored_header H (chunk_bytes chunks) resp, chunk_bytes chunks) e
       else e)"
    and "cx_response_bytes (hs_ctx s') = cx_response_bytes (hs_ctx s) + of_nat (length (chunk_bytes chunks))"
proof -
  obtain s1 where s1: "request_filter H np session s = (Inr False, s1)"
    and run: "body_chunks H np chunks (s1\<lparr>hs_ctx := response_filter H resp (hs_ctx s1)\<rparr>) = (Inr (), s')"
    using assms(1) by (auto simp: exchange_def bindA_Inr on_ctx_def split: if_splits)
  note s1_is = request_filter_passes [OF s1]
  let ?s2 = "s1\<lparr>hs_ctx := response_filter H resp (hs_ctx s1)\<rparr>"
  have "w_x (hs_world s') = (if cacheable H session resp chunks
      then ha_cache_insert H (np_cache np) (cache_key_of H session) (stored_header H (chunk_bytes chunks) resp, chunk_bytes chunks) (w_x (hs_world s1))
      else w_x (hs_world s1)) \<and>
    cx_response_bytes (hs_ctx s') = cx_response_bytes (hs_ctx s) + of_nat (length (chunk_bytes chunks))"
  proof (cases "ha_method H (ss_req session) = ''GET'' \<and> cache_key_of H session \<noteq> [] \<and> ha_status H resp = 200")
    case True
    then have "cx_should_cache (hs_ctx ?s2)" "cx_response_header (hs_ctx ?s2) = Some resp" "cx_response_body (hs_ctx ?s2) = []"
        "cx_cache_key (hs_ctx ?s2) = cache_key_of H session" "cx_response_bytes (hs_ctx ?s2) = cx_response_bytes (hs_ctx s)"
      using assms(2) by (simp_all add: response_filter_def s1_is ctx_fresh_def)
    then show ?thesis
      using body_chunks_caching [OF assms(3), of ?s2 resp H np] run True by (auto simp: cacheable_def Let_def)
  next
    case False
    then have "\<not> cx_should_cache (hs_ctx ?s2)" "cx_response_bytes (hs_ctx ?s2) = cx_response_bytes (hs_ctx s)"
      using assms(2) by (auto simp: response_filter_def s1_is ctx_fresh_def)
    then show ?thesis
      using body_chunks_plain [of ?s2 H np chunks] run False by (auto simp: cacheable_def)
  qed
  then show "w_x (hs_world s') =
      (let e = (if ha_method H (ss_req session) = ''GET''
                then snd (ha_cache_get H (np_cache np) (cache_key_of H session) (w_x (hs_world s))) else w_x (hs_world s)) in
       if cacheable H session resp chunks
       then ha_cache_insert H (np_cache np) (cache_key_of H session) (stored_header H (chunk_bytes chunks) resp, chunk_bytes chunks) e
       else e)"
    and "cx_response_bytes (hs_ctx s') = cx_response_bytes (hs_ctx s) + of_nat (length (chunk_bytes chunks))"
    by (simp_all add: s1_is Let_def)
qed

text \<open>
  C13: After a request answered by its application, the cache holds the whole body under the
  request's key exactly when the request was a \<open>GET\<close>, the answer a 200 and the body within five
  megabytes, however it was cut into chunks; in every other case the cache is not written. The bytes
  counted are those of all chunks, modulo \<open>2\<^sup>6\<^sup>4\<close>.
\<close>

theorem exchange_caches_ok_gets:
  assumes "exchange H np session resp chunks s = (Inr False, s')" and "ctx_fresh (hs_ctx s)" and "chunks \<noteq> []"
  shows "w_x (hs_world s') =
      (let e = (if ha_method H (ss_req session) = ''GET''
                then snd (ha_cache_get H (np_cache np) (cache_key_of H session) (w_x (hs_world s))) else w_x (hs_world s)) in
       if cacheable H session resp chunks
       then ha_cache_insert H (np_cache np) (cache_key_of H session) (stored_header H (chunk_bytes chunks) resp, chunk_bytes chunks) e
       else e) \<and>
    unat (cx_response_bytes (hs_ctx s')) = (unat (cx_response_bytes (hs_ctx s)) + length (chunk_bytes chunks)) mod 2 ^ 64"
  using exchange_effect [OF assms] by (simp add: unat_word_ariths unat_of_nat mod_simps)

text \<open>The library's promise for a lookup right after an insertion, and a client that reads what it is sent.\<close>

definition cache_law :: "('q, 'h, 'e) http_api \<Rightarrow> bool" where
  "cache_law H \<longleftrightarrow> (\<forall>c k v e. fst (ha_cache_get H c k (ha_cache_insert H c k v e)) = Some v)"

definition client_reads :: "('q, 'h, 'e) http_api \<Rightarrow> bool" where
  "client_reads H \<longleftrightarrow> (\<forall>x e. fst (ha_write H x e) = Inr ())"

lemma write_out_reads:
  assumes "client_reads H"
  shows "\<exists>e. write_out H x s = (Inr (), s\<lparr>hs_world := (hs_world s)\<lparr>w_x := e\<rparr>, hs_out := hs_out s @ [x]\<rparr>)"
proof -
  have "fst (ha_write H x (w_x (hs_world s))) = Inr ()" using assms by (simp add: client_reads_def)
  then show ?thesis
    by (cases "ha_write H x (w_x (hs_world s))")
      (auto simp: write_out_def bindA_def onH_def onX_def zoom_def modify_def)
qed

text \<open>
  A cacheable answer is replayed: the next request with the same host, path and query that has a
  proxied route gets the stored header marked as a hit and the same body, and its application is not
  asked. The port is not part of the key: this holds also when the second request came in on another
  port and its route leads to another application.
\<close>

theorem cached_response_replayed:
  assumes first: "exchange H np session resp chunks s = (Inr False, s1)" "ctx_fresh (hs_ctx s)" "chunks \<noteq> []"
      "cacheable H session resp chunks"
    and laws: "cache_law H" "client_reads H"
    and second: "ha_method H (ss_req session2) = ''GET''" "cache_key_of H session2 = cache_key_of H session"
      "get_listen_port session2 \<notin> np_dead_ports np" "acme_answer np (ha_path H (ss_req session2)) = None"
      "find_route (np_routes np) (get_listen_port session2) (extract_host H session2) = Some r" "re_backend r = BProxy addr"
    and world: "w_x (hs_world s2) = w_x (hs_world s1)"
  shows "\<exists>s3. request_filter H np session2 s2 = (Inr True, s3) \<and> hs_out s3 = hs_out s2 @
    [WHeader (set_header H ''X-Cache'' ''HIT'' (stored_header H (chunk_bytes chunks) resp)) True, WBody (chunk_bytes chunks) True]"
proof -
  let ?k = "cache_key_of H session" and ?v = "(stored_header H (chunk_bytes chunks) resp, chunk_bytes chunks)"
  have hit: "fst (ha_cache_get H (np_cache np) ?k (w_x (hs_world s2))) = Some ?v"
    using exchange_effect(1) [OF first(1-3)] first(4) laws(1) world by (simp add: Let_def cache_law_def)
  let ?s3 = "s2\<lparr>hs_ctx := (hs_ctx s2)\<lparr>cx_request_bytes := request_size H session2, cx_cache_key := ?k\<rparr>,
    hs_world := snd (metric_if (np_metrics np) CacheHit ((hs_world s2)\<lparr>w_x := snd (ha_cache_get H (np_cache np) ?k (w_x (hs_world s2)))\<rparr>))\<rparr>"
  let ?h = "WHeader (set_header H ''X-Cache'' ''HIT'' (fst ?v)) True"
  obtain e1 where e1: "write_out H ?h ?s3 = (Inr (), ?s3\<lparr>hs_world := (hs_world ?s3)\<lparr>w_x := e1\<rparr>, hs_out := hs_out ?s3 @ [?h]\<rparr>)"
    using write_out_reads [OF laws(2)] by blast
  obtain e2 where e2: "write_out H (WBody (snd ?v) True) (snd (write_out H ?h ?s3)) =
      (Inr (), (snd (write_out H ?h ?s3))\<lparr>hs_world := (hs_world (snd (write_out H ?h ?s3)))\<lparr>w_x := e2\<rparr>,
        hs_out := hs_out (snd (write_out H ?h ?s3)) @ [WBody (snd ?v) True]\<rparr>)"
    using write_out_reads [OF laws(2)] by blast
  have metric: "onH (metric_if b m) t = (Inr (), t\<lparr>hs_world := snd (metric_if b m (hs_world t))\<rparr>)" for b m and t :: "('a, 'b) hstate"
    by (simp add: onH_def zoom_def metric_if_def metric_def modify_def ok_def)
  have look: "bindA (onH (cache_lookup H np k)) f t = f (fst (ha_cache_get H (np_cache np) k (w_x (hs_world t))))
      (t\<lparr>hs_world := (hs_world t)\<lparr>w_x := snd (ha_cache_get H (np_cache np) k (w_x (hs_world t)))\<rparr>\<rparr>)"
    for k and f :: "_ \<Rightarrow> (('a, 'b) hstate, bool) act" and t
    by (simp add: bindA_def onH_def zoom_def cache_lookup_def split: prod.split)
  have "request_filter H np session2 s2 = bindA (write_out H ?h) (\<lambda>_. bindA (write_out H (WBody (snd ?v) True)) (\<lambda>_. ok True)) ?s3"
    using second hit
    by (simp add: request_filter_def from_cache_def on_ctx_def Let_def look) (simp add: bindA_def [of "onH m" for m] metric)
  also have "\<dots> = (Inr True, snd (write_out H (WBody (snd ?v) True) (snd (write_out H ?h ?s3))))"
    using e1 e2 by (simp add: bindA_def ok_def)
  finally show ?thesis using e1 e2 by simp
qed

section \<open>What the application is told about the client\<close>

definition forward_names :: "string set" where
  "forward_names = {''X-Forwarded-For'', ''X-Real-IP'', ''X-Forwarded-Proto'', ''X-Forwarded-Host''}"

definition header_text :: "string \<Rightarrow> bool" where
  "header_text v \<longleftrightarrow> list_all (\<lambda>c. 32 \<le> (of_char c :: nat) \<and> (of_char c :: nat) < 127) v"

text \<open>Setting a header to visible text succeeds, is read back and leaves the other forwarding headers; \<open>to_str\<close> yields visible text.\<close>

definition req_header_law :: "('q, 'h, 'e) http_api \<Rightarrow> bool" where
  "req_header_law H \<longleftrightarrow>
     (\<forall>k\<in>forward_names. \<forall>v q. header_text v \<longrightarrow>
        (\<exists>q'. ha_req_insert H k v q = Inr q' \<and> ha_req_get H q' k = Some v \<and>
              (\<forall>k'\<in>forward_names - {k}. ha_req_get H q' k' = ha_req_get H q k'))) \<and>
     (\<forall>v w. ha_to_str H v = Some w \<longrightarrow> header_text w)"

lemma set_req_header_get:
  assumes "req_header_law H" and "k \<in> forward_names" and "k' \<in> forward_names" and "header_text v"
  shows "ha_req_get H (set_req_header H k v q) k' = (if k' = k then Some v else ha_req_get H q k')"
proof -
  obtain q' where "ha_req_insert H k v q = Inr q'" "ha_req_get H q' k = Some v"
    "\<forall>k'\<in>forward_names - {k}. ha_req_get H q' k' = ha_req_get H q k'"
    using assms(1,2,4) unfolding req_header_law_def by blast
  with assms(3) show ?thesis by (simp add: set_req_header_def)
qed

lemma header_text_split: "header_text s \<Longrightarrow> x \<in> set (split_on c s) \<Longrightarrow> header_text x"
proof (induction s arbitrary: x)
  case (Cons a s)
  then show ?case by (cases "split_on c s") (auto simp: header_text_def split: if_splits)
qed (simp add: header_text_def)


text \<open>The address of an IPv4 client is taken whole; that of an IPv6 client is cut at its first colon.\<close>

lemma client_ip_v4: "CHR '':'' \<notin> set ip \<Longrightarrow> client_ip (ip @ '':'' @ port) = ip"
  by (simp add: client_ip_def split_on_append split_on_no_sep)

lemma client_ip_v6: "client_ip (''[2001:db8::1]:'' @ port) = ''[2001''"
  by (simp add: client_ip_def split: list.split)

section \<open>Connections are counted in and out\<close>

fun active_step :: "metric_op \<Rightarrow> int \<Rightarrow> int" where
  "active_step ActiveInc v = v + 1"
| "active_step ActiveDec v = v - 1"
| "active_step _ v = v"

definition active_gauge :: "metric_op list \<Rightarrow> int" where
  "active_gauge ops = fold active_step ops 0"

definition active_is :: "int \<Rightarrow> ('h, 'e) hstate \<Rightarrow> bool" where
  "active_is v s \<longleftrightarrow> active_gauge (w_metrics (hs_world s)) = v"

lemma active_metric [pres_intros]: "(\<And>v. active_step m v = v) \<Longrightarrow> preserves (active_is v) (onH (metric_if b m))"
  by (simp add: preserves_def active_is_def onH_def zoom_def metric_if_def metric_def modify_def ok_def active_gauge_def)

lemma active_on_ctx [pres_intros]: "preserves (active_is v) (on_ctx f)"
  by (simp add: preserves_def on_ctx_def active_is_def modify_def)

lemma active_write [pres_intros]: "preserves (active_is v) (write_out H x)"
  by (auto simp: preserves_def write_out_def active_is_def bindA_def onH_def onX_def zoom_def modify_def split: prod.split sum.split)

lemma active_lookup [pres_intros]: "preserves (active_is v) (onH (cache_lookup H np k))"
  by (auto simp: preserves_def active_is_def onH_def zoom_def cache_lookup_def split: prod.split)

lemma active_onX [pres_intros]: "preserves (active_is v) (onH (onX m))"
  by (auto simp: preserves_def active_is_def onH_def onX_def zoom_def split: prod.split)

lemma active_respond [pres_intros]: "preserves (active_is v) (respond H h b)"
  unfolding respond_def by (intro pres_intros)

lemma active_backend [pres_intros]:
  "(\<And>a. preserves P (f a)) \<Longrightarrow> (\<And>d. preserves P (g d)) \<Longrightarrow> preserves P (case b of BProxy a \<Rightarrow> f a | BSpa d \<Rightarrow> g d)"
  by (cases b) simp_all

lemma active_request_filter [pres_intros]: "preserves (active_is v) (request_filter H np session)"
  unfolding request_filter_def from_cache_def serve_spa_def Let_def by (intro pres_intros) simp_all

lemma active_body_filter [pres_intros]: "preserves (active_is v) (response_body_filter H np b eos)"
  unfolding response_body_filter_def store_response_def by (intro pres_intros)

lemma active_chunks [pres_intros]: "preserves (active_is v) (body_chunks H np bs)"
  by (induction bs) (simp_all add: pres_intros)

lemma active_exchange: "preserves (active_is v) (exchange H np session resp chunks)"
  unfolding exchange_def by (intro pres_intros)

text \<open>A whole connection: the context, the exchange whatever its outcome, and the log entry at the end.\<close>

definition connection ::
  "('q, 'h, 'e) http_api \<Rightarrow> nyrun_proxy \<Rightarrow> 'q session \<Rightarrow> 'h \<Rightarrow> string option list \<Rightarrow> u16 option \<Rightarrow> bool \<Rightarrow> 'e world \<Rightarrow> 'e world" where
  "connection H np session resp chunks status failed w =
     (case new_ctx H np w of
        (Inl _, w1) \<Rightarrow> w1
      | (Inr c, w1) \<Rightarrow>
          hs_world (snd (logging H np session status failed
            (snd (exchange H np session resp chunks \<lparr>hs_ctx = c, hs_out = [], hs_world = w1\<rparr>)))))"

lemma logging_active:
  "np_metrics np \<Longrightarrow> active_is v s \<Longrightarrow> active_is (v - 1) (snd (logging H np session status failed s))"
  by (simp add: logging_def active_is_def active_gauge_def Let_def bindA_def gets_def onH_def zoom_def metric_def modify_def ok_def)

text \<open>
  Every connection that is counted as active when it begins is counted out when it ends, also when
  a filter failed or the upstream reported an error.
\<close>

theorem connection_counted_out:
  "active_gauge (w_metrics (connection H np session resp chunks status failed w)) = active_gauge (w_metrics w)"
proof -
  let ?v = "active_gauge (w_metrics w)"
  obtain c where new: "new_ctx H np w = (Inr c, snd (metric_if (np_metrics np) ActiveInc w))"
    by (simp add: new_ctx_def bindA_def metric_if_def metric_def modify_def ok_def gets_def split: if_splits)
  let ?w1 = "snd (metric_if (np_metrics np) ActiveInc w)"
  have gauge: "active_gauge (w_metrics ?w1) = (if np_metrics np then ?v + 1 else ?v)"
    by (simp add: metric_if_def metric_def modify_def ok_def active_gauge_def)
  let ?s = "snd (exchange H np session resp chunks \<lparr>hs_ctx = c, hs_out = [], hs_world = ?w1\<rparr>)"
  have s: "active_is (if np_metrics np then ?v + 1 else ?v) ?s"
    by (rule preservesD [OF active_exchange]) (simp add: active_is_def gauge)
  show ?thesis
  proof (cases "np_metrics np")
    case True
    with s logging_active [OF True, of "?v + 1" ?s] show ?thesis by (simp add: connection_def new active_is_def)
  next
    case False
    with s show ?thesis by (simp add: connection_def new active_is_def logging_def ok_def)
  qed
qed

section \<open>The context of a request stays well formed\<close>

text \<open>
  The calls of Pingora on one context in any order and number, also those that no request produces: nothing is
  buffered that is not to be cached, and never more than the limit.
\<close>

definition ctx_ok :: "'h proxy_ctx \<Rightarrow> bool" where
  "ctx_ok c \<longleftrightarrow> length (cx_response_body c) \<le> cache_limit \<and> (\<not> cx_should_cache c \<longrightarrow> cx_response_body c = [])"

datatype ('q, 'h) callback =
    CbRequest "'q session"
  | CbResponse 'h
  | CbBody "string option" bool
  | CbLogging "'q session" "u16 option" bool

fun run_callback :: "('q, 'h, 'e) http_api \<Rightarrow> nyrun_proxy \<Rightarrow> ('q, 'h) callback \<Rightarrow> ('h, 'e) hstate \<Rightarrow> ('h, 'e) hstate" where
  "run_callback H np (CbRequest session) s = snd (request_filter H np session s)"
| "run_callback H np (CbResponse resp) s = snd (on_ctx (response_filter H resp) s)"
| "run_callback H np (CbBody body eos) s = snd (response_body_filter H np body eos s)"
| "run_callback H np (CbLogging session status failed) s = snd (logging H np session status failed s)"

abbreviation hs_ok :: "('h, 'e) hstate \<Rightarrow> bool" where
  "hs_ok s \<equiv> ctx_ok (hs_ctx s)"

lemma ok_onH [pres_intros]: "preserves hs_ok (onH m)"
  by (simp add: preserves_def onH_def zoom_def split: prod.split)

lemma ok_write [pres_intros]: "preserves hs_ok (write_out H x)"
  by (auto simp: preserves_def write_out_def bindA_def onH_def zoom_def modify_def split: prod.split sum.split)

lemma ok_on_ctx: "(\<And>c. ctx_ok c \<Longrightarrow> ctx_ok (f c)) \<Longrightarrow> preserves hs_ok (on_ctx f)"
  by (simp add: preserves_def on_ctx_def modify_def)

lemma ok_respond [pres_intros]: "preserves hs_ok (respond H h b)"
  unfolding respond_def by (intro pres_intros)

lemma ok_request_filter: "preserves hs_ok (request_filter H np session)"
  unfolding request_filter_def from_cache_def serve_spa_def Let_def
  by (intro pres_intros ok_on_ctx) (simp_all add: ctx_ok_def)

lemma ok_response_filter: "ctx_ok c \<Longrightarrow> ctx_ok (response_filter H resp c)"
  by (auto simp: ctx_ok_def response_filter_def)

lemma ok_body_filter: "preserves hs_ok (response_body_filter H np b eos)"
proof -
  have kept: "hs_ctx (snd (onH m t)) = hs_ctx t" for m :: "('e world, unit) act" and t :: "('h, 'e) hstate"
    by (simp add: onH_def zoom_def split: prod.split)
  show ?thesis
    unfolding preserves_def response_body_filter_def store_response_def
    by (auto simp: bindA_def gets_def on_ctx_def modify_def ok_def count_chunk_def ctx_ok_def kept snd_bindA split: option.split)
qed

lemma ok_logging: "preserves hs_ok (logging H np session status failed)"
  unfolding logging_def Let_def by (intro pres_intros)

interpretation px_ctx: machine "\<lambda>s. ctx_fresh (hs_ctx s)" "run_callback H np" hs_ok
proof
  show "hs_ok s" if "ctx_fresh (hs_ctx s)" for s :: "('a, 'b) hstate"
    using that by (simp add: ctx_fresh_def ctx_ok_def)
  show "hs_ok (run_callback H np i s)" if "hs_ok s" for i and s :: "('a, 'b) hstate"
    using that ok_response_filter [of "hs_ctx s" H]
    by (cases i) (simp_all add: preservesD [OF ok_request_filter] preservesD [OF ok_body_filter] preservesD [OF ok_logging] on_ctx_def)
qed

text \<open>
  C23: The context of a request is well formed after any sequence of callbacks: at most five megabytes of a response are
  held, and none of a response that will not be cached.
\<close>

theorem context_well_formed:
  assumes "ctx_fresh (hs_ctx s)"
  shows "ctx_ok (hs_ctx (fold (run_callback H np) callbacks s))"
  using px_ctx.inv_from_init [OF assms] .

section \<open>A concrete proxy\<close>

record sample_req =
  rq_method :: string
  rq_path :: string
  rq_headers :: "(string, string) hmap"

text \<open>Header names as they are, one cache for all handles, and a client that takes everything.\<close>

definition sample_http :: "(sample_req, u16 \<times> (string, string) hmap, (string, (u16 \<times> (string, string) hmap) \<times> string) hmap) http_api" where
  "sample_http = \<lparr>
     ha_method = rq_method, ha_path = rq_path, ha_query = (\<lambda>_. None),
     ha_req_get = (\<lambda>q. hm_get (rq_headers q)),
     ha_req_insert = (\<lambda>k v q. Inr (q\<lparr>rq_headers := hm_insert k v (rq_headers q)\<rparr>)),
     ha_to_str = (\<lambda>v. if header_text v then Some v else None),
     ha_build = (\<lambda>st. Inr (st, [])),
     ha_status = fst,
     ha_insert = (\<lambda>k v h. Inr (fst h, hm_insert k v (snd h))),
     ha_remove = (\<lambda>k h. (fst h, hm_remove k (snd h))),
     ha_cache_get = (\<lambda>_ k e. (hm_get e k, e)),
     ha_cache_insert = (\<lambda>_ k v e. hm_insert k v e),
     ha_write = (\<lambda>_ e. (Inr (), e)),
     ha_now = (\<lambda>_. 0)\<rparr>"

lemma sample_http_laws: "cache_law sample_http" "client_reads sample_http" "req_header_law sample_http"
  by (auto simp: cache_law_def client_reads_def req_header_law_def sample_http_def update_conv' split: if_splits)

definition sample_session :: "u16 \<Rightarrow> string \<Rightarrow> sample_req session" where
  "sample_session port path = \<lparr>ss_local_port = Some port, ss_client_addr = Some ''10.0.0.7:5000'', ss_tls = False,
     ss_req = \<lparr>rq_method = ''GET'', rq_path = path, rq_headers = [(''host'', ''a.b'')]\<rparr>\<rparr>"

definition sample_proxy :: nyrun_proxy where
  "sample_proxy = \<lparr>np_routes = [\<lparr>re_name = ''one'', re_port = 80, re_host = None, re_backend = BProxy \<lparr>sa_ip = ''127.0.0.1'', sa_port = 3000\<rparr>\<rparr>,
       \<lparr>re_name = ''two'', re_port = 81, re_host = None, re_backend = BProxy \<lparr>sa_ip = ''127.0.0.1'', sa_port = 4000\<rparr>\<rparr>,
       \<lparr>re_name = ''spa'', re_port = 82, re_host = None, re_backend = BSpa ''/srv''\<rparr>],
     np_cache = 0, np_metrics = True, np_challenges = [(''t'', ''t.k'')], np_dead_ports = {99}\<rparr>"

definition sample_hstate :: "(u16 \<times> (string, string) hmap, (string, (u16 \<times> (string, string) hmap) \<times> string) hmap) hstate" where
  "sample_hstate = \<lparr>hs_ctx = \<lparr>cx_cache_key = [], cx_should_cache = False, cx_response_header = None, cx_response_body = [],
       cx_request_start = 0, cx_request_bytes = 0, cx_response_bytes = 0\<rparr>,
     hs_out = [], hs_world = \<lparr>w_fs = sample_fs\<lparr>fs_tree := [([''srv''], Dir), ([''srv'', ''index.html''], File 1)], fs_data := (\<lambda>_. ''hi'')\<rparr>,
       w_metrics = [], w_x = []\<rparr>\<rparr>"

abbreviation sample_run where
  "sample_run \<equiv> exchange sample_http sample_proxy (sample_session 80 ''/x'') (200, []) [Some ''he'', None, Some ''llo''] sample_hstate"

lemma body_filter_ok: "fst (response_body_filter H np b eos s) = Inr ()"
  by (simp add: filter_simps split: option.split)

lemma body_chunks_ok: "fst (body_chunks H np bs s) = Inr ()"
proof (induction bs arbitrary: s)
  case (Cons b bs)
  then show ?case using body_filter_ok [of H np b "bs = []" s] by (simp add: fst_bindA)
qed (simp add: ok_def)

lemma exchange_passes:
  "fst (request_filter H np session s) = Inr False \<Longrightarrow>
   exchange H np session resp chunks s = (Inr False, snd (exchange H np session resp chunks s))"
  by (simp add: prod_eq_iff exchange_def fst_bindA body_chunks_ok on_ctx_def ok_def)

lemma sample_exchange: "sample_run = (Inr False, snd sample_run)"
proof (rule exchange_passes)
  show "fst (request_filter sample_http sample_proxy (sample_session 80 ''/x'') sample_hstate) = Inr False" by code_simp
qed

lemma sample_cacheable: "cacheable sample_http (sample_session 80 ''/x'') (200, []) [Some ''he'', None, Some ''llo'']"
proof -
  have "cache_key_of sample_http (sample_session 80 ''/x'') = ''a.b/x''" by code_simp
  then show ?thesis by (simp add: cacheable_def cache_limit_def sample_http_def sample_session_def)
qed

lemma sample_fresh: "ctx_fresh (hs_ctx sample_hstate)"
  by (simp add: ctx_fresh_def sample_hstate_def)

theorem exchange_caches_ok_gets_witness:
  "hm_get (w_x (hs_world (snd sample_run))) ''a.b/x'' = Some ((200, [(''Content-Length'', ''5'')]), ''hello'')"
proof -
  have "cache_key_of sample_http (sample_session 80 ''/x'') = ''a.b/x''" by code_simp
  moreover have "stored_header sample_http ''hello'' (200, []) = (200, [(''Content-Length'', ''5'')])" by code_simp
  ultimately show ?thesis
    using exchange_caches_ok_gets [OF sample_exchange sample_fresh] sample_cacheable by (simp add: Let_def sample_http_def update_conv')
qed

theorem cached_response_replayed_witness:
  "\<exists>s3. request_filter sample_http sample_proxy (sample_session 81 ''/x'') (sample_hstate\<lparr>hs_world := hs_world (snd sample_run)\<rparr>) = (Inr True, s3) \<and>
    last (hs_out s3) = WBody ''hello'' True"
proof -
  have "ha_method sample_http (ss_req (sample_session 81 ''/x'')) = ''GET''" by code_simp
  moreover have "cache_key_of sample_http (sample_session 81 ''/x'') = cache_key_of sample_http (sample_session 80 ''/x'')" by code_simp
  moreover have "get_listen_port (sample_session 81 ''/x'') \<notin> np_dead_ports sample_proxy" by code_simp
  moreover have "acme_answer sample_proxy (ha_path sample_http (ss_req (sample_session 81 ''/x''))) = None" by code_simp
  moreover have "find_route (np_routes sample_proxy) (get_listen_port (sample_session 81 ''/x'')) (extract_host sample_http (sample_session 81 ''/x'')) =
      Some \<lparr>re_name = ''two'', re_port = 81, re_host = None, re_backend = BProxy \<lparr>sa_ip = ''127.0.0.1'', sa_port = 4000\<rparr>\<rparr>" by code_simp
  ultimately show ?thesis
    using cached_response_replayed [OF sample_exchange sample_fresh _ sample_cacheable sample_http_laws(1,2),
        of "sample_session 81 ''/x''" "\<lparr>re_name = ''two'', re_port = 81, re_host = None, re_backend = BProxy \<lparr>sa_ip = ''127.0.0.1'', sa_port = 4000\<rparr>\<rparr>"
        "\<lparr>sa_ip = ''127.0.0.1'', sa_port = 4000\<rparr>" "sample_hstate\<lparr>hs_world := hs_world (snd sample_run)\<rparr>"]
    by auto
qed

theorem passed_request_has_upstream_witness:
  "upstream_peer sample_http sample_proxy (sample_session 80 ''/x'') = Inr \<lparr>sa_ip = ''127.0.0.1'', sa_port = 3000\<rparr>"
proof -
  let ?run = "request_filter sample_http sample_proxy (sample_session 80 ''/x'') sample_hstate"
  have "fst ?run = Inr False" by code_simp
  then have "?run = (Inr False, snd ?run)" by (simp add: prod_eq_iff)
  from passed_request_has_upstream [OF this] obtain addr where "upstream_peer sample_http sample_proxy (sample_session 80 ''/x'') = Inr addr"
    by blast
  moreover have "upstream_peer sample_http sample_proxy (sample_session 80 ''/x'') = Inr \<lparr>sa_ip = ''127.0.0.1'', sa_port = 3000\<rparr>"
    by code_simp
  ultimately show ?thesis by simp
qed

theorem challenge_is_answered_witness:
  "\<exists>h. hs_out (snd (request_filter sample_http sample_proxy (sample_session 7 ''/.well-known/acme-challenge/t'') sample_hstate)) =
     [WHeader h False, WBody ''t.k'' True]"
proof -
  let ?ss = "sample_session 7 ''/.well-known/acme-challenge/t''"
  let ?run = "request_filter sample_http sample_proxy ?ss sample_hstate"
  have "fst ?run = Inr True" by code_simp
  then have run: "?run = (Inr True, snd ?run)" by (simp add: prod_eq_iff)
  have "challenge_get (np_challenges sample_proxy) ''t'' = Some ''t.k''" by code_simp
  moreover have "ha_path sample_http (ss_req ?ss) = acme_prefix @ ''t''" by code_simp
  moreover have "get_listen_port ?ss \<notin> np_dead_ports sample_proxy" by code_simp
  moreover have "hs_out sample_hstate = []" by code_simp
  ultimately show ?thesis using challenge_is_answered [OF _ _ _ run, of "''t''" "''t.k''"] by auto
qed

definition linked_state :: "(u16 \<times> (string, string) hmap, (string, (u16 \<times> (string, string) hmap) \<times> string) hmap) hstate" where
  "linked_state = sample_hstate\<lparr>hs_world := (hs_world sample_hstate)\<lparr>w_fs := (w_fs (hs_world sample_hstate))\<lparr>
     fs_tree := [([''srv''], Dir), ([''srv'', ''index.html''], File 1), ([''etc''], Dir), ([''etc'', ''passwd''], File 2)],
     fs_canon := (\<lambda>p. if p = ''/srv'' then Inr ''/srv'' else Inr ''/etc/passwd'')\<rparr>\<rparr>\<rparr>"

theorem spa_serves_inside_witness:
  "\<exists>h. hs_out (snd (serve_spa sample_http ''/../etc/passwd'' ''/srv'' linked_state)) = [WHeader h False, WBody ''hi'' True]"
proof -
  let ?run = "serve_spa sample_http ''/../etc/passwd'' ''/srv'' linked_state"
  have "canonical ''/srv''" "canonical ''/etc/passwd''" by code_simp+
  then have "canon_law (w_fs (hs_world linked_state))"
    by (auto simp: canon_law_def linked_state_def sample_fs_def split: if_splits)
  moreover have "fst ?run = Inr ()" by code_simp
  then have "?run = (Inr (), snd ?run)" by (simp add: prod_eq_iff)
  ultimately obtain h body where out: "hs_out (snd ?run) = hs_out linked_state @ [WHeader h False, WBody body True]"
    using spa_serves_inside by blast
  have "hs_out linked_state = []" "(case last (hs_out (snd ?run)) of WBody b e \<Rightarrow> b = ''hi'' | _ \<Rightarrow> False)" by code_simp+
  with out show ?thesis by simp
qed

theorem removed_port_refuses_witness:
  "request_filter sample_http (nyrun_proxy_of (remove_routes ''one'' (proxy_new\<lparr>px_routes := np_routes sample_proxy\<rparr>))
     \<lparr>sv_ports = [80], sv_tls_ports = {}, sv_cache = 0\<rparr> True []) (sample_session 80 ''/x'') sample_hstate = (Inl ''port closed'', sample_hstate)"
proof (rule removed_port_refuses)
  show "\<lparr>re_name = ''one'', re_port = 80, re_host = None, re_backend = BProxy \<lparr>sa_ip = ''127.0.0.1'', sa_port = 3000\<rparr>\<rparr>
    \<in> set (px_routes (proxy_new\<lparr>px_routes := np_routes sample_proxy\<rparr>))"
    by (simp add: sample_proxy_def)
qed (auto simp: sample_proxy_def sample_session_def get_listen_port_def)


theorem context_well_formed_witness:
  "ctx_ok (hs_ctx (fold (run_callback sample_http sample_proxy)
     [CbRequest (sample_session 80 ''/x''), CbResponse (200, []), CbBody (Some ''he'') False, CbBody (Some ''y'') True, CbBody (Some ''late'') False] sample_hstate))"
  by (rule context_well_formed) (simp add: ctx_fresh_def sample_hstate_def)

end
