(* ===== verification/Sandbox.thy ===== *)
theory Sandbox
  imports Rust_Path
begin

text \<open>
  \<open>src/sandbox.rs\<close> on Linux: the restrictions that a child process puts on itself before it runs its
  program. seccomp and Landlock are the fields of the record \<open>sandbox_api\<close>: what each step of their
  libraries answers. The state is what is in force for the process: the system calls that fail, and
  the Landlock domains entered, each of which must allow an access.
\<close>

section \<open>What the kernel enforces\<close>

datatype syscall = SysSocket | SysConnect | SysBind | SysListen | SysAccept | SysAccept4 | SysSendto | SysSendmsg | SysSendmmsg
  | SysOther nat

datatype fs_access = ReadAccess | FullAccess

type_synonym ruleset = "(string \<times> fs_access) list"

record restrictions =
  rs_blocked :: "syscall list"
  rs_domains :: "ruleset list"

definition unrestricted :: restrictions where
  "unrestricted = \<lparr>rs_blocked = [], rs_domains = []\<rparr>"

fun covers :: "fs_access \<Rightarrow> fs_access \<Rightarrow> bool" where
  "covers FullAccess a = True"
| "covers ReadAccess a = (a = ReadAccess)"

definition may_access :: "restrictions \<Rightarrow> string \<Rightarrow> fs_access \<Rightarrow> bool" where
  "may_access rs path a \<longleftrightarrow>
     list_all (\<lambda>dom. list_ex (\<lambda>(base, b). path_starts_with path base \<and> covers b a) dom) (rs_domains rs)"

section \<open>The libraries\<close>

datatype ruleset_status = FullyEnforced | PartiallyEnforced | NotEnforced

record sandbox_api =
  sb_rule_new :: "unit result"
  sb_arch :: "unit result"
  sb_filter_new :: "syscall list \<Rightarrow> unit result"
  sb_compile :: "syscall list \<Rightarrow> unit result"
  sb_apply :: "syscall list \<Rightarrow> unit result"
  ll_handle_access :: "unit result"
  ll_create :: "unit result"
  ll_path_fd :: "string \<Rightarrow> bool"
  ll_add_rule :: "string \<Rightarrow> fs_access \<Rightarrow> unit result"
  ll_restrict_self :: "ruleset \<Rightarrow> ruleset_status result"

definition step_or :: "string \<Rightarrow> 'a result \<Rightarrow> (restrictions, 'a) act" where
  "step_or msg r = (case r of Inl e \<Rightarrow> err (msg @ e) | Inr a \<Rightarrow> ok a)"

section \<open>Denying the network\<close>

definition blocked_syscalls :: "syscall list" where
  "blocked_syscalls = [SysSocket, SysConnect, SysBind, SysListen, SysAccept, SysAccept4, SysSendto, SysSendmsg, SysSendmmsg]"

definition apply_deny_net :: "sandbox_api \<Rightarrow> (restrictions, unit) act" where
  "apply_deny_net B =
     bindA (forA blocked_syscalls (\<lambda>_. step_or ''seccomp rule error: '' (sb_rule_new B))) (\<lambda>_.
     bindA (step_or ''unsupported arch: '' (sb_arch B)) (\<lambda>_.
     bindA (step_or ''seccomp filter error: '' (sb_filter_new B blocked_syscalls)) (\<lambda>_.
     bindA (step_or ''seccomp compile error: '' (sb_compile B blocked_syscalls)) (\<lambda>_.
     bindA (step_or ''seccomp apply error: '' (sb_apply B blocked_syscalls)) (\<lambda>_.
     modify (\<lambda>rs. rs\<lparr>rs_blocked := rs_blocked rs @ blocked_syscalls\<rparr>))))))"

section \<open>Confining file access\<close>

definition system_read_dirs :: "string list" where
  "system_read_dirs = [''/lib'', ''/lib64'', ''/usr/lib'', ''/usr/lib64'', ''/usr/local/lib'', ''/etc/ld.so.cache'', ''/etc/ld.so.conf'',
     ''/etc/ld.so.conf.d'', ''/proc/self'', ''/dev/null'', ''/dev/urandom'', ''/dev/zero'']"

text \<open>A rule is added for a path that can be opened; other paths are passed over.\<close>

fun add_rules :: "sandbox_api \<Rightarrow> fs_access \<Rightarrow> string list \<Rightarrow> ruleset \<Rightarrow> (restrictions, ruleset) act" where
  "add_rules B a [] rules = ok rules"
| "add_rules B a (p # ps) rules =
     (if ll_path_fd B p
      then bindA (step_or ''landlock add rule error: '' (ll_add_rule B p a)) (\<lambda>_. add_rules B a ps (rules @ [(p, a)]))
      else add_rules B a ps rules)"

definition apply_deny_io :: "sandbox_api \<Rightarrow> string list \<Rightarrow> string \<Rightarrow> (restrictions, unit) act" where
  "apply_deny_io B allowed_paths working_dir =
     bindA (step_or ''landlock ruleset error: '' (ll_handle_access B)) (\<lambda>_.
     bindA (step_or ''landlock create error: '' (ll_create B)) (\<lambda>_.
     bindA (add_rules B ReadAccess system_read_dirs []) (\<lambda>r1.
     bindA (add_rules B FullAccess [working_dir] r1) (\<lambda>r2.
     bindA (add_rules B FullAccess allowed_paths r2) (\<lambda>r3.
     bindA (add_rules B FullAccess [''/var/run/nyrun/logs''] r3) (\<lambda>r4.
     bindA (add_rules B FullAccess [''/tmp''] r4) (\<lambda>r5.
     bindA (step_or ''landlock restrict error: '' (ll_restrict_self B r5)) (\<lambda>status.
     case status of
       NotEnforced \<Rightarrow> ok ()
     | _ \<Rightarrow> modify (\<lambda>rs. rs\<lparr>rs_domains := rs_domains rs @ [r5]\<rparr>)))))))))"

section \<open>The capabilities\<close>

definition unknown_capability :: "string \<Rightarrow> string" where
  "unknown_capability c = ''unknown deny capability: '' @ [CHR 0x27] @ c @ [CHR 0x27]"

definition apply_sandbox :: "sandbox_api \<Rightarrow> string list \<Rightarrow> string list \<Rightarrow> string \<Rightarrow> (restrictions, unit) act" where
  "apply_sandbox B deny allow working_dir =
     (if deny = [] then ok ()
      else forA deny (\<lambda>cap.
        if cap = ''net'' then apply_deny_net B
        else if cap = ''io'' then apply_deny_io B allow working_dir
        else err (unknown_capability cap)))"

section \<open>Properties\<close>

lemma wp_step_or [wp_simps]: "wp (step_or msg r) Q E s = (case r of Inl e \<Rightarrow> E (msg @ e) s | Inr a \<Rightarrow> Q a s)"
  by (cases r) (simp_all add: step_or_def wp_simps)

lemma wp_add_rules:
  "wp (add_rules B a ps rules) (\<lambda>rs s'. s' = s \<and> rs = rules @ map (\<lambda>p. (p, a)) (filter (ll_path_fd B) ps)) (\<lambda>_ _. True) s"
proof (induction ps arbitrary: rules)
  case (Cons p ps)
  show ?case
    using Cons.IH [of rules] Cons.IH [of "rules @ [(p, a)]"] by (auto simp: wp_simps split: sum.split)
qed (simp add: wp_simps)

lemma wp_deny_net:
  "wp (apply_deny_net B) (\<lambda>_ s'. s' = s\<lparr>rs_blocked := rs_blocked s @ blocked_syscalls\<rparr>) (\<lambda>_ _. True) s"
proof -
  have loop: "wp (forA xs (\<lambda>_. step_or m r)) (\<lambda>_ s'. s' = s) (\<lambda>_ _. True) s" for xs :: "syscall list" and m and r :: "unit result"
    by (induction xs) (auto simp: wp_simps split: sum.split)
  show ?thesis
    unfolding apply_deny_net_def wp_bindA
    by (rule wp_mono [OF loop]) (auto simp: wp_simps split: sum.split)
qed

text \<open>The rules of the domain that is entered.\<close>

definition io_rules :: "sandbox_api \<Rightarrow> string list \<Rightarrow> string \<Rightarrow> ruleset" where
  "io_rules B allow wd =
     map (\<lambda>p. (p, ReadAccess)) (filter (ll_path_fd B) system_read_dirs) @
     map (\<lambda>p. (p, FullAccess)) (filter (ll_path_fd B) (wd # allow @ [''/var/run/nyrun/logs'', ''/tmp'']))"

lemma io_rules_steps:
  "((([] @ map (\<lambda>p. (p, ReadAccess)) (filter (ll_path_fd B) system_read_dirs)) @ map (\<lambda>p. (p, FullAccess)) (filter (ll_path_fd B) [wd])) @
    map (\<lambda>p. (p, FullAccess)) (filter (ll_path_fd B) allow)) @ map (\<lambda>p. (p, FullAccess)) (filter (ll_path_fd B) [''/var/run/nyrun/logs'']) @
    map (\<lambda>p. (p, FullAccess)) (filter (ll_path_fd B) [''/tmp'']) = io_rules B allow wd"
  by (simp add: io_rules_def)

lemma wp_add_rulesI:
  "Q (rules @ map (\<lambda>p. (p, a)) (filter (ll_path_fd B) ps)) s \<Longrightarrow> (\<And>e s'. E e s') \<Longrightarrow> wp (add_rules B a ps rules) Q E s"
  by (rule wp_mono [OF wp_add_rules]) auto

lemma wp_deny_io:
  "wp (apply_deny_io B allow wd)
     (\<lambda>_ s'. s' = (if ll_restrict_self B (io_rules B allow wd) = Inr NotEnforced then s
                   else s\<lparr>rs_domains := rs_domains s @ [io_rules B allow wd]\<rparr>)) (\<lambda>_ _. True) s"
proof -
  have final: "wp (bindA (step_or m (ll_restrict_self B r)) (\<lambda>status. case status of NotEnforced \<Rightarrow> ok ()
        | _ \<Rightarrow> modify (\<lambda>rs. rs\<lparr>rs_domains := rs_domains rs @ [r]\<rparr>)))
      (\<lambda>_ s'. s' = (if ll_restrict_self B r = Inr NotEnforced then s else s\<lparr>rs_domains := rs_domains s @ [r]\<rparr>)) (\<lambda>_ _. True) s" for m r
    by (auto simp: wp_simps split: sum.split ruleset_status.split)
  have rules: "wp (bindA (add_rules B ReadAccess system_read_dirs []) (\<lambda>r1.
     bindA (add_rules B FullAccess [wd] r1) (\<lambda>r2.
     bindA (add_rules B FullAccess allow r2) (\<lambda>r3.
     bindA (add_rules B FullAccess [''/var/run/nyrun/logs''] r3) (\<lambda>r4.
     bindA (add_rules B FullAccess [''/tmp''] r4) f))))) Q (\<lambda>_ _. True) s"
    if "wp (f (io_rules B allow wd)) Q (\<lambda>_ _. True) s" for f Q
    unfolding wp_bindA
    by (intro wp_add_rulesI TrueI) (use that in \<open>simp only: io_rules_steps append_assoc [symmetric] io_rules_steps [unfolded append_assoc [symmetric]]\<close>)
  show ?thesis
    unfolding apply_deny_io_def wp_bindA [of "step_or m r" for m r] wp_step_or
    by (cases "ll_handle_access B"; cases "ll_create B"; simp only: sum.case)
      (rule rules, rule final)
qed

text \<open>Restrictions only accumulate, and every capability that was processed is in force at the end.\<close>

definition in_force :: "sandbox_api \<Rightarrow> string list \<Rightarrow> string \<Rightarrow> string \<Rightarrow> restrictions \<Rightarrow> bool" where
  "in_force B allow wd cap rs \<longleftrightarrow>
     cap = ''net'' \<and> set blocked_syscalls \<subseteq> set (rs_blocked rs) \<or>
     cap = ''io'' \<and> (io_rules B allow wd \<in> set (rs_domains rs) \<or> ll_restrict_self B (io_rules B allow wd) = Inr NotEnforced)"

definition tighter :: "restrictions \<Rightarrow> restrictions \<Rightarrow> bool" where
  "tighter s s' \<longleftrightarrow> set (rs_blocked s) \<subseteq> set (rs_blocked s') \<and> set (rs_domains s) \<subseteq> set (rs_domains s')"

lemma in_force_tighter: "in_force B allow wd cap s \<Longrightarrow> tighter s s' \<Longrightarrow> in_force B allow wd cap s'"
  by (auto simp: in_force_def tighter_def)

lemma wp_one_cap:
  "wp (if cap = ''net'' then apply_deny_net B else if cap = ''io'' then apply_deny_io B allow wd else err (unknown_capability cap))
     (\<lambda>_ s'. in_force B allow wd cap s' \<and> tighter s s') (\<lambda>_ _. True) s"
proof -
  have net: "wp (apply_deny_net B) (\<lambda>_ s'. in_force B allow wd ''net'' s' \<and> tighter s s') (\<lambda>_ _. True) s"
    by (rule wp_mono [OF wp_deny_net]) (auto simp: in_force_def tighter_def)
  have io: "wp (apply_deny_io B allow wd) (\<lambda>_ s'. in_force B allow wd ''io'' s' \<and> tighter s s') (\<lambda>_ _. True) s"
    by (rule wp_mono [OF wp_deny_io]) (auto simp: in_force_def tighter_def split: if_splits)
  show ?thesis using net io by (simp add: wp_simps)
qed

lemma wp_sandbox:
  "wp (apply_sandbox B deny allow wd)
     (\<lambda>_ s'. (\<forall>cap\<in>set deny. in_force B allow wd cap s') \<and> tighter s s') (\<lambda>_ _. True) s"
proof -
  have "wp (forA deny (\<lambda>cap. if cap = ''net'' then apply_deny_net B else if cap = ''io'' then apply_deny_io B allow wd
        else err (unknown_capability cap)))
     (\<lambda>_ s'. (\<forall>cap\<in>set deny. in_force B allow wd cap s') \<and> tighter s s') (\<lambda>_ _. True) s"
  proof (induction deny arbitrary: s)
    case (Cons cap deny)
    show ?case
      unfolding forA.simps wp_bindA
      by (rule wp_mono [OF wp_one_cap], rule wp_mono [OF Cons.IH])
        (auto simp: tighter_def intro: in_force_tighter)
  qed (simp add: wp_simps tighter_def)
  then show ?thesis by (auto simp: apply_sandbox_def wp_simps tighter_def)
qed

text \<open>
  A sandbox that was set up without an error has every requested capability in force: no
  capability is silently skipped or undone by a later one, and an unknown name is an error.
\<close>

theorem sandbox_in_force:
  assumes "apply_sandbox B deny allow wd s = (Inr (), s')" and "cap \<in> set deny"
  shows "cap = ''net'' \<and> set blocked_syscalls \<subseteq> set (rs_blocked s') \<or>
    cap = ''io'' \<and> (io_rules B allow wd \<in> set (rs_domains s') \<or> ll_restrict_self B (io_rules B allow wd) = Inr NotEnforced)"
  using wp_Inr [OF wp_sandbox assms(1)] assms(2) by (auto simp: in_force_def)


text \<open>
  On a kernel without Landlock the file capability is accepted and nothing is confined: the call
  succeeds with the restrictions it found.
\<close>

theorem unsupported_kernel_is_unconfined:
  assumes "apply_sandbox B [''io''] allow wd s = (Inr (), s')" and "ll_restrict_self B (io_rules B allow wd) = Inr NotEnforced"
  shows "s' = s"
  using wp_Inr [OF wp_deny_io [of B allow wd s]] assms by (auto simp: apply_sandbox_def)

definition sample_sandbox :: "ruleset_status \<Rightarrow> sandbox_api" where
  "sample_sandbox st = \<lparr>sb_rule_new = Inr (), sb_arch = Inr (), sb_filter_new = (\<lambda>_. Inr ()), sb_compile = (\<lambda>_. Inr ()), sb_apply = (\<lambda>_. Inr ()),
     ll_handle_access = Inr (), ll_create = Inr (), ll_path_fd = (\<lambda>_. True), ll_add_rule = (\<lambda>_ _. Inr ()), ll_restrict_self = (\<lambda>_. Inr st)\<rparr>"

lemma sample_sandbox_ok:
  "apply_sandbox (sample_sandbox st) [''net'', ''io''] [''/data''] ''/srv/web'' unrestricted =
     (Inr (), snd (apply_sandbox (sample_sandbox st) [''net'', ''io''] [''/data''] ''/srv/web'' unrestricted))"
proof -
  have "fst (apply_sandbox (sample_sandbox st) [''net'', ''io''] [''/data''] ''/srv/web'' unrestricted) = Inr ()"
    by (cases st; hypsubst; code_simp)
  then show ?thesis by (simp only: prod_eq_iff fst_conv snd_conv)
qed

theorem sandbox_in_force_witness:
  "SysConnect \<in> set (rs_blocked (snd (apply_sandbox (sample_sandbox FullyEnforced) [''net'', ''io''] [''/data''] ''/srv/web'' unrestricted)))"
  using sandbox_in_force [OF sample_sandbox_ok, of "''net''" FullyEnforced] by (simp add: blocked_syscalls_def)


theorem unsupported_kernel_is_unconfined_witness:
  "snd (apply_sandbox (sample_sandbox NotEnforced) [''io''] [] ''/srv/web'' unrestricted) = unrestricted"
proof -
  let ?run = "apply_sandbox (sample_sandbox NotEnforced) [''io''] [] ''/srv/web'' unrestricted"
  have "fst ?run = Inr ()" by code_simp
  then have "?run = (Inr (), snd ?run)" by (simp add: prod_eq_iff)
  from unsupported_kernel_is_unconfined [OF this] show ?thesis by (simp add: sample_sandbox_def)
qed

end
