(* ===== verification/Manifest.thy ===== *)
theory Manifest
  imports Cli_Config
begin

text \<open>
  \<open>src/main.rs\<close>, the commands that work on manifest files: \<open>nyrun start\<close>, which cuts a file into YAML
  documents, writes the config maps and turns every process manifest into a request, and
  \<open>nyrun export\<close>, which writes such a file. The YAML library is the record \<open>yaml_api\<close>.
\<close>

section \<open>Config maps\<close>

definition write_configmap :: "string \<Rightarrow> (string, string) hmap \<Rightarrow> (fsys, unit) act" where
  "write_configmap name data =
     (let dir = path_join configmap_dir name in
      bindA (map_err (\<lambda>e. ''failed to create configmap dir '' @ quoted dir @ '': '' @ e) (fs_create_dir_all dir)) (\<lambda>_.
      forA data (\<lambda>(filename, content).
        let path = path_join dir filename in
        map_err (\<lambda>e. ''failed to write configmap file '' @ quoted path @ '': '' @ e) (fs_write path content))))"

section \<open>Starting from a file\<close>

text \<open>
  \<open>y_kind\<close>: the string under the key \<open>kind\<close> of a document, empty if there is none; an error if the text is not
  YAML. The others are the typed readers and the writer.
\<close>

record yaml_api =
  y_kind :: "string \<Rightarrow> string result"
  y_configmap :: "string \<Rightarrow> (string \<times> (string, string) hmap) result"
  y_process :: "string \<Rightarrow> process_manifest result"
  y_show :: "process_manifest \<Rightarrow> string"

definition doc_separator :: string where
  "doc_separator = newline # ''---''"

text \<open>One document: a config map is written at once, a process is handed back. An error ends the command.\<close>

definition start_doc :: "yaml_api \<Rightarrow> string \<Rightarrow> (fsys, process_manifest option) act" where
  "start_doc Y doc =
     bindA (map_err (\<lambda>e. ''invalid YAML document: '' @ e) (lift_result (y_kind Y doc))) (\<lambda>kind.
     if kind = ''ConfigMap'' then
       bindA (map_err (\<lambda>e. ''invalid ConfigMap: '' @ e) (lift_result (y_configmap Y doc))) (\<lambda>(name, data).
       bindA (map_err (\<lambda>e. ''failed to write ConfigMap '' @ quoted name @ '': '' @ e) (write_configmap name data)) (\<lambda>_. ok None))
     else if kind = ''Process'' then
       bindA (map_err (\<lambda>e. ''invalid Process manifest: '' @ e) (lift_result (y_process Y doc))) (\<lambda>m. ok (Some m))
     else err (''unknown kind '' @ quoted kind @ '', expected '' @ quoted ''Process'' @ '' or '' @ quoted ''ConfigMap''))"

fun start_docs :: "yaml_api \<Rightarrow> string list \<Rightarrow> process_manifest list \<Rightarrow> (fsys, process_manifest list) act" where
  "start_docs Y [] manifests = ok manifests"
| "start_docs Y (d # ds) manifests =
     (let doc = trim d in
      if doc = [] then start_docs Y ds manifests
      else bindA (start_doc Y doc) (\<lambda>m. start_docs Y ds (case m of None \<Rightarrow> manifests | Some m \<Rightarrow> manifests @ [m])))"

definition select_manifests :: "string option \<Rightarrow> process_manifest list \<Rightarrow> process_manifest list result" where
  "select_manifests only ms =
     (if ms = [] then Inl ''no Process manifests found in config file''
      else (case only of
              None \<Rightarrow> Inr ms
            | Some name \<Rightarrow> (case List.find (\<lambda>m. mf_name m = name) ms of
                              Some m \<Rightarrow> Inr [m]
                            | None \<Rightarrow> Inl (quoted name @ '' not found in config''))))"

definition config_request :: "process_config \<Rightarrow> request" where
  "config_request config = (if pc_port_mapping config \<noteq> None then ReqRun config else ReqBin config)"

text \<open>
  The command: the message it exits with, or for every manifest its name and the request that is sent,
  or the message for a manifest that is skipped; the exit status counts the latter.
\<close>

definition start_command ::
  "'e xt \<Rightarrow> yaml_api \<Rightarrow> string \<Rightarrow> string option \<Rightarrow> (fsys, (string \<times> request result) list) act" where
  "start_command X Y file only =
     bindA (map_err (\<lambda>e. ''failed to read '' @ quoted file @ '': '' @ e) (fs_read file)) (\<lambda>content.
     bindA (start_docs Y (split_str doc_separator content) []) (\<lambda>ms.
     bindA (lift_result (select_manifests only ms)) (\<lambda>manifests.
     gets (\<lambda>fs. map (\<lambda>m. (mf_name m, andThen (manifest_to_config X fs m) (\<lambda>c. Inr (config_request c)))) manifests))))"

definition start_errors :: "(string \<times> request result) list \<Rightarrow> nat" where
  "start_errors rs = length (filter (\<lambda>(_, r). \<not> is_ok r) rs)"

section \<open>Exporting\<close>

definition export_text :: "'e xt \<Rightarrow> yaml_api \<Rightarrow> process_config list \<Rightarrow> string" where
  "export_text X Y configs = join_with (''---'' @ [newline]) (map (\<lambda>c. y_show Y (config_to_manifest X c)) configs)"

definition export_command :: "'e xt \<Rightarrow> yaml_api \<Rightarrow> string \<Rightarrow> process_config list \<Rightarrow> (fsys, unit) act" where
  "export_command X Y path configs =
     map_err (\<lambda>e. ''failed to write '' @ quoted path @ '': '' @ e) (fs_write path (export_text X Y configs))"

section \<open>What is exported can be started\<close>

text \<open>
  What the writer and the readers of the YAML library promise for a manifest: one document that ends in
  a newline, has no line starting with three dashes, and is read back, also with the blank around it removed.
\<close>

definition yaml_law :: "yaml_api \<Rightarrow> process_manifest \<Rightarrow> bool" where
  "yaml_law Y m \<longleftrightarrow> (\<exists>u. y_show Y m = u @ [newline] \<and> \<not> contains_str doc_separator (newline # u) \<and> trim u \<noteq> [] \<and>
     y_kind Y (trim u) = Inr ''Process'' \<and> y_process Y (trim u) = Inr m)"

lemma newline_ws [simp]: "is_ws newline"
  by (simp add: is_ws_def)

lemma trim_newlines [simp]: "trim (newline # u) = trim u" "trim (u @ [newline]) = trim u"
  using trim_with_outer [of is_ws "[newline]" "[]" u] trim_with_outer [of is_ws "[]" "[newline]" u] by (simp_all add: trim_def)

lemma no_separator_newline:
  assumes "\<not> contains_str doc_separator u"
  shows "\<not> contains_str doc_separator (u @ [newline])"
proof
  assume "contains_str doc_separator (u @ [newline])"
  then obtain a b where ab: "u @ [newline] = (a @ doc_separator) @ b" by (auto simp: contains_str_iff)
  have "b \<noteq> []"
  proof
    assume "b = []"
    with ab have "last (u @ [newline]) = last (a @ doc_separator)" by simp
    then show False by (simp add: doc_separator_def)
  qed
  with ab have "u = a @ doc_separator @ butlast b"
    by (metis append.assoc append_butlast_last_id butlast_append butlast_snoc)
  with assms show False by (auto simp: contains_str_iff)
qed

lemma split_at_separator:
  "\<not> contains_str doc_separator u \<Longrightarrow> split_str doc_separator (u @ doc_separator @ w) = u # split_str doc_separator w"
  unfolding doc_separator_def by (intro split_str_first) simp_all

lemma join_docs:
  "vs \<noteq> [] \<Longrightarrow> join_with (''---'' @ [newline]) (map (\<lambda>u. u @ [newline]) (u # vs)) =
     u @ doc_separator @ (newline # join_with (''---'' @ [newline]) (map (\<lambda>u. u @ [newline]) vs))"
  by (cases vs) (simp_all add: doc_separator_def)

lemma split_tail:
  "us \<noteq> [] \<Longrightarrow> (\<And>u. u \<in> set us \<Longrightarrow> \<not> contains_str doc_separator (newline # u)) \<Longrightarrow>
   map trim (split_str doc_separator (newline # join_with (''---'' @ [newline]) (map (\<lambda>u. u @ [newline]) us))) = map trim us"
proof (induction us)
  case (Cons u us)
  note IH = Cons.IH and none = Cons.prems(2) [of u, OF list.set_intros(1)]
  show ?case
  proof (cases "us = []")
    case True
    have "\<not> contains_str doc_separator ((newline # u) @ [newline])" using none by (rule no_separator_newline)
    then show ?thesis using True split_str_none by simp
  next
    case False
    have eq: "newline # join_with (''---'' @ [newline]) (map (\<lambda>u. u @ [newline]) (u # us)) =
        (newline # u) @ doc_separator @ (newline # join_with (''---'' @ [newline]) (map (\<lambda>u. u @ [newline]) us))"
      using join_docs [OF False] by simp
    show ?thesis
      by (subst eq, subst split_at_separator [OF none], subst list.map(2), subst IH [OF False])
        (use Cons.prems(2) in auto)
  qed
qed simp

lemma split_docs:
  assumes "us \<noteq> []" and "\<And>u. u \<in> set us \<Longrightarrow> \<not> contains_str doc_separator (newline # u)"
  shows "map trim (split_str doc_separator (join_with (''---'' @ [newline]) (map (\<lambda>u. u @ [newline]) us))) = map trim us"
proof -
  obtain u vs where us: "us = u # vs" using assms(1) by (cases us) auto
  have none: "\<not> contains_str doc_separator u"
    using assms(2) [of u] by (auto simp: us)
  show ?thesis
  proof (cases "vs = []")
    case True
    then show ?thesis using split_str_none [OF no_separator_newline [OF none]] by (simp add: us)
  next
    case False
    show ?thesis
      unfolding us
      by (subst join_docs [OF False], subst split_at_separator [OF none], subst list.map(2), subst split_tail [OF False])
        (use assms(2) in \<open>auto simp: us\<close>)
  qed
qed

lemma start_docs_processes:
  "list_all2 (\<lambda>d m. trim d \<noteq> [] \<and> y_kind Y (trim d) = Inr ''Process'' \<and> y_process Y (trim d) = Inr m) ds ms \<Longrightarrow>
   start_docs Y ds acc fs = (Inr (acc @ ms), fs)"
proof (induction ds ms arbitrary: acc rule: list_all2_induct)
  case (Cons d ds m ms)
  then have "start_doc Y (trim d) fs = (Inr (Some m), fs)"
    by (simp add: start_doc_def bindA_def map_err_def lift_result_def ok_def)
  with Cons show ?case by (simp add: Let_def bindA_def)
qed (simp add: ok_def)


section \<open>A concrete file\<close>

definition sample_yaml :: yaml_api where
  "sample_yaml = \<lparr>y_kind = (\<lambda>_. Inr ''Process''), y_configmap = (\<lambda>_. Inl ''unsupported''),
     y_process = (\<lambda>n. Inr (config_to_manifest sample_xt (sample_config\<lparr>pc_name := n\<rparr>))), y_show = (\<lambda>m. mf_name m @ [newline])\<rparr>"

definition sample_configs :: "process_config list" where
  "sample_configs = [sample_config, sample_config\<lparr>pc_name := ''api''\<rparr>]"

lemma sample_configs_ok:
  "\<forall>c\<in>set sample_configs. exportable sample_xt c \<and> yaml_law sample_yaml (config_to_manifest sample_xt c)"
proof -
  have path: "\<not> is_oci_reference ''/srv/web''" by code_simp
  have names: "trim ''web'' = ''web''" "trim ''api'' = ''api''"
    "\<not> contains_str doc_separator (newline # ''web'')" "\<not> contains_str doc_separator (newline # ''api'')" by code_simp+
  have law: "yaml_law sample_yaml (config_to_manifest sample_xt (sample_config\<lparr>pc_name := n\<rparr>))"
    if "trim n = n" "n \<noteq> []" "\<not> contains_str doc_separator (newline # n)" for n
    using that by (auto simp: yaml_law_def sample_yaml_def config_to_manifest_def sample_config_def)
  have "exportable sample_xt (sample_config\<lparr>pc_name := n\<rparr>)" for n
    using path by (simp add: exportable_def sample_config_def comma_safe_def resolve_configmap_volumes_def)
  then show ?thesis
    using law [of "''web''"] law [of "''api''"] names by (simp add: sample_configs_def) (simp add: sample_config_def)
qed


end
