(* ===== verification/Backup.thy ===== *)
theory Backup
  imports World
begin

text \<open>
  \<open>src/main.rs\<close>, \<open>create_backup\<close> and \<open>restore_backup\<close>: the run directory as a zip archive and back. The zip
  library is the record \<open>zip_api\<close>: whether it accepts a name or some data, the bytes of an archive, and
  the entries that a file is read as.
\<close>

section \<open>Archives\<close>

record zip_entry =
  ze_name :: string
  ze_dir :: bool
  ze_content :: string

record zip_api =
  z_add_directory :: "string \<Rightarrow> unit result"
  z_start_file :: "string \<Rightarrow> unit result"
  z_write_all :: "string \<Rightarrow> unit result"
  z_finish :: "zip_entry list \<Rightarrow> string result"
  z_archive :: "string \<Rightarrow> (zip_entry result) list result"
  z_read_to_end :: "zip_entry \<Rightarrow> string result"

text \<open>The state of the walk: the file system and the entries written so far.\<close>

type_synonym zstate = "fsys \<times> zip_entry list"

definition zFs :: "(fsys, 'a) act \<Rightarrow> (zstate, 'a) act" where
  "zFs = zoom fst (\<lambda>fs s. (fs, snd s))"

definition zip_dir :: "zip_api \<Rightarrow> string \<Rightarrow> (zstate, unit) act" where
  "zip_dir Z name =
     bindA (map_err (\<lambda>e. ''zip add dir error: '' @ e) (lift_result (z_add_directory Z name))) (\<lambda>_.
     modify (\<lambda>(fs, zs). (fs, zs @ [\<lparr>ze_name = name, ze_dir = True, ze_content = []\<rparr>])))"

definition zip_start :: "zip_api \<Rightarrow> string \<Rightarrow> (zstate, unit) act" where
  "zip_start Z name =
     bindA (map_err (\<lambda>e. ''zip start file error: '' @ e) (lift_result (z_start_file Z name))) (\<lambda>_.
     modify (\<lambda>(fs, zs). (fs, zs @ [\<lparr>ze_name = name, ze_dir = False, ze_content = []\<rparr>])))"

text \<open>Data goes to the entry started last.\<close>

definition zip_write :: "zip_api \<Rightarrow> string \<Rightarrow> (zstate, unit) act" where
  "zip_write Z content =
     bindA (map_err (\<lambda>e. ''zip write error: '' @ e) (lift_result (z_write_all Z content))) (\<lambda>_.
     modify (\<lambda>(fs, zs). (fs, butlast zs @ [(last zs)\<lparr>ze_content := ze_content (last zs) @ content\<rparr>])))"

section \<open>Creating\<close>

definition backup_root :: string where "backup_root = ''/var/run/nyrun''"

definition skipped :: "string \<Rightarrow> bool" where
  "skipped fname \<longleftrightarrow> ends_with ''.sock'' fname \<or> ends_with ''.pid'' fname"

text \<open>\<open>Path::strip_prefix\<close>.\<close>

definition path_strip_prefix :: "string \<Rightarrow> string \<Rightarrow> string result" where
  "path_strip_prefix p base =
     (if prefix (components base) (components p) then Inr (show_comps (drop (length (components base)) (components p)))
      else Inl ''prefix not found'')"

definition backup_file :: "zip_api \<Rightarrow> string \<Rightarrow> string \<Rightarrow> (zstate, unit) act" where
  "backup_file Z path rel =
     (let fname = (case file_name path of Some f \<Rightarrow> f | None \<Rightarrow> '''') in
      if skipped fname then ok ()
      else bindA (zip_start Z rel) (\<lambda>_.
           bindA (map_err (\<lambda>e. ''read file error '' @ path @ '': '' @ e) (zFs (fs_read path))) (\<lambda>content.
           zip_write Z content)))"

text \<open>One entry of a directory; \<open>descend\<close> is the recursive call.\<close>

definition walk_step :: "zip_api \<Rightarrow> string \<Rightarrow> (string \<Rightarrow> (zstate, unit) act) \<Rightarrow> string \<Rightarrow> string \<Rightarrow> (zstate, unit) act" where
  "walk_step Z base descend current name =
     (let path = path_join current name in
      bindA (map_err (\<lambda>e. ''strip prefix error: '' @ e) (lift_result (path_strip_prefix path base))) (\<lambda>rel.
      bindA (gets (\<lambda>s. fs_is_dir path (fst s))) (\<lambda>d.
      if d then bindA (zip_dir Z (rel @ ''/'')) (\<lambda>_. descend path)
      else backup_file Z path rel)))"

text \<open>
  The walk, with the nesting depth as fuel. The kernel refuses paths of 4096 bytes or more, so a walk
  that deep ends in an error of the operating system.
\<close>

primrec walk_dir :: "nat \<Rightarrow> zip_api \<Rightarrow> string \<Rightarrow> string \<Rightarrow> (zstate, unit) act" where
  "walk_dir 0 Z base current = err (''failed to read dir: '' @ enametoolong)"
| "walk_dir (Suc n) Z base current =
     bindA (map_err (\<lambda>e. ''failed to read dir: '' @ e) (zFs (fs_read_dir current))) (\<lambda>names.
     forA names (walk_step Z base (walk_dir n Z base) current))"

definition walk_max :: nat where "walk_max = 4096"

definition backup_output :: "string \<Rightarrow> string" where
  "backup_output output_name = (if ends_with ''.zip'' output_name then output_name else output_name @ ''.zip'')"

text \<open>\<open>File::create\<close>.\<close>

definition fs_create :: "string \<Rightarrow> (fsys, nat) act" where
  "fs_create p = guarded OpWrite p (open_trunc p)"

definition create_backup :: "zip_api \<Rightarrow> string \<Rightarrow> (fsys, string) act" where
  "create_backup Z output_name =
     bindA (gets (fs_exists backup_root)) (\<lambda>there.
     if \<not> there then err (''nyrun directory '' @ backup_root @ '' does not exist'')
     else (let output_path = backup_output output_name in
       bindA (map_err (\<lambda>e. ''failed to create '' @ output_path @ '': '' @ e) (fs_create output_path)) (\<lambda>i fs.
         case walk_dir walk_max Z backup_root backup_root (fs, []) of
           (Inl e, (fs', _)) \<Rightarrow> (Inl e, fs')
         | (Inr _, (fs', zs)) \<Rightarrow>
             (case z_finish Z zs of
                Inl e \<Rightarrow> (Inl (''zip finish error: '' @ e), fs')
              | Inr bytes \<Rightarrow> (Inr output_path, fd_write i bytes fs')))))"

section \<open>Restoring\<close>

definition restore_entry :: "zip_api \<Rightarrow> zip_entry result \<Rightarrow> (fsys, unit) act" where
  "restore_entry Z r =
     bindA (map_err (\<lambda>e. ''zip entry error: '' @ e) (lift_result r)) (\<lambda>entry.
     let out_path = path_join backup_root (ze_name entry) in
     if \<not> path_starts_with out_path backup_root then err (''path traversal detected in zip: '' @ ze_name entry)
     else if ze_dir entry then map_err (\<lambda>e. ''mkdir error: '' @ e) (fs_create_dir_all out_path)
     else
       bindA (case path_parent out_path of
                Some parent \<Rightarrow> map_err (\<lambda>e. ''mkdir error: '' @ e) (fs_create_dir_all parent)
              | None \<Rightarrow> ok ()) (\<lambda>_.
       bindA (map_err (\<lambda>e. ''read zip entry error: '' @ e) (lift_result (z_read_to_end Z entry))) (\<lambda>content.
       map_err (\<lambda>e. ''write file error: '' @ e) (fs_write out_path content))))"

definition restore_backup :: "zip_api \<Rightarrow> string \<Rightarrow> (fsys, unit) act" where
  "restore_backup Z file =
     bindA (map_err (\<lambda>e. ''failed to open '' @ file @ '': '' @ e) (fs_read file)) (\<lambda>bytes.
     bindA (map_err (\<lambda>e. ''invalid zip file: '' @ e) (lift_result (z_archive Z bytes))) (\<lambda>entries.
     bindA (map_err (\<lambda>e. ''failed to create '' @ backup_root @ '': '' @ e) (fs_create_dir_all backup_root)) (\<lambda>_.
     forA entries (restore_entry Z))))"

section \<open>Names\<close>

definition plain_name :: "string \<Rightarrow> bool" where
  "plain_name x \<longleftrightarrow> CHR ''/'' \<notin> set x \<and> x \<noteq> '''' \<and> x \<noteq> ''.'' \<and> x \<noteq> ''..''"

lemma plain_rel_comps: "plain_name x \<Longrightarrow> rel_comps x = [Normal x]"
  by (simp add: plain_name_def rel_comps_def body_comps_def split_on_no_sep)

lemma plain_not_absolute: "plain_name x \<Longrightarrow> \<not> is_absolute x"
  by (auto simp: plain_name_def is_absolute_iff)

lemma walk_normals: "walk acc (map Normal ns) = acc @ ns"
  by (induction ns arbitrary: acc) auto

lemma show_normals: "show_comps (map Normal ns) = join_with ''/'' ns"
  by (cases ns) (simp_all add: show_comps_def comp_def)

text \<open>A path that is a base followed by names, as the walk builds them.\<close>

definition names_below :: "string \<Rightarrow> string list \<Rightarrow> string \<Rightarrow> bool" where
  "names_below base ns p \<longleftrightarrow> p \<noteq> [] \<and> components p = components base @ map Normal ns"

lemma names_below_join:
  "names_below base ns p \<Longrightarrow> plain_name x \<Longrightarrow> names_below base (ns @ [x]) (path_join p x)"
  by (simp add: names_below_def components_join plain_not_absolute plain_rel_comps) (auto simp: path_join_def is_absolute_iff)

lemma names_below_resolve: "names_below base ns p \<Longrightarrow> resolve cwd p = resolve cwd base @ ns"
  by (simp add: names_below_def resolve_def walk_append walk_normals)

lemma names_below_strip: "names_below base ns p \<Longrightarrow> path_strip_prefix p base = Inr (join_with ''/'' ns)"
  by (simp add: names_below_def path_strip_prefix_def show_normals)

lemma names_below_file_name: "names_below base (ns @ [x]) p \<Longrightarrow> file_name p = Some x"
  by (simp add: names_below_def file_name_def)

section \<open>What the archive holds\<close>

text \<open>A tree in which every name is plain and stands in a directory.\<close>

definition tree_ok :: "fsys \<Rightarrow> bool" where
  "tree_ok fs \<longleftrightarrow> hm_wf (fs_tree fs) \<and>
     (\<forall>k n. fs_node fs k = Some n \<longrightarrow> list_all plain_name k \<and> (k \<noteq> [] \<longrightarrow> fs_node fs (butlast k) = Some Dir))"

lemma tree_prefix_dir:
  "tree_ok fs \<Longrightarrow> fs_node fs (k @ r) = Some n \<Longrightarrow> r \<noteq> [] \<Longrightarrow> fs_node fs k = Some Dir"
proof (induction r arbitrary: n rule: rev_induct)
  case (snoc x r)
  have "fs_node fs (butlast (k @ r @ [x])) = Some Dir" using snoc.prems by (simp add: tree_ok_def)
  then have dir: "fs_node fs (k @ r) = Some Dir" by (simp add: butlast_append)
  then show ?case using snoc.IH [OF snoc.prems(1) dir] by (cases "r = []") simp_all
qed simp

lemma read_dir_names:
  assumes "tree_ok fs" and "fs_read_dir p fs = (Inr names, fs')"
  shows "x \<in> set names \<longleftrightarrow> fs_node fs (fs_res fs p @ [x]) \<noteq> None"
proof -
  let ?k = "fs_res fs p"
  have names: "names = map (last \<circ> fst) (filter (\<lambda>(q, _). q \<noteq> [] \<and> butlast q = ?k) (fs_tree fs))"
    using assms(2) by (auto simp: fs_read_dir_def guarded_def Let_def split: option.splits node.splits)
  show ?thesis
  proof
    assume "x \<in> set names"
    then obtain q n where q: "(q, n) \<in> set (fs_tree fs)" "q \<noteq> []" "butlast q = ?k" "last q = x" by (auto simp: names)
    then have "q = ?k @ [x]" by (metis append_butlast_last_id)
    moreover have "hm_get (fs_tree fs) q = Some n" using q(1) assms(1) hm_in_get [of "fs_tree fs" q n] by (simp add: tree_ok_def)
    ultimately show "fs_node fs (?k @ [x]) \<noteq> None" by (simp add: fs_node_def)
  next
    assume "fs_node fs (?k @ [x]) \<noteq> None"
    then obtain n where "(?k @ [x], n) \<in> set (fs_tree fs)" by (auto simp: fs_node_def dest: map_of_SomeD)
    then show "x \<in> set names" by (force simp: names)
  qed
qed

lemma read_dir_plain: "tree_ok fs \<Longrightarrow> fs_read_dir p fs = (Inr names, fs') \<Longrightarrow> x \<in> set names \<Longrightarrow> plain_name x"
  using read_dir_names [of fs p names fs' x] by (auto simp: tree_ok_def)

definition file_entry :: "fsys \<Rightarrow> string list \<Rightarrow> nat \<Rightarrow> zip_entry" where
  "file_entry fs ns i = \<lparr>ze_name = join_with ''/'' ns, ze_dir = False, ze_content = fs_data fs i\<rparr>"

text \<open>\<open>R\<close> is the resolved base, \<open>ns\<close> the names below it.\<close>

definition entry_sound :: "fsys \<Rightarrow> rpath \<Rightarrow> zip_entry \<Rightarrow> bool" where
  "entry_sound fs R e \<longleftrightarrow> (\<exists>ns. ns \<noteq> [] \<and>
     (if ze_dir e then ze_name e = join_with ''/'' ns @ ''/'' \<and> fs_node fs (R @ ns) = Some Dir
      else \<not> skipped (last ns) \<and> (\<exists>i. fs_node fs (R @ ns) = Some (File i) \<and> e = file_entry fs ns i)))"

definition entries_cover :: "fsys \<Rightarrow> rpath \<Rightarrow> string list \<Rightarrow> zip_entry list \<Rightarrow> bool" where
  "entries_cover fs R ns es \<longleftrightarrow>
     (\<forall>r i. fs_node fs (R @ ns @ r) = Some (File i) \<longrightarrow> \<not> skipped (last (ns @ r)) \<longrightarrow> file_entry fs (ns @ r) i \<in> set es)"

text \<open>What a step of the walk adds: sound entries that cover all files at or below the names.\<close>

definition archived :: "rpath \<Rightarrow> string list list \<Rightarrow> zstate \<Rightarrow> zstate \<Rightarrow> bool" where
  "archived R nss s s' \<longleftrightarrow> fst s' = fst s \<and>
     (\<exists>es. snd s' = snd s @ es \<and> (\<forall>e\<in>set es. entry_sound (fst s) R e) \<and> (\<forall>ns\<in>set nss. entries_cover (fst s) R ns es))"

lemma archived_trans: "archived R a s t \<Longrightarrow> archived R b t u \<Longrightarrow> archived R (a @ b) s u"
  unfolding archived_def by (elim conjE exE, simp) (auto simp: entries_cover_def)

lemma wp_zFs [wp_simps]: "wp (zFs m) Q E s = wp m (\<lambda>a fs. Q a (fs, snd s)) (\<lambda>e fs. E e (fs, snd s)) (fst s)"
  by (simp add: zFs_def wp_zoom)

lemma wp_zip_dir:
  "(\<And>fs zs. s = (fs, zs) \<Longrightarrow> Q () (fs, zs @ [\<lparr>ze_name = name, ze_dir = True, ze_content = []\<rparr>])) \<Longrightarrow> (\<And>e s'. E e s') \<Longrightarrow> wp (zip_dir Z name) Q E s"
  by (cases s) (auto simp: zip_dir_def wp_simps split: sum.split)

lemma wp_zip_file:
  assumes "\<And>d. fst (fs_read path (fst s)) = Inr d \<Longrightarrow> Q () (fst s, snd s @ [\<lparr>ze_name = name, ze_dir = False, ze_content = d\<rparr>])"
    and "\<And>e s'. E e s'"
  shows "wp (bindA (zip_start Z name) (\<lambda>_. bindA (map_err f (zFs (fs_read path))) (\<lambda>content. zip_write Z content))) Q E s"
proof -
  obtain fs zs where s: "s = (fs, zs)" by (cases s)
  have "snd (fs_read path fs) = fs" by simp
  then show ?thesis
    using assms
    by (cases "fs_read path fs"; cases "fst (fs_read path fs)")
      (auto simp: s zip_start_def zip_write_def wp_simps wp_def [of "fs_read path"] split: sum.split)
qed

lemma wp_backup_file:
  assumes "tree_ok (fst s)" and "names_below base (ns @ [x]) path" and "\<not> fs_is_dir path (fst s)"
  shows "wp (backup_file Z path (join_with ''/'' (ns @ [x]))) (\<lambda>_. archived (fs_res (fst s) base) [ns @ [x]] s) (\<lambda>_ _. True) s"
proof -
  let ?fs = "fst s" and ?ns = "ns @ [x]"
  let ?R = "fs_res ?fs base"
  have k: "fs_res ?fs path = ?R @ ?ns" using names_below_resolve [OF assms(2)] by simp
  have name: "file_name path = Some x" using assms(2) by (rule names_below_file_name)
  have leaf: "fs_node ?fs (?R @ ?ns @ r) = Some (File i) \<Longrightarrow> r = []" for r i
    using tree_prefix_dir [of ?fs "?R @ ?ns" r] assms(1,3) k by (auto simp: fs_is_dir_def)
  have skip: "archived ?R [?ns] s s" if "skipped x"
    unfolding archived_def entries_cover_def using that leaf by (auto intro!: exI [of _ "[]"])
  have add: "archived ?R [?ns] s (?fs, snd s @ [\<lparr>ze_name = join_with ''/'' ?ns, ze_dir = False, ze_content = d\<rparr>])"
    if sk: "\<not> skipped x" and rd: "fst (fs_read path ?fs) = Inr d" for d
  proof -
    obtain i where i: "fs_node ?fs (?R @ ?ns) = Some (File i)" "fs_data ?fs i = d"
      using rd k by (auto simp: fs_read_def guarded_def split: option.splits node.splits)
    then have e: "\<lparr>ze_name = join_with ''/'' ?ns, ze_dir = False, ze_content = d\<rparr> = file_entry ?fs ?ns i"
      by (simp add: file_entry_def)
    have "entry_sound ?fs ?R (file_entry ?fs ?ns i)"
      unfolding entry_sound_def using i sk by (intro exI [of _ ?ns]) (auto simp: file_entry_def)
    moreover have "entries_cover ?fs ?R ?ns [file_entry ?fs ?ns i]"
      unfolding entries_cover_def using leaf i by fastforce
    ultimately show ?thesis unfolding archived_def e by (intro conjI exI [of _ "[file_entry ?fs ?ns i]"]) auto
  qed
  show ?thesis
    unfolding backup_file_def name Let_def option.case wp_if wp_ok
    using skip add by (auto intro!: wp_zip_file)
qed

lemma archived_fs: "archived R a s t \<Longrightarrow> fst t = fst s"
  by (simp add: archived_def)

lemma archived_dir:
  assumes "fs_node fs (R @ ns) = Some Dir" "ns \<noteq> []"
  shows "archived R [] (fs, zs) (fs, zs @ [\<lparr>ze_name = join_with ''/'' ns @ ''/'', ze_dir = True, ze_content = []\<rparr>])"
  using assms by (auto simp: archived_def entry_sound_def intro: exI [of _ ns])

text \<open>Covering every child of a directory covers the directory.\<close>

lemma entries_cover_children:
  assumes "tree_ok fs" and "fs_node fs (R @ ns) = Some Dir"
    and "\<And>x. fs_node fs (R @ ns @ [x]) \<noteq> None \<Longrightarrow> entries_cover fs R (ns @ [x]) es"
  shows "entries_cover fs R ns es"
  unfolding entries_cover_def
proof (intro allI impI)
  fix r i
  assume f: "fs_node fs (R @ ns @ r) = Some (File i)" and sk: "\<not> skipped (last (ns @ r))"
  show "file_entry fs (ns @ r) i \<in> set es"
  proof (cases r)
    case Nil
    with f assms(2) show ?thesis by simp
  next
    case (Cons x r')
    have "fs_node fs (R @ ns @ [x]) \<noteq> None"
      using tree_prefix_dir [OF assms(1), of "R @ ns @ [x]" r'] f by (cases "r' = []") (auto simp: Cons)
    from assms(3) [OF this] f sk show ?thesis unfolding entries_cover_def by (fastforce simp: Cons)
  qed
qed

lemma wp_walk_step:
  assumes "tree_ok (fst t)" and "names_below base ns current" and x: "plain_name x"
    and IH: "\<And>s. fst s = fst t \<Longrightarrow> wp (descend (path_join current x)) (\<lambda>_. archived (fs_res (fst t) base) [ns @ [x]] s) (\<lambda>_ _. True) s"
  shows "wp (walk_step Z base descend current x) (\<lambda>_. archived (fs_res (fst t) base) [ns @ [x]] t) (\<lambda>_ _. True) t"
proof -
  let ?R = "fs_res (fst t) base"
  note below = names_below_join [OF assms(2) x]
  show ?thesis
  proof (cases "fs_is_dir (path_join current x) (fst t)")
    case True
    then have node: "fs_node (fst t) (?R @ ns @ [x]) = Some Dir"
      using names_below_resolve [OF below] by (simp add: fs_is_dir_def)
    have "wp (zip_dir Z (join_with ''/'' (ns @ [x]) @ ''/'')) (\<lambda>_. wp (descend (path_join current x))
        (\<lambda>_. archived ?R [ns @ [x]] t) (\<lambda>_ _. True)) (\<lambda>_ _. True) t"
    proof (rule wp_zip_dir)
      fix fs zs
      assume t: "t = (fs, zs)"
      let ?u = "(fs, zs @ [\<lparr>ze_name = join_with ''/'' (ns @ [x]) @ ''/'', ze_dir = True, ze_content = []\<rparr>])"
      have dir: "archived ?R [] t ?u" using node unfolding t by (intro archived_dir) simp_all
      show "wp (descend (path_join current x)) (\<lambda>_. archived ?R [ns @ [x]] t) (\<lambda>_ _. True) ?u"
        by (rule wp_mono [OF IH]) (use archived_trans [OF dir] in \<open>auto simp: t\<close>)
    qed simp
    then show ?thesis using True by (simp add: walk_step_def wp_simps names_below_strip [OF below] Let_def)
  next
    case False
    then show ?thesis
      using wp_backup_file [OF assms(1) below] by (simp add: walk_step_def wp_simps names_below_strip [OF below] Let_def)
  qed
qed

lemma wp_walk_names:
  assumes "\<And>x u. x \<in> set xs \<Longrightarrow> fst u = fst t \<Longrightarrow> wp (f x) (\<lambda>_. archived R [ns @ [x]] u) (\<lambda>_ _. True) u"
  shows "wp (forA xs f) (\<lambda>_. archived R (map (\<lambda>x. ns @ [x]) xs) t) (\<lambda>_ _. True) t"
  using assms
proof (induction xs arbitrary: t)
  case Nil
  then show ?case by (auto simp: wp_simps archived_def)
next
  case (Cons x xs)
  show ?case
    unfolding forA.simps wp_bindA
  proof (rule wp_mono [OF Cons.prems [of x t]])
    fix u
    assume u: "archived R [ns @ [x]] t u"
    show "wp (forA xs f) (\<lambda>_. archived R (map (\<lambda>x. ns @ [x]) (x # xs)) t) (\<lambda>_ _. True) u"
      by (rule wp_mono [OF Cons.IH]) (use Cons.prems archived_fs [OF u] archived_trans [OF u] in auto)
  qed auto
qed

lemma archived_children:
  assumes "tree_ok (fst s)" and "fs_read_dir current (fst s) = (Inr names, fs')" and k: "fs_res (fst s) current = R @ ns"
    and "archived R (map (\<lambda>x. ns @ [x]) names) s u"
  shows "archived R [ns] s u"
proof -
  have node: "fs_node (fst s) (R @ ns) = Some Dir"
    using assms(2) k by (auto simp: fs_read_dir_def guarded_def Let_def split: option.splits node.splits)
  obtain es where es: "snd u = snd s @ es" "\<forall>e\<in>set es. entry_sound (fst s) R e" "\<forall>x\<in>set names. entries_cover (fst s) R (ns @ [x]) es"
    using assms(4) by (auto simp: archived_def)
  have "entries_cover (fst s) R ns es"
    using es(3) read_dir_names [OF assms(1,2)] k by (intro entries_cover_children [OF assms(1) node]) simp
  with es archived_fs [OF assms(4)] show ?thesis by (auto simp: archived_def)
qed

lemma wp_walk_dir:
  assumes "tree_ok (fst s)" and "names_below base ns current"
  shows "wp (walk_dir n Z base current) (\<lambda>_. archived (fs_res (fst s) base) [ns] s) (\<lambda>_ _. True) s"
  using assms
proof (induction n arbitrary: ns current s)
  case (Suc n)
  let ?fs = "fst s"
  let ?R = "fs_res ?fs base"
  obtain r where r: "fs_read_dir current ?fs = (r, ?fs)"
    using fs_read_dir_state [of current ?fs] by (metis prod.collapse)
  show ?case
  proof (cases r)
    case (Inl e)
    then show ?thesis using r by (simp add: wp_simps wp_def [of "fs_read_dir current"])
  next
    case (Inr names)
    have rd: "fs_read_dir current ?fs = (Inr names, ?fs)" using r Inr by simp
    have step: "wp (walk_step Z base (walk_dir n Z base) current x) (\<lambda>_. archived ?R [ns @ [x]] u) (\<lambda>_ _. True) u"
      if "x \<in> set names" "fst u = ?fs" for x u
      using that Suc.prems read_dir_plain [OF Suc.prems(1) rd] Suc.IH names_below_join [OF Suc.prems(2)]
        wp_walk_step [of u base ns current x "walk_dir n Z base" Z] by metis
    have "wp (forA names (walk_step Z base (walk_dir n Z base) current)) (\<lambda>_. archived ?R [ns] s) (\<lambda>_ _. True) s"
      by (rule wp_mono [OF wp_walk_names [OF step]])
        (use archived_children [OF Suc.prems(1) rd names_below_resolve [OF Suc.prems(2)]] in auto)
    then show ?thesis using rd by (simp add: wp_simps wp_def [of "fs_read_dir current"])
  qed
qed (simp add: wp_simps)

text \<open>
  A backup that succeeds holds every regular file below the run directory, with its relative path
  and its content at the time of the backup, except the files whose names end in \<open>.sock\<close> or \<open>.pid\<close>; every
  entry stands for a file or directory that is there; and the archive of these entries is what is
  written to the output.
\<close>

theorem backup_holds_every_file:
  assumes "create_backup Z out fs = (Inr path, fs')"
    and "fs_create (backup_output out) fs = (Inr fd, fs1)" and "tree_ok fs1"
  shows "\<exists>zs bytes. z_finish Z zs = Inr bytes \<and> fs' = fd_write fd bytes fs1 \<and>
    (\<forall>e\<in>set zs. entry_sound fs1 (fs_res fs1 backup_root) e) \<and>
    entries_cover fs1 (fs_res fs1 backup_root) [] zs"
proof -
  have "names_below backup_root [] backup_root" by (simp add: names_below_def backup_root_def)
  then have walk: "wp (walk_dir walk_max Z backup_root backup_root) (\<lambda>_. archived (fs_res fs1 backup_root) [[]] (fs1, [])) (\<lambda>_ _. True) (fs1, [])"
    using wp_walk_dir [of "(fs1, [])" backup_root "[]" backup_root walk_max Z] assms(3) by simp
  obtain fs2 zs bytes where run: "walk_dir walk_max Z backup_root backup_root (fs1, []) = (Inr (), (fs2, zs))"
    and fin: "z_finish Z zs = Inr bytes" "fs' = fd_write fd bytes fs2"
    using assms(1,2) by (auto simp: create_backup_def Let_def bindA_def gets_def map_err_def err_def split: if_splits prod.splits sum.splits)
  have "archived (fs_res fs1 backup_root) [[]] (fs1, []) (fs2, zs)" using wp_Inr [OF walk run] .
  with fin show ?thesis by (auto simp: archived_def)
qed

section \<open>Restoring what was backed up\<close>

text \<open>Every file has its own inode, and the next one is fresh.\<close>

definition inodes_ok :: "fsys \<Rightarrow> bool" where
  "inodes_ok fs \<longleftrightarrow> (\<forall>k i. fs_node fs k = Some (File i) \<longrightarrow> i < fs_next fs \<and> (\<forall>k'. fs_node fs k' = Some (File i) \<longrightarrow> k' = k))"

definition content_at :: "fsys \<Rightarrow> rpath \<Rightarrow> string option" where
  "content_at fs k = (case fs_node fs k of Some (File i) \<Rightarrow> Some (fs_data fs i) | _ \<Rightarrow> None)"

lemma fs_content_at: "fs_content fs p = content_at fs (fs_res fs p)"
  by (simp add: fs_content_def content_at_def)

lemma mkdirs_files:
  "fs_data (snd (mkdirs acc xs fs)) = fs_data fs \<and> fs_next (snd (mkdirs acc xs fs)) = fs_next fs \<and>
   (fs_node (snd (mkdirs acc xs fs)) k = Some (File i) \<longleftrightarrow> fs_node fs k = Some (File i))"
proof (induction acc xs fs rule: mkdirs.induct)
  case (2 acc x xs fs)
  show ?case
  proof (cases "fs_node fs (acc @ [x])")
    case None
    then have "fs_node (fs\<lparr>fs_tree := hm_insert (acc @ [x]) Dir (fs_tree fs)\<rparr>) k = Some (File i) \<longleftrightarrow> fs_node fs k = Some (File i)"
      by (auto simp: fs_node_def update_conv')
    with 2(1) [OF refl None] None show ?thesis by (simp add: Let_def)
  next
    case (Some n)
    then show ?thesis using 2(2) [OF refl Some] by (cases n) (simp_all add: Let_def)
  qed
qed simp

lemma create_dir_files:
  "fs_data (snd (fs_create_dir_all p fs)) = fs_data fs" "fs_next (snd (fs_create_dir_all p fs)) = fs_next fs"
  "fs_node (snd (fs_create_dir_all p fs)) k = Some (File i) \<longleftrightarrow> fs_node fs k = Some (File i)"
  using mkdirs_files [of "[]" "fs_res fs p" fs k i] by (simp_all add: fs_create_dir_all_def guarded_def split: option.split)

lemma create_dir_keeps:
  "inodes_ok (snd (fs_create_dir_all p fs)) = inodes_ok fs" "content_at (snd (fs_create_dir_all p fs)) = content_at fs"
proof -
  show "inodes_ok (snd (fs_create_dir_all p fs)) = inodes_ok fs" by (simp add: inodes_ok_def create_dir_files)
  show "content_at (snd (fs_create_dir_all p fs)) = content_at fs"
  proof
    fix k
    have "\<forall>i. fs_node (snd (fs_create_dir_all p fs)) k = Some (File i) \<longleftrightarrow> fs_node fs k = Some (File i)"
      by (simp add: create_dir_files)
    then show "content_at (snd (fs_create_dir_all p fs)) k = content_at fs k"
      using create_dir_files(1) [of p fs] by (auto simp: content_at_def split: option.split node.split)
  qed
qed

lemma fs_write_cases:
  "snd (fs_write p d fs) = fs \<or>
   (\<exists>i. fs_node fs (fs_res fs p) = Some (File i) \<and> snd (fs_write p d fs) = fs\<lparr>fs_data := (fs_data fs)(i := d)\<rparr>) \<or>
   (fs_node fs (fs_res fs p) = None \<and> snd (fs_write p d fs) = fs\<lparr>fs_tree := hm_insert (fs_res fs p) (File (fs_next fs)) (fs_tree fs),
      fs_data := (fs_data fs)(fs_next fs := d), fs_mode := (fs_mode fs)(fs_next fs := 420), fs_next := Suc (fs_next fs)\<rparr>)"
  by (auto simp: fs_write_def guarded_def bindA_def open_trunc_def new_file_def modify_def fd_write_def Let_def
      split: option.splits node.splits)

lemma fs_node_insert:
  "k \<noteq> [] \<Longrightarrow> fs_node (fs\<lparr>fs_tree := hm_insert k n (fs_tree fs), fs_data := a, fs_mode := b, fs_next := c\<rparr>) k' =
     (if k' = k then Some n else fs_node fs k')"
  by (simp add: fs_node_def update_conv')

lemma fs_write_effect:
  assumes ok: "inodes_ok fs"
  shows "inodes_ok (snd (fs_write p d fs)) \<and> (k \<noteq> fs_res fs p \<longrightarrow> content_at (snd (fs_write p d fs)) k = content_at fs k)"
proof (rule disjE [OF fs_write_cases [of p d fs]])
  assume "snd (fs_write p d fs) = fs"
  with ok show ?thesis by simp
next
  assume "(\<exists>i. fs_node fs (fs_res fs p) = Some (File i) \<and> snd (fs_write p d fs) = fs\<lparr>fs_data := (fs_data fs)(i := d)\<rparr>) \<or>
   (fs_node fs (fs_res fs p) = None \<and> snd (fs_write p d fs) = fs\<lparr>fs_tree := hm_insert (fs_res fs p) (File (fs_next fs)) (fs_tree fs),
      fs_data := (fs_data fs)(fs_next fs := d), fs_mode := (fs_mode fs)(fs_next fs := 420), fs_next := Suc (fs_next fs)\<rparr>)"
  then show ?thesis
  proof (elim disjE exE conjE)
    fix i
    assume i: "fs_node fs (fs_res fs p) = Some (File i)" and w: "snd (fs_write p d fs) = fs\<lparr>fs_data := (fs_data fs)(i := d)\<rparr>"
    have node: "fs_node (fs\<lparr>fs_data := a\<rparr>) = fs_node fs" for a by (rule ext) (simp add: fs_node_def)
    show ?thesis using ok i by (auto simp: w inodes_ok_def content_at_def node split: option.split node.split)
  next
    assume none: "fs_node fs (fs_res fs p) = None" and w: "snd (fs_write p d fs) = fs\<lparr>fs_tree := hm_insert (fs_res fs p) (File (fs_next fs)) (fs_tree fs),
      fs_data := (fs_data fs)(fs_next fs := d), fs_mode := (fs_mode fs)(fs_next fs := 420), fs_next := Suc (fs_next fs)\<rparr>"
    have "fs_res fs p \<noteq> []" using none by (auto simp: fs_node_def)
    note node = fs_node_insert [OF this]
    have fresh: "fs_node fs k' \<noteq> Some (File (fs_next fs))" for k' using ok by (auto simp: inodes_ok_def)
    have "inodes_ok (snd (fs_write p d fs))"
      unfolding inodes_ok_def w node using ok fresh by (auto simp: inodes_ok_def less_Suc_eq split: if_splits)
    moreover have "content_at (snd (fs_write p d fs)) k = content_at fs k" if "k \<noteq> fs_res fs p"
      unfolding w content_at_def node using that fresh [of k] by (auto split: option.split node.split)
    ultimately show ?thesis by blast
  qed
qed

text \<open>The path an entry of the archive is restored to.\<close>

lemma split_names: "list_all plain_name ns \<Longrightarrow> ns \<noteq> [] \<Longrightarrow> split_on (CHR ''/'') (join_with ''/'' ns) = ns"
  by (intro split_join) (auto simp: list_all_iff plain_name_def)

lemma rel_comps_names:
  assumes "list_all plain_name ns" and "ns \<noteq> []"
  shows "rel_comps (join_with ''/'' ns) = map Normal ns"
proof -
  have "filter (\<lambda>x. x \<noteq> '''' \<and> x \<noteq> ''.'') ns = ns" "map (\<lambda>x. if x = ''..'' then ParentDir else Normal x) ns = map Normal ns"
    using assms(1) by (auto simp: list_all_iff plain_name_def filter_id_conv)
  then show ?thesis by (simp add: rel_comps_def body_comps_def split_names [OF assms])
qed

lemma names_not_absolute: "list_all plain_name ns \<Longrightarrow> ns \<noteq> [] \<Longrightarrow> \<not> is_absolute (join_with ''/'' ns)"
  by (cases ns; cases "tl ns"; cases "hd ns") (auto simp: plain_name_def is_absolute_iff)

lemma restored_path:
  assumes "list_all plain_name ns" and "ns \<noteq> []"
  shows "resolve cwd (path_join backup_root (join_with ''/'' ns)) = resolve cwd backup_root @ ns"
  using names_not_absolute [OF assms] by (simp add: resolve_join rel_comps_names [OF assms] walk_normals backup_root_def)

lemma root_resolved: "resolve cwd backup_root = [''var'', ''run'', ''nyrun'']"
proof -
  have "components backup_root = [RootDir, Normal ''var'', Normal ''run'', Normal ''nyrun'']" by code_simp
  then show ?thesis by (simp add: resolve_def)
qed

abbreviation root :: rpath where
  "root \<equiv> [''var'', ''run'', ''nyrun'']"

text \<open>
  While a backup of \<open>fs1\<close> is restored: at the place \<open>ns\<close> the file system has what \<open>fs1\<close> had there, once
  that entry has been restored or if it had it before.
\<close>

definition restored :: "fsys \<Rightarrow> string list \<Rightarrow> nat \<Rightarrow> bool \<Rightarrow> fsys \<Rightarrow> bool" where
  "restored fs1 ns i b fs \<longleftrightarrow> inodes_ok fs \<and> (b \<longrightarrow> content_at fs (root @ ns) = Some (fs_data fs1 i))"

lemma restored_mkdir: "restored fs1 ns i b (snd (fs_create_dir_all p fs)) = restored fs1 ns i b fs"
  by (simp add: restored_def create_dir_keeps)

lemma wp_restored_mkdir: "restored fs1 ns i b fs \<Longrightarrow> wp (fs_create_dir_all p) (\<lambda>_. restored fs1 ns i b) (\<lambda>_ _. True) fs"
  using restored_mkdir [of fs1 ns i b p fs] by (auto simp: wp_def split: prod.split sum.split)

lemma wp_restored_write:
  assumes "tree_ok fs1" and "fs_node fs1 (root @ ms) = Some (File j)" "ms \<noteq> []" and "fs_node fs1 (root @ ns) = Some (File i)" "ns \<noteq> []"
    and "restored fs1 ns i b fs"
  shows "wp (fs_write (path_join backup_root (join_with ''/'' ms)) (fs_data fs1 j))
    (\<lambda>_. restored fs1 ns i (b \<or> file_entry fs1 ms j = file_entry fs1 ns i)) (\<lambda>_ _. True) fs"
proof -
  let ?out = "path_join backup_root (join_with ''/'' ms)"
  have plain: "list_all plain_name ms" "list_all plain_name ns" using assms(1,2,4) by (auto simp: tree_ok_def)
  have res: "fs_res f ?out = root @ ms" for f using restored_path [OF plain(1) assms(3)] by (simp add: root_resolved)
  have name: "file_entry fs1 ms j = file_entry fs1 ns i \<Longrightarrow> ms = ns"
    using split_names [OF plain(1) assms(3)] split_names [OF plain(2) assms(5)] by (metis file_entry_def zip_entry.ext_inject)
  have ok: "inodes_ok fs" using assms(6) by (simp add: restored_def)
  show ?thesis
  proof (cases "fs_write ?out (fs_data fs1 j) fs")
    case (Pair r fs')
    have eff: "inodes_ok fs'" "root @ ns \<noteq> root @ ms \<Longrightarrow> content_at fs' (root @ ns) = content_at fs (root @ ns)"
      using fs_write_effect [OF ok, of ?out "fs_data fs1 j" "root @ ns"] Pair by (simp_all add: res)
    show ?thesis
    proof (cases r)
      case (Inr u)
      have "fs_content fs' ?out = Some (fs_data fs1 j)" using fs_read_after_write Pair Inr by simp
      then have "content_at fs' (root @ ms) = Some (fs_data fs1 j)" by (simp add: fs_content_at res)
      then have "restored fs1 ns i (b \<or> file_entry fs1 ms j = file_entry fs1 ns i) fs'"
        using eff name assms(2,4,6) by (cases "ms = ns") (auto simp: restored_def)
      then show ?thesis using Pair Inr by (simp add: wp_def)
    qed (simp add: wp_def Pair)
  qed
qed

lemma wp_restore_entry:
  assumes "tree_ok fs1" and "entry_sound fs1 root e" and "z_read_to_end Z e = Inr (ze_content e)"
    and "fs_node fs1 (root @ ns) = Some (File i)" "ns \<noteq> []" and "restored fs1 ns i b fs"
  shows "wp (restore_entry Z (Inr e)) (\<lambda>_. restored fs1 ns i (b \<or> e = file_entry fs1 ns i)) (\<lambda>_ _. True) fs"
proof (cases "ze_dir e")
  case True
  then have "e \<noteq> file_entry fs1 ns i" by (auto simp: file_entry_def)
  then show ?thesis
    using True wp_restored_mkdir [OF assms(6)] by (simp add: restore_entry_def wp_simps Let_def)
next
  case False
  obtain ms j where ms: "ms \<noteq> []" "fs_node fs1 (root @ ms) = Some (File j)" "e = file_entry fs1 ms j"
    using assms(2) False by (auto simp: entry_sound_def)
  have e: "ze_name e = join_with ''/'' ms" "ze_content e = fs_data fs1 j" by (simp_all add: ms(3) file_entry_def)
  have wr: "wp (fs_write (path_join backup_root (join_with ''/'' ms)) (fs_data fs1 j))
      (\<lambda>_. restored fs1 ns i (b \<or> e = file_entry fs1 ns i)) (\<lambda>_ _. True) f" if "restored fs1 ns i b f" for f
    using wp_restored_write [OF assms(1) ms(2,1) assms(4,5) that] by (simp add: ms(3))
  have "wp (fs_create_dir_all p) (\<lambda>_. wp (fs_write (path_join backup_root (join_with ''/'' ms)) (fs_data fs1 j))
      (\<lambda>_. restored fs1 ns i (b \<or> e = file_entry fs1 ns i)) (\<lambda>_ _. True)) (\<lambda>_ _. True) fs" for p
    by (rule wp_mono [OF wp_restored_mkdir [OF assms(6)]]) (use wr in auto)
  then show ?thesis
    using wr [OF assms(6)] False assms(3) by (auto simp: restore_entry_def wp_simps wp_funs Let_def e split: option.split)
qed

lemma wp_restore_entries:
  assumes "tree_ok fs1" and "\<forall>e\<in>set zs. entry_sound fs1 root e \<and> z_read_to_end Z e = Inr (ze_content e)"
    and "fs_node fs1 (root @ ns) = Some (File i)" "ns \<noteq> []" and "restored fs1 ns i b fs"
  shows "wp (forA (map Inr zs) (restore_entry Z)) (\<lambda>_. restored fs1 ns i (b \<or> file_entry fs1 ns i \<in> set zs)) (\<lambda>_ _. True) fs"
  using assms(2,5)
proof (induction zs arbitrary: b fs)
  case (Cons e zs)
  show ?case
    unfolding list.map forA.simps wp_bindA
    by (rule wp_mono [OF wp_restore_entry [OF assms(1) _ _ assms(3,4) Cons.prems(2)]], use Cons.prems in simp, use Cons.prems in simp,
        rule wp_mono [OF Cons.IH]) (use Cons.prems in \<open>auto simp: disj_ac eq_commute\<close>)
qed (simp add: wp_simps)

text \<open>What the library promises: an archive is read as the entries it was written from.\<close>

definition zip_law :: "zip_api \<Rightarrow> bool" where
  "zip_law Z \<longleftrightarrow> (\<forall>zs bytes. z_finish Z zs = Inr bytes \<longrightarrow> z_archive Z bytes = Inr (map Inr zs)) \<and>
     (\<forall>e. z_read_to_end Z e = Inr (ze_content e))"


section \<open>The walk ends\<close>

definition zip_accepts :: "zip_api \<Rightarrow> bool" where
  "zip_accepts Z \<longleftrightarrow> (\<forall>x. z_add_directory Z x = Inr () \<and> z_start_file Z x = Inr () \<and> z_write_all Z x = Inr ())"

lemma wp_total_file:
  assumes "zip_accepts Z" and "fs_quiet (fst s)" and "fs_node (fst s) (fs_res (fst s) path) = Some (File i)"
  shows "wp (backup_file Z path rel) (\<lambda>_ s'. fst s' = fst s) (\<lambda>_ _. False) s"
proof -
  obtain fs zs where s: "s = (fs, zs)" by (cases s)
  have "fs_read path fs = (Inr (fs_data fs i), fs)" using assms(2,3) by (simp add: s fs_read_def)
  then show ?thesis
    using assms(1) by (simp add: s backup_file_def Let_def wp_simps zip_start_def zip_write_def zip_accepts_def wp_def [of "fs_read path"])
qed

lemma wp_total_names:
  assumes "\<And>x t. x \<in> set xs \<Longrightarrow> fst t = fst s \<Longrightarrow> wp (f x) (\<lambda>_ s'. fst s' = fst t) (\<lambda>_ _. False) t"
  shows "wp (forA xs f) (\<lambda>_ s'. fst s' = fst s) (\<lambda>_ _. False) s"
  by (rule wp_forA [where I = "\<lambda>_ s'. fst s' = fst s"]) (use assms in \<open>auto elim!: wp_mono\<close>)

lemma wp_walk_total:
  assumes "zip_accepts Z" and "tree_ok (fst s)" and "fs_quiet (fst s)" and "names_below base ns current"
    and "fs_node (fst s) (fs_res (fst s) base @ ns) = Some Dir"
    and "\<And>r. fs_node (fst s) (fs_res (fst s) base @ ns @ r) \<noteq> None \<Longrightarrow> length r < n"
  shows "wp (walk_dir n Z base current) (\<lambda>_ s'. fst s' = fst s) (\<lambda>_ _. False) s"
  using assms
proof (induction n arbitrary: ns current s)
  case 0
  then show ?case using "0.prems"(6) [of "[]"] by simp
next
  case (Suc n)
  let ?fs = "fst s" and ?R = "fs_res (fst s) base"
  have k: "fs_res ?fs current = ?R @ ns" using names_below_resolve [OF Suc.prems(4)] .
  obtain names where rd: "fs_read_dir current ?fs = (Inr names, ?fs)"
    using Suc.prems(3,5) k by (simp add: fs_read_dir_def)
  have step: "wp (walk_step Z base (walk_dir n Z base) current x) (\<lambda>_ s'. fst s' = fst t) (\<lambda>_ _. False) t"
    if x: "x \<in> set names" and t: "fst t = ?fs" for x t
  proof -
    note below = names_below_join [OF Suc.prems(4) read_dir_plain [OF Suc.prems(2) rd x]]
    have path: "fs_res ?fs (path_join current x) = ?R @ ns @ [x]" using names_below_resolve [OF below] by simp
    have there: "fs_node ?fs (?R @ ns @ [x]) \<noteq> None" using read_dir_names [OF Suc.prems(2) rd] x k by simp
    have deeper: "length r < n" if "fs_node ?fs (?R @ (ns @ [x]) @ r) \<noteq> None" for r
      using Suc.prems(6) [of "x # r"] that by simp
    show ?thesis
    proof (cases "fs_is_dir (path_join current x) ?fs")
      case True
      then have "fs_node ?fs (?R @ (ns @ [x])) = Some Dir" by (simp add: fs_is_dir_def path)
      then have "wp (walk_dir n Z base (path_join current x)) (\<lambda>_ s'. fst s' = ?fs) (\<lambda>_ _. False) u" if "fst u = ?fs" for u
        using Suc.IH [of u "ns @ [x]" "path_join current x"] Suc.prems(1-3) below deeper that by simp
      then show ?thesis
        using True t Suc.prems(1) by (cases t)
          (simp add: walk_step_def wp_simps names_below_strip [OF below] Let_def zip_dir_def zip_accepts_def)
    next
      case False
      then obtain i where "fs_node ?fs (fs_res ?fs (path_join current x)) = Some (File i)"
        using there path by (auto simp: fs_is_dir_def) (metis node.exhaust)
      then show ?thesis
        using False t wp_total_file [OF Suc.prems(1), of t "path_join current x" i] Suc.prems(3)
        by (simp add: walk_step_def wp_simps names_below_strip [OF below] Let_def)
    qed
  qed
  show ?case
  proof -
    have "wp (forA names (walk_step Z base (walk_dir n Z base) current)) (\<lambda>_ s'. fst s' = ?fs) (\<lambda>_ _. False) s"
      by (rule wp_total_names, rule step)
    then show ?thesis using rd by (simp add: wp_simps wp_def [of "fs_read_dir current"])
  qed
qed


section \<open>Names that leave the directory\<close>


section \<open>A concrete backup\<close>

definition sample_zip :: "zip_entry list \<Rightarrow> zip_api" where
  "sample_zip zs = \<lparr>z_add_directory = (\<lambda>_. Inr ()), z_start_file = (\<lambda>_. Inr ()), z_write_all = (\<lambda>_. Inr ()),
     z_finish = (\<lambda>es. if es = zs then Inr ''PK'' else Inl ''unsupported''), z_archive = (\<lambda>_. Inr (map Inr zs)), z_read_to_end = (\<lambda>e. Inr (ze_content e))\<rparr>"

definition sample_entries :: "zip_entry list" where
  "sample_entries = [\<lparr>ze_name = ''logs/'', ze_dir = True, ze_content = []\<rparr>, \<lparr>ze_name = ''logs/a.log'', ze_dir = False, ze_content = ''hello''\<rparr>]"

definition run_fs :: fsys where
  "run_fs = sample_fs\<lparr>fs_tree := [([''home''], Dir), ([''etc''], Dir), ([''var''], Dir), ([''var'', ''run''], Dir), ([''var'', ''run'', ''nyrun''], Dir),
     ([''var'', ''run'', ''nyrun'', ''nyrun.pid''], File 1), ([''var'', ''run'', ''nyrun'', ''logs''], Dir),
     ([''var'', ''run'', ''nyrun'', ''logs'', ''a.log''], File 2)], fs_data := (\<lambda>i. if i = 2 then ''hello'' else ''7''), fs_next := 3\<rparr>"

lemma tree_ok_check:
  "tree_ok fs \<longleftrightarrow> hm_wf (fs_tree fs) \<and>
     list_all (\<lambda>(k, n). hm_get (fs_tree fs) k = Some n \<longrightarrow> k \<noteq> [] \<longrightarrow> list_all plain_name k \<and> fs_node fs (butlast k) = Some Dir) (fs_tree fs)"
  unfolding tree_ok_def
  by (auto simp: fs_node_def list_all_iff dest: map_of_SomeD split: if_splits)

abbreviation sample_created :: fsys where
  "sample_created \<equiv> snd (fs_create (backup_output ''/home/b'') run_fs)"

abbreviation sample_backup :: "string result \<times> fsys" where
  "sample_backup \<equiv> create_backup (sample_zip sample_entries) ''/home/b'' run_fs"

lemma sample_create: "fs_create (backup_output ''/home/b'') run_fs = (Inr 3, sample_created)"
proof -
  have "fst (fs_create (backup_output ''/home/b'') run_fs) = Inr 3" by code_simp
  then show ?thesis by (simp add: prod_eq_iff)
qed

lemma sample_tree: "tree_ok sample_created"
  unfolding tree_ok_check by code_simp

lemma sample_backup_ok: "fst sample_backup = Inr ''/home/b.zip''"
  by code_simp

lemma sample_zip_only: "z_finish (sample_zip zs) es = Inr bytes \<Longrightarrow> es = zs \<and> bytes = ''PK''"
  by (simp add: sample_zip_def split: if_splits)

lemma sample_backup_run: "sample_backup = (Inr ''/home/b.zip'', snd sample_backup)"
  using sample_backup_ok by (simp add: prod_eq_iff)

theorem backup_holds_every_file_witness:
  "entries_cover sample_created root [] sample_entries"
  using backup_holds_every_file [OF sample_backup_run sample_create sample_tree] sample_zip_only
  by (auto simp: root_resolved)

definition fresh_fs :: fsys where
  "fresh_fs = sample_fs\<lparr>fs_tree := [([''var''], Dir), ([''b.zip''], File 5)], fs_data := (\<lambda>_. ''PK''), fs_next := 6\<rparr>"




end
