(* ===== verification/Daemon.thy ===== *)
theory Daemon
  imports Server
begin

text \<open>
  \<open>src/daemon.rs\<close>: the daemon's directories and pid file, how a client finds or starts the daemon, and
  the start of the daemon up to the point where it serves requests. Connecting to the socket, the
  path of the own executable and the spawning of it are the fields of the record \<open>host_api\<close>; what the
  spawned daemon has done after half a second is in the world that the spawn returns.
\<close>

section \<open>Files\<close>

definition nyrun_dir :: string where "nyrun_dir = ''/var/run/nyrun''"
definition pid_path :: string where "pid_path = ''/var/run/nyrun/nyrun.pid''"
definition sock_path :: string where "sock_path = ''/var/run/nyrun/nyrun.sock''"

definition run_dirs :: "string list" where
  "run_dirs = map (\<lambda>d. if d = [] then nyrun_dir else nyrun_dir @ ''/'' @ d) ['''', ''logs'', ''certs'', ''oci'', ''state'']"

definition ensure_run_dirs :: "(fsys, unit) act" where
  "ensure_run_dirs = forA run_dirs (\<lambda>path. ignore (fs_create_dir_all path))"

definition write_pid :: "u32 \<Rightarrow> (fsys, unit) act" where
  "write_pid pid = ignore (fs_write pid_path (show_word pid))"

definition cleanup :: "(fsys, unit) act" where
  "cleanup = bindA (ignore (fs_remove_file sock_path)) (\<lambda>_. ignore (fs_remove_file pid_path))"

section \<open>Finding the daemon\<close>

record 'e host_api =
  hp_connect :: "'e world \<Rightarrow> unit result"
  hp_current_exe :: "string result"
  hp_spawn :: "string \<Rightarrow> ('e world, unit) act"

definition is_daemon_running :: "'e host_api \<Rightarrow> 'e world \<Rightarrow> bool" where
  "is_daemon_running A w \<longleftrightarrow> fs_exists sock_path (w_fs w) \<and> is_ok (hp_connect A w)"

definition spawn_daemon :: "'e host_api \<Rightarrow> ('e world, unit) act" where
  "spawn_daemon A =
     bindA (map_err (\<lambda>e. ''cannot find own executable: '' @ e) (lift_result (hp_current_exe A))) (\<lambda>exe.
     bindA (map_err (\<lambda>e. ''failed to spawn daemon: '' @ e) (hp_spawn A exe)) (\<lambda>_.
     bindA (gets (is_daemon_running A)) (\<lambda>up. if up then ok () else err ''daemon failed to start'')))"

definition ensure_daemon :: "'e host_api \<Rightarrow> ('e world, unit) act" where
  "ensure_daemon A = bindA (gets (is_daemon_running A)) (\<lambda>up. if up then ok () else spawn_daemon A)"

text \<open>
  A client that goes on after \<open>ensure_daemon\<close> finds a daemon that listens; a daemon that was
  already there is left alone.
\<close>

theorem ensure_daemon_running:
  assumes "ensure_daemon A w = (Inr (), w')"
  shows "is_daemon_running A w' \<and> (if is_daemon_running A w then w' = w else \<exists>exe. hp_spawn A exe w = (Inr (), w'))"
  using assms
  by (auto simp: ensure_daemon_def spawn_daemon_def bindA_Inr lift_result_def gets_def split: if_splits sum.splits)

section \<open>Starting\<close>

text \<open>
  The daemon up to \<open>run_server\<close>: an exit code, or the state it serves from. The metrics registry is new.
\<close>

definition restore_saved :: "'e xt \<Rightarrow> process_config list \<Rightarrow> ('e dstate, unit) act" where
  "restore_saved X saved =
     bindA (if saved = [] then ok () else onPM (restore_processes X saved)) (\<lambda>_.
     bindA (onV (onX (load_cloud_config X))) (\<lambda>c.
     case c of None \<Rightarrow> ok () | Some agent \<Rightarrow> onD (\<lambda>d. d\<lparr>ds_agent := Some agent\<rparr>)))"

definition run_daemon :: "'e xt \<Rightarrow> ('e, unit) act \<Rightarrow> u32 \<Rightarrow> 'e world \<Rightarrow> nat + 'e dstate" where
  "run_daemon X open_store pid w =
     (case bindA (onF ensure_run_dirs) (\<lambda>_.
           bindA (onF (write_pid pid)) (\<lambda>_.
           bindA (modify (\<lambda>w. w\<lparr>w_metrics := []\<rparr>)) (\<lambda>_.
           bindA (onX open_store) (\<lambda>_.
           bindA (migrate_json_to_slatedb X) (\<lambda>_. onX (load_state X)))))) w of
        (Inl e, _) \<Rightarrow> Inl 1
      | (Inr saved, w') \<Rightarrow> Inr (snd (restore_saved X saved (daemon_new, w'))))"

definition no_metrics :: "'e world \<Rightarrow> bool" where
  "no_metrics w \<longleftrightarrow> w_metrics w = []"

lemma no_metrics_intros [pres_intros]: "preserves no_metrics (onF m)" "preserves no_metrics (onX n)"
  by (simp_all add: preserves_def no_metrics_def)

lemma migrate_no_metrics [pres_intros]: "preserves no_metrics (migrate_json_to_slatedb X)"
  unfolding migrate_json_to_slatedb_def by (intro pres_intros)

lemma run_daemon_from_init:
  assumes "run_daemon X open_store pid w = Inr s"
  obtains saved w' e where "d_init (daemon_new, w')" "s = snd (restore_saved X saved (daemon_new, w'))"
    "load_state X e = (Inr saved, w_x w')"
proof -
  let ?rest = "bindA (onX open_store) (\<lambda>_. bindA (migrate_json_to_slatedb X) (\<lambda>_. onX (load_state X)))"
  obtain saved w1 w' where rest: "?rest (w1\<lparr>w_metrics := []\<rparr>) = (Inr saved, w')"
    and s: "s = snd (restore_saved X saved (daemon_new, w'))"
    using assms by (auto simp: run_daemon_def bindA_def modify_def split: prod.splits sum.splits)
  obtain w2 where "onX (load_state X) w2 = (Inr saved, w')" using rest by (auto simp: bindA_Inr)
  then have load: "load_state X (w_x w2) = (Inr saved, w_x w')" by (auto simp: onX_def zoom_def split: prod.splits)
  have "preserves no_metrics ?rest" by (intro pres_intros)
  from preservesD [OF this, of "w1\<lparr>w_metrics := []\<rparr>"] have "no_metrics w'"
    unfolding rest by (simp add: no_metrics_def)
  then show ?thesis using that s load by (simp add: d_init_def no_metrics_def)
qed

lemma restore_saved_inv: "preserves d_inv (restore_saved X saved)"
  unfolding restore_saved_def by (intro pres_intros d_inv_onD) simp_all

text \<open>
  C22: The invariant of the daemon holds of the state that a start produces, whatever was saved and
  whatever fails to start again, and from then on through every sequence of requests and health
  checks.
\<close>

theorem started_daemon_invariant:
  assumes "run_daemon X open_store pid w = Inr s"
  shows "d_inv (fold (d_step X) steps s)"
proof -
  obtain saved w' where "d_init (daemon_new, w')" and s: "s = snd (restore_saved X saved (daemon_new, w'))"
    using run_daemon_from_init [OF assms] by blast
  then have "d_inv s" using preservesD [OF restore_saved_inv dm.inv_init] by metis
  then show ?thesis by (rule dm.inv_run)
qed

definition restored_from :: "process_config list \<Rightarrow> 'e dstate \<Rightarrow> bool" where
  "restored_from saved s \<longleftrightarrow> ds_proxy (fst s) = proxy_new \<and> ds_acme (fst s) = [] \<and>
     (\<forall>n p. dprocs s n = Some p \<longrightarrow> (\<exists>c\<in>set saved. pc_name c = n \<and> started c p))"

lemma restored_leaves [pres_intros]:
  "preserves (restored_from saved) (onV m)"
  "preserves (restored_from saved) (onD (\<lambda>d. d\<lparr>ds_agent := a\<rparr>))"
  by (simp_all add: preserves_def restored_from_def on_run onD_def)

lemma restored_spawn: "c \<in> set saved \<Longrightarrow> preserves (restored_from saved) (onPM (spawn_process X c))"
  unfolding preserves_wp wp_onPM
  by (intro allI impI wp_spawn_process) (auto simp: restored_from_def hm_get_insert)

lemma onPM_restore: "onPM (restore_processes X cs) = forA cs (\<lambda>c. ignore (onPM (spawn_process X c)))"
proof -
  have "onPM (bindA m f) = bindA (onPM m) (\<lambda>a. onPM (f a))" for m :: "('a pstate, unit) act" and f :: "unit \<Rightarrow> ('a pstate, unit) act"
    by (rule ext) (simp add: onPM_def zoom_def bindA_def split: prod.split sum.split)
  moreover have "onPM (ok ()) = (ok () :: ('a dstate, unit) act)"
    by (rule ext) (simp add: onPM_def zoom_def ok_def)
  moreover have "onPM (ignore m) = ignore (onPM m)" for m :: "('a pstate, string) act"
    by (rule ext) (simp add: onPM_def zoom_def ignore_def split: prod.split)
  ultimately show ?thesis unfolding restore_processes_def by (induction cs) simp_all
qed

lemma restored_processes: "set cs \<subseteq> set saved \<Longrightarrow> preserves (restored_from saved) (onPM (restore_processes X cs))"
  unfolding onPM_restore by (induction cs) (auto intro!: pres_intros restored_spawn)


section \<open>A concrete start\<close>

definition live_xt :: "(string, string) hmap xt" where
  "live_xt = db_xt\<lparr>x_spawn := (\<lambda>_ _ d. (Inr \<lparr>ch_handle = 1, ch_id = Some 9\<rparr>, d))\<rparr>"

definition boot_world :: "(string, string) hmap world" where
  "boot_world = \<lparr>w_fs = sample_fs, w_metrics = [], w_x = [(config_prefix @ ''web'', ''web'')]\<rparr>"

abbreviation boot :: "nat + (string, string) hmap dstate" where
  "boot \<equiv> run_daemon live_xt (\<lambda>d. (Inr (), d)) 7 boot_world"

lemma boot_starts: "boot = Inr (projr boot)"
proof -
  have "(case boot of Inr s \<Rightarrow> True | Inl _ \<Rightarrow> False)" by code_simp
  then show ?thesis by (simp split: sum.splits)
qed

theorem started_daemon_invariant_witness:
  "d_inv (fold (d_step live_xt) [Req ReqSave, Tick, Req (ReqDel ''web'')] (projr boot))"
  by (rule started_daemon_invariant [OF boot_starts])


theorem ensure_daemon_running_witness:
  "is_daemon_running \<lparr>hp_connect = (\<lambda>_. Inr ()), hp_current_exe = Inr ''/usr/bin/nyrun'',
       hp_spawn = (\<lambda>_ w. (Inr (), w\<lparr>w_fs := sample_fs\<lparr>fs_tree := [([''var'', ''run'', ''nyrun'', ''nyrun.sock''], File 1)]\<rparr>\<rparr>))\<rparr>
     (sample_world\<lparr>w_fs := sample_fs\<lparr>fs_tree := [([''var'', ''run'', ''nyrun'', ''nyrun.sock''], File 1)]\<rparr>\<rparr>)"
    (is "is_daemon_running ?A ?w")
proof -
  have "\<not> is_daemon_running ?A sample_world" by code_simp
  moreover have "fs_exists sock_path (w_fs ?w)" by code_simp
  ultimately have "ensure_daemon ?A sample_world = (Inr (), ?w)"
    by (simp add: ensure_daemon_def spawn_daemon_def bindA_def gets_def map_err_def lift_result_def ok_def is_daemon_running_def)
  from ensure_daemon_running [OF this] show ?thesis ..
qed

end
