(* ===== verification/Client.thy ===== *)
theory Client
  imports Daemon
begin

text \<open>
  \<open>src/client.rs\<close> and the connection handler of \<open>src/server.rs\<close>: a request travels to the daemon over the
  socket and its response comes back, and the response is printed. A connection is a pair of byte
  queues; the JSON encoding of messages is the record \<open>wire\<close>.
\<close>

section \<open>A connection\<close>

record duplex =
  dx_to_server :: "u8 list"
  dx_to_client :: "u8 list"

record wire =
  wr_req_to :: "request \<Rightarrow> u8 list result"
  wr_req_from :: "u8 list \<Rightarrow> request result"
  wr_resp_to :: "response \<Rightarrow> u8 list result"
  wr_resp_from :: "u8 list \<Rightarrow> response result"

type_synonym 'e conn = "'e dstate \<times> duplex"

definition to_server :: "(u8 list, 'a) act \<Rightarrow> ('e conn, 'a) act" where
  "to_server = zoom (dx_to_server \<circ> snd) (\<lambda>b c. (fst c, (snd c)\<lparr>dx_to_server := b\<rparr>))"

definition to_client :: "(u8 list, 'a) act \<Rightarrow> ('e conn, 'a) act" where
  "to_client = zoom (dx_to_client \<circ> snd) (\<lambda>b c. (fst c, (snd c)\<lparr>dx_to_client := b\<rparr>))"

text \<open>
  The daemon's side: an unreadable request is dropped without an answer, and so is one whose handler
  panics.
\<close>

definition handle_client :: "'e xt \<Rightarrow> wire \<Rightarrow> 'e conn \<Rightarrow> 'e conn" where
  "handle_client X W c =
     (case to_server (read_message (wr_req_from W) mem_read_exact) c of
        (Inl _, c1) \<Rightarrow> c1
      | (Inr req, c1) \<Rightarrow>
          (case handle_request X req (fst c1) of
             (None, s) \<Rightarrow> (s, snd c1)
           | (Some resp, s) \<Rightarrow> snd (to_client (write_message (wr_resp_to W) mem_write_all mem_flush resp) (s, snd c1))))"

text \<open>The client's side; \<open>serve\<close> is what the daemon does between the request and the response.\<close>

definition send_request_local ::
  "wire \<Rightarrow> unit result \<Rightarrow> ('e conn \<Rightarrow> 'e conn) \<Rightarrow> request \<Rightarrow> ('e conn, response) act" where
  "send_request_local W connect serve request =
     bindA (map_err (\<lambda>e. ''failed to connect to daemon: '' @ e) (lift_result connect)) (\<lambda>_.
     bindA (map_err (\<lambda>e. ''failed to send request: '' @ e) (to_server (write_message (wr_req_to W) mem_write_all mem_flush request))) (\<lambda>_.
     bindA (modify serve) (\<lambda>_.
     map_err (\<lambda>e. ''failed to read response: '' @ e) (to_client (read_message (wr_resp_from W) mem_read_exact)))))"

definition empty_duplex :: duplex where
  "empty_duplex = \<lparr>dx_to_server = [], dx_to_client = []\<rparr>"

lemma to_server_write:
  "wr_req_to W req = Inr d \<Longrightarrow>
   to_server (write_message (wr_req_to W) mem_write_all mem_flush req) (s, empty_duplex) =
     (Inr (), (s, \<lparr>dx_to_server = to_be_bytes (of_nat (length d)) @ d, dx_to_client = []\<rparr>))"
  by (simp add: to_server_def zoom_def write_message_mem [of "wr_req_to W"] empty_duplex_def)

lemma read_framed:
  assumes "from_slice d = Inr m" and "length d \<le> max_message"
  shows "read_message from_slice mem_read_exact (to_be_bytes (of_nat (length d)) @ d) = (Inr m, [])"
  using message_roundtrip [of "\<lambda>_. Inr d" m d from_slice "[]"] assms write_message_mem [of "\<lambda>_. Inr d" m d "[]"] by simp

text \<open>Up to the client's read: the daemon has handled the request and its response is in the stream.\<close>

lemma request_served:
  assumes "wr_req_to W req = Inr d" and "wr_req_from W d = Inr req" and "length d \<le> max_message"
    and "handle_request X req s = (Some resp, s')" and "wr_resp_to W resp = Inr d'"
  shows "send_request_local W (Inr ()) (handle_client X W) req (s, empty_duplex) =
    map_err (\<lambda>e. ''failed to read response: '' @ e) (to_client (read_message (wr_resp_from W) mem_read_exact))
      (s', \<lparr>dx_to_server = [], dx_to_client = to_be_bytes (of_nat (length d')) @ d'\<rparr>)"
proof -
  let ?c = "(s, \<lparr>dx_to_server = to_be_bytes (of_nat (length d)) @ d, dx_to_client = []\<rparr>)"
  have "to_server (read_message (wr_req_from W) mem_read_exact) ?c = (Inr req, (s, empty_duplex))"
    by (simp add: to_server_def zoom_def read_framed [of "wr_req_from W", OF assms(2,3)] empty_duplex_def)
  then have served: "handle_client X W ?c = (s', \<lparr>dx_to_server = [], dx_to_client = to_be_bytes (of_nat (length d')) @ d'\<rparr>)"
    using assms(4) by (simp add: handle_client_def to_client_def zoom_def write_message_mem [of "wr_resp_to W", OF assms(5)] empty_duplex_def)
  have conn: "map_err g (lift_result (Inr ())) (s, empty_duplex) = (Inr (), (s, empty_duplex))" for g
    by (simp add: map_err_def lift_result_def ok_def)
  have sent: "map_err g (to_server (write_message (wr_req_to W) mem_write_all mem_flush req)) (s, empty_duplex) = (Inr (), ?c)" for g
    by (simp add: to_server_write [OF assms(1)])
  show ?thesis
    unfolding send_request_local_def by (subst bindA_value, rule conn, subst bindA_value, rule sent) (simp add: served)
qed

lemma request_answered:
  assumes "wr_req_to W req = Inr d" and "wr_req_from W d = Inr req" and "length d \<le> max_message"
    and "handle_request X req s = (Some resp, s')"
    and "wr_resp_to W resp = Inr d'" and "wr_resp_from W d' = Inr resp" and "length d' \<le> max_message"
  shows "send_request_local W (Inr ()) (handle_client X W) req (s, empty_duplex) = (Inr resp, (s', empty_duplex))"
  unfolding request_served [OF assms(1-5)]
  by (simp add: map_err_def to_client_def zoom_def read_framed [of "wr_resp_from W", OF assms(6,7)] empty_duplex_def)

text \<open>The request is read back as it was written, and fits the limit of a message.\<close>

definition wire_reads :: "wire \<Rightarrow> request \<Rightarrow> bool" where
  "wire_reads W req \<longleftrightarrow> (\<exists>d. wr_req_to W req = Inr d \<and> wr_req_from W d = Inr req \<and> length d \<le> max_message)"

text \<open>Whatever becomes of the response, the daemon has handled the request.\<close>

lemma request_effect:
  assumes "wire_reads W req"
  shows "fst (snd (send_request_local W (Inr ()) (handle_client X W) req (s, empty_duplex))) = snd (handle_request X req s)"
proof -
  obtain d where d: "wr_req_to W req = Inr d" "wr_req_from W d = Inr req" "length d \<le> max_message"
    using assms by (auto simp: wire_reads_def)
  let ?c = "(s, \<lparr>dx_to_server = to_be_bytes (of_nat (length d)) @ d, dx_to_client = []\<rparr>)"
  have "to_server (read_message (wr_req_from W) mem_read_exact) ?c = (Inr req, (s, empty_duplex))"
    by (simp add: to_server_def zoom_def read_framed [of "wr_req_from W", OF d(2,3)] empty_duplex_def)
  then have served: "fst (handle_client X W ?c) = snd (handle_request X req s)"
    by (simp add: handle_client_def to_client_def zoom_def split: prod.split option.split)
  have conn: "map_err g (lift_result (Inr ())) (s, empty_duplex) = (Inr (), (s, empty_duplex))" for g
    by (simp add: map_err_def lift_result_def ok_def)
  have sent: "map_err g (to_server (write_message (wr_req_to W) mem_write_all mem_flush req)) (s, empty_duplex) = (Inr (), ?c)" for g
    by (simp add: to_server_write [OF d(1)])
  show ?thesis
    unfolding send_request_local_def by (subst bindA_value, rule conn, subst bindA_value, rule sent)
      (simp add: served map_err_def to_client_def zoom_def split: prod.split sum.split)
qed

lemma request_refused:
  "send_request_local W (Inl e) serve req c = (Inl (''failed to connect to daemon: '' @ e), c)"
  by (simp add: send_request_local_def bindA_def map_err_def lift_result_def err_def)

text \<open>
  C19: A request that the client sends is the request the daemon handles, and the client gets exactly the
  response of its handler, with nothing left in either direction, as long as both fit the message limit.
\<close>

theorem request_reaches_handler:
  assumes "wr_req_to W req = Inr d" and "wr_req_from W d = Inr req" and "length d \<le> max_message"
    and "handle_request X req s = (Some resp, s')"
    and "wr_resp_to W resp = Inr d'" and "wr_resp_from W d' = Inr resp" and "length d' \<le> max_message"
  shows "send_request_local W (Inr ()) (handle_client X W) req (s, empty_duplex) = (Inr resp, (s', empty_duplex))"
  using assms by (rule request_answered)

text \<open>
  A response longer than the limit is written by the daemon and refused by the client: the request has
  taken effect, and the client reports an error.
\<close>

theorem oversized_response_is_lost:
  assumes "wr_req_to W req = Inr d" and "wr_req_from W d = Inr req" and "length d \<le> max_message"
    and "handle_request X req s = (Some resp, s')"
    and "wr_resp_to W resp = Inr d'" and "max_message < length d'" and "length d' < 2 ^ 32"
  shows "\<exists>c. send_request_local W (Inr ()) (handle_client X W) req (s, empty_duplex) =
    (Inl ''failed to read response: message too large'', (s', c))"
proof -
  have "read_message (wr_resp_from W) mem_read_exact (to_be_bytes (of_nat (length d')) @ d') = (Inl ''message too large'', d')"
    using unat_of_len [OF assms(7)] assms(6) by (simp add: read_message_def bindA_def read_header Let_def err_def)
  then show ?thesis
    unfolding request_served [OF assms(1-5)] by (simp add: map_err_def to_client_def zoom_def)
qed

section \<open>Printing\<close>

definition format_uptime :: "u64 \<Rightarrow> string" where
  "format_uptime secs =
     (if secs < 60 then show_word secs @ ''s''
      else if secs < 3600 then show_word (secs div 60) @ ''m '' @ show_word (secs mod 60) @ ''s''
      else if secs < 86400 then show_word (secs div 3600) @ ''h '' @ show_word ((secs mod 3600) div 60) @ ''m''
      else show_word (secs div 86400) @ ''d '' @ show_word ((secs mod 86400) div 3600) @ ''h'')"

text \<open>\<open>{:<n}\<close>.\<close>

definition pad :: "nat \<Rightarrow> string \<Rightarrow> string" where
  "pad n s = s @ replicate (n - length s) (CHR '' '')"

definition table_row :: "string list \<Rightarrow> string" where
  "table_row cells = join_with '' '' (map2 pad [20, 8, 10, 8, 15, 10] cells)"

definition show_status :: "process_status \<Rightarrow> string" where
  "show_status st = (case st of Running \<Rightarrow> ''Running'' | Stopped \<Rightarrow> ''Stopped'' | Errored \<Rightarrow> ''Errored'' | Starting \<Rightarrow> ''Starting'')"

definition show_mode :: "process_mode \<Rightarrow> string" where
  "show_mode m = (case m of Bin \<Rightarrow> ''Bin'' | Run \<Rightarrow> ''Run'')"

definition port_column :: "port_mapping option \<Rightarrow> string" where
  "port_column x =
     (case x of
        None \<Rightarrow> ''-''
      | Some pm \<Rightarrow>
          (case pm_host pm of
             Some host \<Rightarrow> host @ '':'' @ show_word (pm_public_port pm) @ '':''
                @ show_word (case pm_app_port pm of Some a \<Rightarrow> a | None \<Rightarrow> pm_public_port pm)
           | None \<Rightarrow>
               (case pm_app_port pm of
                  Some app \<Rightarrow> show_word (pm_public_port pm) @ '':'' @ show_word app
                | None \<Rightarrow> show_word (pm_public_port pm))))"

definition process_row :: "process_info \<Rightarrow> string" where
  "process_row p = table_row
     [pi_name p, (case pi_pid p of Some n \<Rightarrow> show_word n | None \<Rightarrow> ''-''), show_status (pi_status p), show_mode (pi_mode p),
      port_column (pi_port_mapping p), (case pi_uptime_secs p of Some t \<Rightarrow> format_uptime t | None \<Rightarrow> ''-'')]"

definition print_process_list :: "process_info list \<Rightarrow> string list" where
  "print_process_list ps =
     (if ps = [] then [''no processes running'']
      else table_row [''NAME'', ''PID'', ''STATUS'', ''MODE'', ''PORT'', ''UPTIME''] # replicate 75 (CHR ''-'') # map process_row ps)"

text \<open>What is printed: to standard output, or to standard error.\<close>

datatype printed = Out string | OutLine string | ErrLine string

definition print_response :: "response \<Rightarrow> printed list" where
  "print_response r =
     (case r of
        RespOk msg \<Rightarrow> [OutLine msg]
      | RespProcessList ps \<Rightarrow> map OutLine (print_process_list ps)
      | RespConfigList _ \<Rightarrow> []
      | RespLogs logs \<Rightarrow> [Out logs]
      | RespError e \<Rightarrow> [ErrLine (''error: '' @ e)])"

definition execute :: "response result \<Rightarrow> printed list" where
  "execute r = (case r of Inr response \<Rightarrow> print_response response | Inl e \<Rightarrow> [ErrLine (''error: '' @ e)])"

text \<open>
  What \<open>nyrun ls\<close> shows in its port column can be given back on the command line: it is parsed to the same
  mapping, an application port that the column spells out included.
\<close>

theorem port_column_parses:
  assumes "host_ok pm"
  shows "parse_port_mapping (port_column (Some pm)) = Inr (port_norm pm)"
proof -
  have "port_column (Some pm) = port_string pm" by (simp add: port_column_def port_string_def split: option.split)
  then show ?thesis using parse_port_string [OF assms] by simp
qed

theorem port_column_parses_witness:
  "parse_port_mapping (port_column (Some \<lparr>pm_host = Some ''a.b'', pm_public_port = 80, pm_app_port = None\<rparr>)) =
     Inr \<lparr>pm_host = Some ''a.b'', pm_public_port = 80, pm_app_port = Some 80\<rparr>"
proof -
  let ?pm = "\<lparr>pm_host = Some ''a.b'', pm_public_port = 80, pm_app_port = None\<rparr>"
  have "host_ok ?pm" by (simp add: host_ok_def)
  from port_column_parses [OF this] show ?thesis by (simp add: port_norm_def)
qed

section \<open>A concrete exchange\<close>

text \<open>An encoding of one request and its response.\<close>

definition sample_wire :: "u8 list \<Rightarrow> wire" where
  "sample_wire reply = \<lparr>wr_req_to = (\<lambda>_. Inr [1]), wr_req_from = (\<lambda>_. Inr ReqMetricsDisable),
     wr_resp_to = (\<lambda>_. Inr reply), wr_resp_from = (\<lambda>_. Inr (RespOk ''metrics server is not running''))\<rparr>"

lemma sample_handled:
  "handle_request sample_xt ReqMetricsDisable (daemon_new, sample_world) = (Some (RespOk ''metrics server is not running''), (daemon_new, sample_world))"
  by (simp add: handle_request_def handle_metrics_disable_def bindA_def gets_def daemon_new_def ok_def)

theorem request_reaches_handler_witness:
  "send_request_local (sample_wire [2, 3]) (Inr ()) (handle_client sample_xt (sample_wire [2, 3])) ReqMetricsDisable ((daemon_new, sample_world), empty_duplex) =
     (Inr (RespOk ''metrics server is not running''), ((daemon_new, sample_world), empty_duplex))"
  by (rule request_reaches_handler [OF _ _ _ sample_handled, of _ "[1]" "[2, 3]"]) (simp_all add: sample_wire_def max_message_def)

theorem oversized_response_is_lost_witness:
  "\<exists>c. send_request_local (sample_wire (replicate 10485761 0)) (Inr ()) (handle_client sample_xt (sample_wire (replicate 10485761 0))) ReqMetricsDisable
       ((daemon_new, sample_world), empty_duplex) =
     (Inl ''failed to read response: message too large'', ((daemon_new, sample_world), c))"
  by (rule oversized_response_is_lost [OF _ _ _ sample_handled, of _ "[1]" "replicate 10485761 0"]) (simp_all add: sample_wire_def max_message_def)

text \<open>An encoding of a restart and the answer to it, when nothing runs under the name.\<close>

definition restart_wire :: wire where
  "restart_wire = \<lparr>wr_req_to = (\<lambda>_. Inr [1]), wr_req_from = (\<lambda>_. Inr (ReqRestart ''web'')),
     wr_resp_to = (\<lambda>_. Inr [2]), wr_resp_from = (\<lambda>_. Inr (RespError (not_found ''web'')))\<rparr>"

lemma restart_unknown:
  "handle_request sample_xt (ReqRestart ''web'') (daemon_new, w) = (Some (RespError (not_found ''web'')), (daemon_new, w))"
  by (simp add: handle_request_def as_ok_def onPM_def zoom_def restart_def bindA_def gets_def daemon_new_def process_manager_new_def ok_def err_def lookup_process_def)

lemma wire_reads_restart: "wire_reads restart_wire (ReqRestart ''web'')"
  by (simp add: wire_reads_def restart_wire_def max_message_def)

end
