(* ===== verification/Cloud.thy ===== *)
theory Cloud
  imports Client
begin

text \<open>
  \<open>src/cloud.rs\<close>: the agent that keeps a connection to the cloud service. Its life is a step relation
  over connecting, waiting and stopped; a connection authenticates, then answers timer ticks and
  incoming messages; a command from the cloud takes the way of a request of the command line. The
  JSON of the messages is the record \<open>cloud_codec\<close> and what one connection of the web socket yields is
  the record \<open>transcript\<close>. The daemon reached through a session is the daemon that handles the
  session's commands one after the other.
\<close>

section \<open>Messages\<close>

datatype cloud_action =
    ActRestart string
  | ActReload string
  | ActDel string
  | ActUpdate string "string option" "string list option" "string option" "string option" "string option" "string option"

datatype cloud_message =
    CmAuth string
  | CmHeartbeat
  | CmStatus "process_info list"
  | CmLogs string string
  | CmCommand cloud_action
  | CmAuthOk
  | CmError string

definition action_request :: "cloud_action \<Rightarrow> request" where
  "action_request action =
     (case action of
        ActRestart name \<Rightarrow> ReqRestart name
      | ActReload name \<Rightarrow> ReqReload name
      | ActDel name \<Rightarrow> ReqDel name
      | ActUpdate name port ssl acme env_file args img \<Rightarrow> ReqUpdate name port ssl acme env_file args img)"

text \<open>What the web socket carries; the library hands out a message, an error, or the end of the stream.\<close>

datatype ws_message = WsText string | WsBinary "u8 list" | WsPing "u8 list" | WsPong "u8 list" | WsClose

record cloud_codec =
  cj_to :: "cloud_message \<Rightarrow> string"
  cj_from :: "string \<Rightarrow> cloud_message result"
  cj_response :: "response \<Rightarrow> string"
  cj_debug :: "ws_message \<Rightarrow> string"

section \<open>A connection\<close>

text \<open>
  The state of a connection is the daemon with the messages sent so far. Whether a send succeeds is up
  to the web socket: each event of the main loop comes with the result of the send that answers it.
\<close>

type_synonym 'e session = "'e dstate \<times> ws_message list"

definition onDaemon :: "('e dstate, 'a) act \<Rightarrow> ('e session, 'a) act" where
  "onDaemon = zoom fst (\<lambda>s c. (s, snd c))"

definition ws_send :: "unit result \<Rightarrow> ws_message \<Rightarrow> ('e session, unit) act" where
  "ws_send outcome m = bindA (lift_result outcome) (\<lambda>_. modify (\<lambda>c. (fst c, snd c @ [m])))"

text \<open>A command goes through the daemon's own socket; \<open>ipc\<close> is the result of connecting to it.\<close>

definition execute_cloud_command :: "'e xt \<Rightarrow> wire \<Rightarrow> unit result \<Rightarrow> cloud_action \<Rightarrow> ('e dstate, response) act" where
  "execute_cloud_command X W ipc action s =
     (case send_request_local W ipc (handle_client X W) (action_request action) (s, empty_duplex) of
        (Inr resp, c) \<Rightarrow> (Inr resp, fst c)
      | (Inl e, c) \<Rightarrow> (Inr (RespError (''IPC error: '' @ e)), fst c))"

definition authenticate :: "cloud_codec \<Rightarrow> string \<Rightarrow> unit result \<Rightarrow> ws_message result option \<Rightarrow> ('e session, unit) act" where
  "authenticate J api_key outcome reply =
     bindA (map_err (\<lambda>e. ''failed to send auth: '' @ e) (ws_send outcome (WsText (cj_to J (CmAuth api_key))))) (\<lambda>_.
     case reply of
       Some (Inr (WsText text_)) \<Rightarrow>
         (case cj_from J text_ of
            Inr CmAuthOk \<Rightarrow> ok ()
          | Inr (CmError message) \<Rightarrow> err (''cloud auth rejected: '' @ message)
          | _ \<Rightarrow> err (''unexpected auth response: '' @ text_))
     | Some (Inr msg) \<Rightarrow> err (''unexpected message type during auth: '' @ cj_debug J msg)
     | Some (Inl e) \<Rightarrow> err (''WebSocket error during auth: '' @ e)
     | None \<Rightarrow> err ''connection closed during auth'')"

datatype session_event =
    HeartbeatTick "unit result"
  | StatusTick "unit result"
  | Incoming "ws_message result option" "unit result" "unit result"

text \<open>
  One turn of the main loop: the value is None when the loop goes on, and \<open>Some ()\<close> when the function
  returns without an error. The first result of an incoming message is that of connecting to the
  daemon's socket, the second that of sending the answer.
\<close>

definition session_turn ::
  "'e xt \<Rightarrow> wire \<Rightarrow> cloud_codec \<Rightarrow> session_event \<Rightarrow> ('e session, unit option) act" where
  "session_turn X W J ev =
     (case ev of
        HeartbeatTick outcome \<Rightarrow>
          bindA (map_err (\<lambda>e. ''heartbeat send failed: '' @ e) (ws_send outcome (WsText (cj_to J CmHeartbeat)))) (\<lambda>_. ok None)
      | StatusTick outcome \<Rightarrow>
          bindA (gets (\<lambda>c. list_processes (x_now X (w_x (snd (fst c)))) (ds_process (fst (fst c))))) (\<lambda>processes.
          bindA (map_err (\<lambda>e. ''status push failed: '' @ e) (ws_send outcome (WsText (cj_to J (CmStatus processes))))) (\<lambda>_. ok None))
      | Incoming msg ipc outcome \<Rightarrow>
          (case msg of
             Some (Inr (WsText text_)) \<Rightarrow>
               (case cj_from J text_ of
                  Inr (CmCommand action) \<Rightarrow>
                    bindA (onDaemon (execute_cloud_command X W ipc action)) (\<lambda>response.
                    bindA (map_err (\<lambda>e. ''command response send failed: '' @ e)
                             (ws_send outcome (WsText (cj_response J response)))) (\<lambda>_. ok None))
                | _ \<Rightarrow> ok None)
           | Some (Inr (WsPing data)) \<Rightarrow> bindA (ignore (ws_send outcome (WsPong data))) (\<lambda>_. ok None)
           | Some (Inr WsClose) \<Rightarrow> ok (Some ())
           | Some (Inl e) \<Rightarrow> err (''WebSocket error: '' @ e)
           | None \<Rightarrow> ok (Some ())
           | _ \<Rightarrow> ok None))"

text \<open>The main loop over the events in the order in which \<open>select!\<close> takes them; it is still running when they run out.\<close>

fun session_loop ::
  "'e xt \<Rightarrow> wire \<Rightarrow> cloud_codec \<Rightarrow> session_event list \<Rightarrow> ('e session, unit option) act" where
  "session_loop X W J [] = ok None"
| "session_loop X W J (ev # evs) =
     bindA (session_turn X W J ev) (\<lambda>r. case r of None \<Rightarrow> session_loop X W J evs | Some u \<Rightarrow> ok (Some u))"

record transcript =
  tr_connect :: "unit result"
  tr_auth_sent :: "unit result"
  tr_auth_reply :: "ws_message result option"
  tr_events :: "session_event list"

definition connect_and_run ::
  "'e xt \<Rightarrow> wire \<Rightarrow> cloud_codec \<Rightarrow> string \<Rightarrow> transcript \<Rightarrow> ('e session, unit option) act" where
  "connect_and_run X W J api_key T =
     bindA (map_err (\<lambda>e. ''WebSocket connect failed: '' @ e) (lift_result (tr_connect T))) (\<lambda>_.
     bindA (authenticate J api_key (tr_auth_sent T) (tr_auth_reply T)) (\<lambda>_.
     session_loop X W J (tr_events T)))"

section \<open>Properties of a connection\<close>

definition auth_accepted :: "cloud_codec \<Rightarrow> transcript \<Rightarrow> bool" where
  "auth_accepted J T \<longleftrightarrow> is_ok (tr_connect T) \<and> is_ok (tr_auth_sent T) \<and>
     (case tr_auth_reply T of Some (Inr (WsText t)) \<Rightarrow> cj_from J t = Inr CmAuthOk | _ \<Rightarrow> False)"

lemma ws_send_run [simp]: "ws_send (Inr ()) m c = (Inr (), (fst c, snd c @ [m]))" "ws_send (Inl e) m c = (Inl e, c)"
  by (simp_all add: ws_send_def lift_result_def modify_def)

lemma fst_ws_send [simp]: "fst (snd (ws_send r m c)) = fst c"
  by (cases r) simp_all

lemma authenticate_fails:
  assumes "case reply of Some (Inr (WsText t)) \<Rightarrow> cj_from J t \<noteq> Inr CmAuthOk | _ \<Rightarrow> True"
  shows "\<exists>e. authenticate J api_key (Inr ()) reply c = (Inl e, (fst c, snd c @ [WsText (cj_to J (CmAuth api_key))]))"
  using assms by (auto simp: authenticate_def bindA_def err_def map_err_def split: option.split sum.split ws_message.split cloud_message.split)

text \<open>
  C25: As long as the cloud service has not accepted the key nothing happens: no message is sent but the
  key itself, no command is carried out, the daemon is as it was, and the connection ends with an error.
\<close>

theorem nothing_before_authentication:
  assumes "\<not> auth_accepted J T"
  shows "\<exists>e sent. connect_and_run X W J api_key T (s, []) = (Inl e, (s, sent)) \<and> set sent \<subseteq> {WsText (cj_to J (CmAuth api_key))}"
proof (cases "tr_connect T")
  case (Inl e)
  then show ?thesis by (simp add: connect_and_run_def bindA_def map_err_def lift_result_def err_def)
next
  case connected: (Inr u)
  have start: "connect_and_run X W J api_key T (s, []) =
      bindA (authenticate J api_key (tr_auth_sent T) (tr_auth_reply T)) (\<lambda>_. session_loop X W J (tr_events T)) (s, [])"
    using connected by (simp add: connect_and_run_def bindA_def map_err_def lift_result_def ok_def)
  show ?thesis
  proof (cases "tr_auth_sent T")
    case (Inl e)
    then show ?thesis unfolding start by (simp add: authenticate_def bindA_def map_err_def)
  next
    case (Inr u)
    then have "case tr_auth_reply T of Some (Inr (WsText t)) \<Rightarrow> cj_from J t \<noteq> Inr CmAuthOk | _ \<Rightarrow> True"
      using assms connected by (auto simp: auth_accepted_def split: option.splits sum.splits ws_message.splits)
    from authenticate_fails [OF this, of api_key "(s, [])"] Inr show ?thesis
      unfolding start by (auto simp: bindA_def)
  qed
qed

text \<open>The commands of a session: those read before the loop returns.\<close>

fun ends_session :: "cloud_codec \<Rightarrow> session_event \<Rightarrow> bool" where
  "ends_session J (HeartbeatTick r) \<longleftrightarrow> \<not> is_ok r"
| "ends_session J (StatusTick r) \<longleftrightarrow> \<not> is_ok r"
| "ends_session J (Incoming msg ipc r) \<longleftrightarrow>
     (case msg of
        Some (Inr (WsText t)) \<Rightarrow> (case cj_from J t of Inr (CmCommand a) \<Rightarrow> \<not> is_ok r | _ \<Rightarrow> False)
      | Some (Inr WsClose) \<Rightarrow> True
      | Some (Inr _) \<Rightarrow> False
      | _ \<Rightarrow> True)"

fun event_command :: "cloud_codec \<Rightarrow> session_event \<Rightarrow> cloud_action list" where
  "event_command J (Incoming (Some (Inr (WsText t))) (Inr ()) r) = (case cj_from J t of Inr (CmCommand a) \<Rightarrow> [a] | _ \<Rightarrow> [])"
| "event_command J _ = []"

fun session_commands :: "cloud_codec \<Rightarrow> session_event list \<Rightarrow> cloud_action list" where
  "session_commands J [] = []"
| "session_commands J (ev # evs) = event_command J ev @ (if ends_session J ev then [] else session_commands J evs)"

text \<open>What the code relies on: the requests are read back as they were written.\<close>

definition request_codec :: "wire \<Rightarrow> cloud_action list \<Rightarrow> bool" where
  "request_codec W acts \<longleftrightarrow> (\<forall>a\<in>set acts. wire_reads W (action_request a))"

lemma execute_effect:
  assumes "request_codec W [action]"
  shows "snd (execute_cloud_command X W (Inr ()) action s) = snd (handle_request X (action_request action) s)"
proof -
  have "snd (execute_cloud_command X W ipc a s) = fst (snd (send_request_local W ipc (handle_client X W) (action_request a) (s, empty_duplex)))" for ipc a
    by (simp add: execute_cloud_command_def case_prod_beta split: sum.split)
  then show ?thesis using assms request_effect [of W "action_request action" X s] by (simp add: request_codec_def)
qed

lemma execute_refused: "execute_cloud_command X W (Inl e) action s = (Inr (RespError (''IPC error: failed to connect to daemon: '' @ e)), s)"
  by (simp add: execute_cloud_command_def request_refused)

lemma execute_answers: "\<exists>resp. fst (execute_cloud_command X W ipc action s) = Inr resp"
  by (auto simp: execute_cloud_command_def split: prod.split sum.split)

definition handled :: "'e xt \<Rightarrow> cloud_action list \<Rightarrow> 'e dstate \<Rightarrow> 'e dstate" where
  "handled X acts s = fold (\<lambda>a s. snd (handle_request X (action_request a) s)) acts s"

lemma execute_handled:
  "request_codec W [a] \<Longrightarrow> snd (execute_cloud_command X W ipc a s) = handled X (if is_ok ipc then [a] else []) s"
  by (cases ipc) (simp_all add: handled_def execute_effect execute_refused)

lemma turn_handles:
  assumes "request_codec W (event_command J ev)"
  shows "fst (snd (session_turn X W J ev c)) = handled X (event_command J ev) (fst c) \<and>
    (fst (session_turn X W J ev c) = Inr None \<longleftrightarrow> \<not> ends_session J ev)"
proof (cases ev)
  case (HeartbeatTick r)
  then show ?thesis by (cases r) (simp_all add: session_turn_def bindA_def map_err_def handled_def ok_def)
next
  case (StatusTick r)
  then show ?thesis by (cases r) (simp_all add: session_turn_def bindA_def map_err_def handled_def ok_def gets_def)
next
  case (Incoming msg ipc r)
  show ?thesis
  proof (cases "\<exists>t a. msg = Some (Inr (WsText t)) \<and> cj_from J t = Inr (CmCommand a)")
    case True
    then obtain t a where msg: "msg = Some (Inr (WsText t))" "cj_from J t = Inr (CmCommand a)" by blast
    have eff: "snd (execute_cloud_command X W ipc a (fst c)) = handled X (event_command J ev) (fst c)"
    proof (cases ipc)
      case (Inr u)
      then show ?thesis using execute_handled [of W a X ipc] assms Incoming msg by simp
    qed (simp_all add: execute_refused handled_def Incoming msg)
    obtain resp where "fst (execute_cloud_command X W ipc a (fst c)) = Inr resp" using execute_answers by blast
    then have "onDaemon (execute_cloud_command X W ipc a) c = (Inr resp, (handled X (event_command J ev) (fst c), snd c))"
      using eff by (simp add: onDaemon_def zoom_def case_prod_beta prod_eq_iff)
    then show ?thesis
      using Incoming msg by (cases r) (simp_all add: session_turn_def bindA_def map_err_def ok_def)
  next
    case False
    then have "event_command J ev = []"
      using Incoming by (cases "(J, ev)" rule: event_command.cases) (auto split: sum.split cloud_message.split)
    then show ?thesis
      using Incoming False
      by (auto simp: session_turn_def bindA_def ok_def err_def handled_def ignore_def
          split: option.splits sum.splits ws_message.splits cloud_message.splits)
  qed
qed

lemma handled_append: "handled X (as @ bs) s = handled X bs (handled X as s)"
  by (simp add: handled_def)

lemma request_codec_append: "request_codec W (as @ bs) \<longleftrightarrow> request_codec W as \<and> request_codec W bs"
  by (auto simp: request_codec_def)

lemma loop_handles:
  assumes "request_codec W (session_commands J evs)"
  shows "fst (snd (session_loop X W J evs c)) = handled X (session_commands J evs) (fst c)"
  using assms
proof (induction evs arbitrary: c)
  case Nil
  show ?case by (simp add: handled_def ok_def)
next
  case (Cons ev evs)
  obtain r c1 where turn: "session_turn X W J ev c = (r, c1)" by (cases "session_turn X W J ev c")
  have eff: "fst c1 = handled X (event_command J ev) (fst c)" "r = Inr None \<longleftrightarrow> \<not> ends_session J ev"
    using turn_handles [of W J ev X c] Cons.prems turn by (auto simp: request_codec_append)
  show ?case
    using turn eff Cons.IH Cons.prems by (cases r; cases "projr r") (auto simp: bindA_def handled_append ok_def handled_def request_codec_append split: if_splits)
qed


text \<open>
  A command from the cloud is answered with the response that the same request gets on the command line, and the
  session goes on.
\<close>

theorem cloud_command_answered:
  assumes "cj_from J t = Inr (CmCommand action)"
    and "wr_req_to W (action_request action) = Inr d" and "wr_req_from W d = Inr (action_request action)" and "length d \<le> max_message"
    and "handle_request X (action_request action) s = (Some resp, s')"
    and "wr_resp_to W resp = Inr d'" and "wr_resp_from W d' = Inr resp" and "length d' \<le> max_message"
  shows "session_turn X W J (Incoming (Some (Inr (WsText t))) (Inr ()) (Inr ())) (s, sent) =
    (Inr None, (s', sent @ [WsText (cj_response J resp)]))"
proof -
  have "execute_cloud_command X W (Inr ()) action s = (Inr resp, s')"
    using request_answered [OF assms(2-8)] by (simp add: execute_cloud_command_def)
  then show ?thesis
    using assms(1) by (simp add: session_turn_def onDaemon_def zoom_def bindA_def map_err_def ok_def)
qed

section \<open>The agent's life\<close>

text \<open>Seconds.\<close>

definition max_backoff :: nat where "max_backoff = 300"
definition initial_backoff :: nat where "initial_backoff = 1"

datatype agent = Connecting nat | Waiting nat | AgentStopped nat

fun ag_backoff :: "agent \<Rightarrow> nat" where
  "ag_backoff (Connecting b) = b"
| "ag_backoff (Waiting b) = b"
| "ag_backoff (AgentStopped b) = b"

datatype agent_event = Shutdown | Ended "unit result" | Slept

definition agent_start :: agent where "agent_start = Connecting initial_backoff"

text \<open>One arm of a \<open>select!\<close> at a time; \<open>Ended\<close> is the result of the connection, \<open>Slept\<close> the end of the wait.\<close>

inductive agent_step :: "agent_event \<Rightarrow> agent \<Rightarrow> agent \<Rightarrow> bool" where
  stop_connecting: "agent_step Shutdown (Connecting b) (AgentStopped b)"
| closed: "agent_step (Ended (Inr ())) (Connecting b) (Waiting initial_backoff)"
| failed: "agent_step (Ended (Inl e)) (Connecting b) (Waiting b)"
| stop_waiting: "agent_step Shutdown (Waiting b) (AgentStopped b)"
| slept: "agent_step Slept (Waiting b) (Connecting (min (b * 2) max_backoff))"

code_pred (modes: i \<Rightarrow> i \<Rightarrow> o \<Rightarrow> bool) agent_step .

inductive_simps agent_step_simps:
  "agent_step Shutdown a a'" "agent_step (Ended r) a a'" "agent_step Slept a a'"

inductive_cases agent_stepE: "agent_step ev a a'"

inductive agent_run :: "agent_event list \<Rightarrow> agent \<Rightarrow> agent \<Rightarrow> bool" where
  no_events: "agent_run [] a a"
| more: "agent_step ev a a' \<Longrightarrow> agent_run evs a' a'' \<Longrightarrow> agent_run (ev # evs) a a''"

inductive_simps agent_run_Cons: "agent_run (ev # evs) a a''"
inductive_simps agent_run_Nil: "agent_run [] a a''"

lemma agent_run_append: "agent_run xs a b \<Longrightarrow> agent_run ys b c \<Longrightarrow> agent_run (xs @ ys) a c"
  by (induction rule: agent_run.induct) (auto intro: agent_run.intros)

lemma backoff_kept:
  "agent_run evs a a' \<Longrightarrow> initial_backoff \<le> ag_backoff a \<Longrightarrow> ag_backoff a \<le> max_backoff \<Longrightarrow>
   initial_backoff \<le> ag_backoff a' \<and> ag_backoff a' \<le> max_backoff"
proof (induction rule: agent_run.induct)
  case (more ev a a' evs a'')
  have "initial_backoff \<le> ag_backoff a' \<and> ag_backoff a' \<le> max_backoff"
    using more.hyps(1) more.prems by (elim agent_stepE) (auto simp: initial_backoff_def max_backoff_def)
  then show ?case using more.IH by blast
qed simp

text \<open>
  The wait between two attempts is always between one second and five minutes, however the
  connections end, and a shutdown request takes effect in every state the agent can be in.
\<close>

theorem agent_backoff_bounded:
  assumes "agent_run evs agent_start a"
  shows "1 \<le> ag_backoff a \<and> ag_backoff a \<le> 300 \<and>
    (\<exists>b. a = AgentStopped b \<or> agent_step Shutdown a (AgentStopped b))"
  using backoff_kept [OF assms]
  by (cases a) (auto simp: agent_start_def initial_backoff_def max_backoff_def intro: agent_step.intros)

theorem agent_backoff_bounded_witness:
  "\<exists>b. agent_step Shutdown (Connecting 2) (AgentStopped b)"
proof -
  have "agent_run [Ended (Inl ''refused''), Slept] agent_start (Connecting 2)"
    by (auto simp: agent_run_Cons agent_run_Nil agent_step_simps agent_start_def initial_backoff_def max_backoff_def)
  from agent_backoff_bounded [OF this] show ?thesis by simp
qed

text \<open>The rounds of an agent whose connections keep failing.\<close>

definition failing_rounds :: "nat \<Rightarrow> agent_event list" where
  "failing_rounds n = concat (replicate n [Ended (Inl ''connect failed''), Slept])"


section \<open>A concrete session\<close>

text \<open>A service that sends the command to restart \<open>web\<close> as the text \<open>!\<close> and accepts the key with \<open>+\<close>.\<close>

definition sample_codec :: cloud_codec where
  "sample_codec = \<lparr>cj_to = (\<lambda>m. case m of CmAuth k \<Rightarrow> ''auth '' @ k | _ \<Rightarrow> ''''),
     cj_from = (\<lambda>t. if t = ''+'' then Inr CmAuthOk else if t = ''!'' then Inr (CmCommand (ActRestart ''web'')) else Inl ''unknown''),
     cj_response = (\<lambda>r. case r of RespOk m \<Rightarrow> m | RespError e \<Rightarrow> e | _ \<Rightarrow> ''''), cj_debug = (\<lambda>_. ''binary'')\<rparr>"

theorem nothing_before_authentication_witness:
  "\<exists>e sent. connect_and_run sample_xt restart_wire sample_codec ''key''
      \<lparr>tr_connect = Inr (), tr_auth_sent = Inr (), tr_auth_reply = Some (Inr (WsText ''!'')),
       tr_events = [Incoming (Some (Inr (WsText ''!''))) (Inr ()) (Inr ())]\<rparr> ((daemon_new, sample_world), []) =
    (Inl e, ((daemon_new, sample_world), sent)) \<and> set sent \<subseteq> {WsText (cj_to sample_codec (CmAuth ''key''))}"
  by (rule nothing_before_authentication) (simp add: auth_accepted_def sample_codec_def)


theorem cloud_command_answered_witness:
  "session_turn sample_xt restart_wire sample_codec (Incoming (Some (Inr (WsText ''!''))) (Inr ()) (Inr ())) ((daemon_new, sample_world), []) =
    (Inr None, ((daemon_new, sample_world), [WsText (not_found ''web'')]))"
proof -
  have "session_turn sample_xt restart_wire sample_codec (Incoming (Some (Inr (WsText ''!''))) (Inr ()) (Inr ())) ((daemon_new, sample_world), []) =
    (Inr None, ((daemon_new, sample_world), [] @ [WsText (cj_response sample_codec (RespError (not_found ''web'')))]))"
    by (rule cloud_command_answered [of _ _ "ActRestart ''web''" _ "[1]" _ _ "RespError (not_found ''web'')" _ "[2]"])
      (simp_all add: sample_codec_def restart_wire_def action_request_def max_message_def restart_unknown)
  then show ?thesis by (simp add: sample_codec_def)
qed

end
