(* ===== verification/Cli.thy ===== *)
theory Cli
  imports Client Manifest Backup
begin

text \<open>
  \<open>src/cli.rs\<close> and the function \<open>main\<close> of \<open>src/main.rs\<close>: the commands of the command line and what each of
  them does: the request it sends, what it prints, and how it exits. The shell shares the file system and
  the outside world with the daemon. Progress lines on standard error are left out.
\<close>

section \<open>Commands\<close>

datatype metrics_action = MetricsOn u16 | MetricsOff

datatype command_line =
    CmdRun (run_path: string) (run_name: "string option") (run_port: "string option") (run_args: "string option")
      (run_env_file: "string option") (run_spa: bool) (run_ssl: "string list option") (run_acme: "string option")
      (run_deny: "string option") (run_allow: "string option")
  | CmdStart string "string option"
  | CmdLs
  | CmdDel string
  | CmdRestart string
  | CmdReload string
  | CmdUpdate string "string option" "string list option" "string option" "string option" "string option" "string option"
  | CmdLogs string nat
  | CmdExport "string option"
  | CmdSet string string
  | CmdSave
  | CmdStartup
  | CmdUnstartup
  | CmdKill
  | CmdBackup string
  | CmdRestore string
  | CmdLink string
  | CmdUnlink
  | CmdMetrics metrics_action
  | CmdDaemon

section \<open>The shell\<close>

text \<open>
  \<open>ci_connect\<close>: the result of connecting to the daemon's socket; \<open>ci_booted\<close>: what a daemon that was spawned holds in
  memory when the client goes on; \<open>ci_systemctl\<close>: a call of \<open>systemctl\<close>, an error if it cannot be run; \<open>ci_open_store\<close> and
  \<open>ci_pid\<close>: the database and the process id of a daemon started by this command.
\<close>

record 'e cli_api =
  ci_host :: "'e host_api"
  ci_wire :: wire
  ci_connect :: "'e dstate \<Rightarrow> unit result"
  ci_booted :: "'e world \<Rightarrow> daemon_state"
  ci_yaml :: yaml_api
  ci_zip :: zip_api
  ci_systemctl :: "string list \<Rightarrow> ('e world, unit) act"
  ci_open_store :: "('e, unit) act"
  ci_pid :: u32

record 'e shell =
  sh_sys :: "'e dstate"
  sh_out :: "printed list"

definition shW :: "('e world, 'a) act \<Rightarrow> ('e shell, 'a) act" where
  "shW = zoom (snd \<circ> sh_sys) (\<lambda>w s. s\<lparr>sh_sys := (fst (sh_sys s), w)\<rparr>)"

definition shF :: "(fsys, 'a) act \<Rightarrow> ('e shell, 'a) act" where
  "shF m = shW (onF m)"

definition say :: "printed list \<Rightarrow> ('e shell, unit) act" where
  "say ps = modify (\<lambda>s. s\<lparr>sh_out := sh_out s @ ps\<rparr>)"

text \<open>A command that ends with an error has called \<open>exit(1)\<close>.\<close>

definition die :: "string \<Rightarrow> ('e shell, 'a) act" where
  "die message = bindA (say [ErrLine (''error: '' @ message)]) (\<lambda>_. err ''exit status 1'')"

definition or_die :: "('e shell, 'a) act \<Rightarrow> ('e shell, 'a) act" where
  "or_die m = bindA (attempt m) (\<lambda>r. case r of Inl e \<Rightarrow> die e | Inr a \<Rightarrow> ok a)"

section \<open>Sending a request\<close>

definition sh_ensure_daemon :: "'e cli_api \<Rightarrow> ('e shell, unit) act" where
  "sh_ensure_daemon A s =
     (case ensure_daemon (ci_host A) (snd (sh_sys s)) of (r, w) \<Rightarrow>
        (r, s\<lparr>sh_sys := (if is_daemon_running (ci_host A) (snd (sh_sys s)) then fst (sh_sys s) else ci_booted A w, w)\<rparr>))"

definition send_request :: "'e xt \<Rightarrow> 'e cli_api \<Rightarrow> request \<Rightarrow> ('e shell, response) act" where
  "send_request X A request =
     bindA (sh_ensure_daemon A) (\<lambda>_ s.
       case send_request_local (ci_wire A) (ci_connect A (sh_sys s)) (handle_client X (ci_wire A)) request (sh_sys s, empty_duplex) of
         (r, c) \<Rightarrow> (r, s\<lparr>sh_sys := fst c\<rparr>))"

definition exec :: "'e xt \<Rightarrow> 'e cli_api \<Rightarrow> request \<Rightarrow> ('e shell, unit) act" where
  "exec X A request = bindA (attempt (send_request X A request)) (\<lambda>r. say (execute r))"

section \<open>The commands one by one\<close>

text \<open>The parser gives \<open>--ssl\<close> exactly two values.\<close>

definition run_main :: "'e xt \<Rightarrow> 'e cli_api \<Rightarrow> command_line \<Rightarrow> ('e shell, unit) act" where
  "run_main X A c =
     bindA (or_die (bindA (gets (\<lambda>s. run_request X (w_fs (snd (sh_sys s))) (run_path c) (run_name c) (run_port c) (run_args c) (run_env_file c)
       (run_spa c) (map_option (\<lambda>s. (s ! 0, s ! 1)) (run_ssl c)) (run_acme c) (run_deny c) (run_allow c))) lift_result)) (exec X A)"

fun start_loop :: "'e xt \<Rightarrow> 'e cli_api \<Rightarrow> process_manifest list \<Rightarrow> nat \<Rightarrow> ('e shell, nat) act" where
  "start_loop X A [] errors = ok errors"
| "start_loop X A (m # ms) errors =
     bindA (gets (\<lambda>s. manifest_to_config X (w_fs (snd (sh_sys s))) m)) (\<lambda>r.
     case r of
       Inl e \<Rightarrow> bindA (say [ErrLine (''['' @ mf_name m @ ''] error: '' @ e)]) (\<lambda>_. start_loop X A ms (errors + 1))
     | Inr config \<Rightarrow>
         bindA (say [Out (''['' @ mf_name m @ ''] '')]) (\<lambda>_.
         bindA (exec X A (config_request config)) (\<lambda>_. start_loop X A ms errors)))"

definition start_main :: "'e xt \<Rightarrow> 'e cli_api \<Rightarrow> string \<Rightarrow> string option \<Rightarrow> ('e shell, unit) act" where
  "start_main X A file only =
     bindA (or_die (shF (map_err (\<lambda>e. ''failed to read '' @ quoted file @ '': '' @ e) (fs_read file)))) (\<lambda>content.
     bindA (or_die (shF (start_docs (ci_yaml A) (split_str doc_separator content) []))) (\<lambda>ms.
     bindA (or_die (lift_result (select_manifests only ms))) (\<lambda>manifests.
     bindA (start_loop X A manifests 0) (\<lambda>errors.
     if errors > 0 then bindA (say [ErrLine (show_nat errors @ '' app(s) failed to start'')]) (\<lambda>_. err ''exit status 1'') else ok ()))))"

definition export_main :: "'e xt \<Rightarrow> 'e cli_api \<Rightarrow> string option \<Rightarrow> ('e shell, unit) act" where
  "export_main X A out =
     bindA (attempt (send_request X A ReqExport)) (\<lambda>r.
     case r of
       Inl e \<Rightarrow> say [ErrLine (''error: '' @ e)]
     | Inr resp \<Rightarrow>
         (case resp of
            RespConfigList configs \<Rightarrow>
              (case out of
                 Some path \<Rightarrow> bindA (or_die (shF (export_command X (ci_yaml A) path configs))) (\<lambda>_. say [OutLine (''exported to '' @ path)])
               | None \<Rightarrow> say [OutLine (export_text X (ci_yaml A) configs)])
          | RespError e \<Rightarrow> say [ErrLine (''error: '' @ e)]
          | _ \<Rightarrow> say [ErrLine ''error: unexpected response'']))"

definition kill_main :: "'e xt \<Rightarrow> 'e cli_api \<Rightarrow> ('e shell, unit) act" where
  "kill_main X A = bindA (exec X A ReqKill) (\<lambda>_. bindA (shF cleanup) (\<lambda>_. say [OutLine ''daemon stopped'']))"

definition unit_path :: string where
  "unit_path = ''/etc/systemd/system/nyrun.service''"

definition systemd_unit :: "string \<Rightarrow> string list" where
  "systemd_unit exe =
     [''[Unit]'', ''Description=nyrun process manager'', ''After=network.target'', '''',
      ''[Service]'', ''Type=forking'', ''ExecStart='' @ exe @ '' daemon'', ''PIDFile=/var/run/nyrun/nyrun.pid'',
      ''ExecReload=/bin/kill -HUP $MAINPID'', ''Restart=on-failure'', ''RestartSec=5'', '''',
      ''[Install]'', ''WantedBy=multi-user.target'']"

definition generate_systemd_unit :: "'e cli_api \<Rightarrow> ('e world, unit) act" where
  "generate_systemd_unit A =
     bindA (map_err (\<lambda>e. ''cannot find executable: '' @ e) (lift_result (hp_current_exe (ci_host A)))) (\<lambda>exe.
     bindA (map_err (\<lambda>e. ''failed to write '' @ unit_path @ '': '' @ e @ '' (try with sudo)'') (onF (fs_write unit_path (unlines (systemd_unit exe))))) (\<lambda>_.
     bindA (map_err (\<lambda>e. ''systemctl daemon-reload failed: '' @ e) (ci_systemctl A [''daemon-reload''])) (\<lambda>_.
     map_err (\<lambda>e. ''systemctl enable failed: '' @ e) (ci_systemctl A [''enable'', ''nyrun'']))))"

definition remove_systemd_unit :: "'e cli_api \<Rightarrow> ('e world, unit) act" where
  "remove_systemd_unit A =
     bindA (map_err (\<lambda>e. ''systemctl disable failed: '' @ e) (ci_systemctl A [''disable'', ''nyrun''])) (\<lambda>_.
     bindA (map_err (\<lambda>e. ''failed to remove '' @ unit_path @ '': '' @ e) (onF (fs_remove_file unit_path))) (\<lambda>_.
     map_err (\<lambda>e. ''systemctl daemon-reload failed: '' @ e) (ci_systemctl A [''daemon-reload''])))"

text \<open>The result of a local action, reported without an exit status.\<close>

definition report :: "('e shell, unit) act \<Rightarrow> string \<Rightarrow> ('e shell, unit) act" where
  "report m done_text = bindA (attempt m) (\<lambda>r. say [case r of Inr _ \<Rightarrow> OutLine done_text | Inl e \<Rightarrow> ErrLine (''error: '' @ e)])"

text \<open>The dash in the message is a character of three bytes.\<close>

definition restored_text :: string where
  "restored_text = ''restore complete '' @ [CHR 0xE2, CHR 0x80, CHR 0x94] @ '' restart daemon to apply''"

definition daemon_main :: "'e xt \<Rightarrow> 'e cli_api \<Rightarrow> ('e shell, unit) act" where
  "daemon_main X A s =
     (case run_daemon X (ci_open_store A) (ci_pid A) (snd (sh_sys s)) of
        Inl _ \<Rightarrow> (Inl ''exit status 1'', s)
      | Inr d \<Rightarrow> (Inr (), s\<lparr>sh_sys := d\<rparr>))"

fun main_command :: "'e xt \<Rightarrow> 'e cli_api \<Rightarrow> command_line \<Rightarrow> ('e shell, unit) act" where
  "main_command X A CmdDaemon = daemon_main X A"
| "main_command X A (CmdStart file only) = start_main X A file only"
| "main_command X A CmdLs = exec X A ReqLs"
| "main_command X A (CmdDel name) = exec X A (ReqDel name)"
| "main_command X A (CmdRestart name) = exec X A (ReqRestart name)"
| "main_command X A (CmdReload name) = exec X A (ReqReload name)"
| "main_command X A (CmdUpdate name port ssl acme env_file args img) = exec X A (ReqUpdate name port ssl acme env_file args img)"
| "main_command X A (CmdLogs name ls) = exec X A (ReqLogs name ls)"
| "main_command X A (CmdExport out) = export_main X A out"
| "main_command X A (CmdSet key value) = exec X A (ReqSet key value)"
| "main_command X A CmdSave = exec X A ReqSave"
| "main_command X A CmdKill = kill_main X A"
| "main_command X A CmdStartup = report (shW (generate_systemd_unit A)) ''systemd unit installed and enabled''"
| "main_command X A CmdUnstartup = report (shW (remove_systemd_unit A)) ''systemd unit removed''"
| "main_command X A (CmdBackup out) = bindA (or_die (shF (create_backup (ci_zip A) out))) (\<lambda>path. say [OutLine (''backup saved to '' @ path)])"
| "main_command X A (CmdRestore file) = bindA (or_die (shF (restore_backup (ci_zip A) file))) (\<lambda>_. say [OutLine restored_text])"
| "main_command X A (CmdLink api_key) = exec X A (ReqLink api_key)"
| "main_command X A CmdUnlink = exec X A ReqUnlink"
| "main_command X A (CmdMetrics (MetricsOn port)) = exec X A (ReqMetricsEnable port)"
| "main_command X A (CmdMetrics MetricsOff) = exec X A ReqMetricsDisable"
| "main_command X A c = run_main X A c"

section \<open>Properties\<close>

lemma say_run [simp]: "say ps s = (Inr (), s\<lparr>sh_out := sh_out s @ ps\<rparr>)"
  by (simp add: say_def modify_def)

lemma die_run [simp]: "die e s = (Inl ''exit status 1'', s\<lparr>sh_out := sh_out s @ [ErrLine (''error: '' @ e)]\<rparr>)"
  by (simp add: die_def bindA_def err_def)

text \<open>A daemon that listens, and a request that its encoding carries.\<close>

definition reaches :: "'e cli_api \<Rightarrow> request \<Rightarrow> 'e shell \<Rightarrow> bool" where
  "reaches A req s \<longleftrightarrow> is_daemon_running (ci_host A) (snd (sh_sys s)) \<and> ci_connect A (sh_sys s) = Inr () \<and> wire_reads (ci_wire A) req"

lemma ensure_running: "is_daemon_running (ci_host A) (snd (sh_sys s)) \<Longrightarrow> sh_ensure_daemon A s = (Inr (), s)"
  by (simp add: sh_ensure_daemon_def ensure_daemon_def bindA_def gets_def ok_def)

lemma exec_sends:
  assumes "is_daemon_running (ci_host A) (snd (sh_sys s))"
  shows "exec X A req s =
    (let (r, c) = send_request_local (ci_wire A) (ci_connect A (sh_sys s)) (handle_client X (ci_wire A)) req (sh_sys s, empty_duplex)
     in (Inr (), s\<lparr>sh_sys := fst c, sh_out := sh_out s @ execute r\<rparr>))"
  by (simp add: exec_def send_request_def bindA_def attempt_def ensure_running [OF assms] split: prod.split)

lemma exec_effect:
  assumes "reaches A req s"
  shows "\<exists>ps. exec X A req s = (Inr (), s\<lparr>sh_sys := snd (handle_request X req (sh_sys s)), sh_out := sh_out s @ ps\<rparr>)"
proof -
  have "is_daemon_running (ci_host A) (snd (sh_sys s))" "ci_connect A (sh_sys s) = Inr ()" "wire_reads (ci_wire A) req"
    using assms by (simp_all add: reaches_def)
  then show ?thesis
    using exec_sends [of A s X req] request_effect [of "ci_wire A" req X "sh_sys s"] by (auto simp: Let_def split: prod.splits)
qed

text \<open>The request that a command stands for, or the message it is refused with before anything is sent.\<close>

fun sent_request :: "'e xt \<Rightarrow> fsys \<Rightarrow> command_line \<Rightarrow> request result option" where
  "sent_request X fs (CmdRun path name port args env_file spa ssl acme deny allow) =
     Some (run_request X fs path name port args env_file spa (map_option (\<lambda>s. (s ! 0, s ! 1)) ssl) acme deny allow)"
| "sent_request X fs CmdLs = Some (Inr ReqLs)"
| "sent_request X fs (CmdDel name) = Some (Inr (ReqDel name))"
| "sent_request X fs (CmdRestart name) = Some (Inr (ReqRestart name))"
| "sent_request X fs (CmdReload name) = Some (Inr (ReqReload name))"
| "sent_request X fs (CmdUpdate name port ssl acme env_file args img) = Some (Inr (ReqUpdate name port ssl acme env_file args img))"
| "sent_request X fs (CmdLogs name ls) = Some (Inr (ReqLogs name ls))"
| "sent_request X fs (CmdSet key value) = Some (Inr (ReqSet key value))"
| "sent_request X fs CmdSave = Some (Inr ReqSave)"
| "sent_request X fs (CmdLink api_key) = Some (Inr (ReqLink api_key))"
| "sent_request X fs CmdUnlink = Some (Inr ReqUnlink)"
| "sent_request X fs (CmdMetrics (MetricsOn port)) = Some (Inr (ReqMetricsEnable port))"
| "sent_request X fs (CmdMetrics MetricsOff) = Some (Inr ReqMetricsDisable)"
| "sent_request X fs _ = None"

lemma or_die_gets:
  "bindA (or_die (bindA (gets f) lift_result)) g s =
     (case f s of Inl e \<Rightarrow> (Inl ''exit status 1'', s\<lparr>sh_out := sh_out s @ [ErrLine (''error: '' @ e)]\<rparr>) | Inr a \<Rightarrow> g a s)"
  by (cases "f s") (simp_all add: or_die_def bindA_def attempt_def gets_def lift_result_def ok_def err_def)

lemma run_main_run:
  "run_main X A (CmdRun path name port args env_file spa ssl acme deny allow) s =
     (case run_request X (w_fs (snd (sh_sys s))) path name port args env_file spa (map_option (\<lambda>s. (s ! 0, s ! 1)) ssl) acme deny allow of
        Inl e \<Rightarrow> (Inl ''exit status 1'', s\<lparr>sh_out := sh_out s @ [ErrLine (''error: '' @ e)]\<rparr>)
      | Inr req \<Rightarrow> exec X A req s)"
  by (simp add: run_main_def or_die_gets)

lemma main_sends:
  "sent_request X (w_fs (snd (sh_sys s))) c = Some (Inr req) \<Longrightarrow> main_command X A c s = exec X A req s"
  by (cases "(X, w_fs (snd (sh_sys s)), c)" rule: sent_request.cases)
    (simp_all add: run_main_run)

text \<open>
  C9: A command of the command line changes the daemon, the file system and the processes exactly as its request does, whatever
  comes back over the socket; with a response that can be read, it is printed, and the exit status is zero
  also when the response is an error.
\<close>

theorem command_runs_request:
  assumes "sent_request X (w_fs (snd (sh_sys s))) c = Some (Inr req)" and "reaches A req s"
  shows "\<exists>ps. main_command X A c s = (Inr (), s\<lparr>sh_sys := snd (handle_request X req (sh_sys s)), sh_out := sh_out s @ ps\<rparr>) \<and>
    (\<forall>resp d. fst (handle_request X req (sh_sys s)) = Some resp \<and> wr_resp_to (ci_wire A) resp = Inr d \<and>
       wr_resp_from (ci_wire A) d = Inr resp \<and> length d \<le> max_message \<longrightarrow> ps = print_response resp)"
proof -
  have up: "is_daemon_running (ci_host A) (snd (sh_sys s))" and conn: "ci_connect A (sh_sys s) = Inr ()"
    and wire: "wire_reads (ci_wire A) req"
    using assms(2) by (simp_all add: reaches_def)
  obtain d where d: "wr_req_to (ci_wire A) req = Inr d" "wr_req_from (ci_wire A) d = Inr req" "length d \<le> max_message"
    using wire by (auto simp: wire_reads_def)
  obtain ps where run: "exec X A req s = (Inr (), s\<lparr>sh_sys := snd (handle_request X req (sh_sys s)), sh_out := sh_out s @ ps\<rparr>)"
    using exec_effect [OF assms(2)] by blast
  have "ps = print_response resp"
    if "fst (handle_request X req (sh_sys s)) = Some resp" "wr_resp_to (ci_wire A) resp = Inr d'" "wr_resp_from (ci_wire A) d' = Inr resp"
      "length d' \<le> max_message" for resp d'
  proof -
    have "handle_request X req (sh_sys s) = (Some resp, snd (handle_request X req (sh_sys s)))"
      using that(1) by (simp add: prod_eq_iff)
    from request_answered [OF d this that(2-4)] show ?thesis
      using arg_cong [OF run, of "sh_out \<circ> snd"] by (simp add: exec_sends [OF up] conn execute_def)
  qed
  then show ?thesis using run main_sends [OF assms(1)] by auto
qed

text \<open>
  A run command with a malformed port or an unreadable environment file says so, exits with status one, and has sent
  nothing and changed nothing.
\<close>

theorem refused_run_changes_nothing:
  assumes "sent_request X (w_fs (snd (sh_sys s))) c = Some (Inl e)"
  shows "main_command X A c s = (Inl ''exit status 1'', s\<lparr>sh_out := sh_out s @ [ErrLine (''error: '' @ e)]\<rparr>)"
  using assms
  by (cases "(X, w_fs (snd (sh_sys s)), c)" rule: sent_request.cases)
    (simp_all add: run_main_run)

lemma onF_cleanup: "onF cleanup w = (Inr (), w\<lparr>w_fs := snd (cleanup (w_fs w))\<rparr>)"
  by (simp add: onF_def zoom_def cleanup_def ignore_def bindA_def)

lemma handle_kill_run:
  assumes "d_inv s"
  shows "\<exists>d w. handle_kill X s = (Inr (RespOk ''all processes stopped''), (d, w)) \<and> pr_processes (ds_process d) = [] \<and> ds_exiting d \<and>
    ds_agent d = None \<and> ds_metrics_server d = None \<and> w_fs w = w_fs (snd s) \<and>
    w_x w = snd (store_close X (snd (save_state X [] (fold (x_kill X) (children (pr_processes (ds_process (fst s)))) (w_x (snd s))))))"
proof -
  have "hm_wf (pr_processes (ds_process (fst s)))" using assms by (simp add: d_inv_def pr_inv_upto_def)
  then show ?thesis
    by (simp add: handle_kill_def onD_def onPM_def onV_def onX_def zoom_def kill_all_run bindA_def modify_def ignore_def ok_def store_close_def
        case_prod_beta)
qed


section \<open>A concrete shell\<close>

definition sock_fs :: fsys where
  "sock_fs = sample_fs\<lparr>fs_tree := [([''var'', ''run'', ''nyrun'', ''nyrun.sock''], File 1)]\<rparr>"

definition sample_cli :: "wire \<Rightarrow> nat cli_api" where
  "sample_cli W = \<lparr>ci_host = \<lparr>hp_connect = (\<lambda>_. Inr ()), hp_current_exe = Inr ''/usr/bin/nyrun'', hp_spawn = (\<lambda>_ w. (Inr (), w))\<rparr>,
     ci_wire = W, ci_connect = (\<lambda>_. Inr ()), ci_booted = (\<lambda>_. daemon_new),
     ci_yaml = \<lparr>y_kind = (\<lambda>_. Inl ''no yaml''), y_configmap = (\<lambda>_. Inl ''no yaml''), y_process = (\<lambda>_. Inl ''no yaml''), y_show = (\<lambda>_. '''')\<rparr>,
     ci_zip = \<lparr>z_add_directory = (\<lambda>_. Inr ()), z_start_file = (\<lambda>_. Inr ()), z_write_all = (\<lambda>_. Inr ()), z_finish = (\<lambda>_. Inr ''''),
       z_archive = (\<lambda>_. Inr []), z_read_to_end = (\<lambda>_. Inr '''')\<rparr>,
     ci_systemctl = (\<lambda>_ w. (Inr (), w)), ci_open_store = (\<lambda>e. (Inr (), e)), ci_pid = 7\<rparr>"

definition sample_shell :: "process_manager \<Rightarrow> nat shell" where
  "sample_shell pm = \<lparr>sh_sys = (daemon_new\<lparr>ds_process := pm\<rparr>, sample_world\<lparr>w_fs := sock_fs\<rparr>), sh_out = []\<rparr>"

lemma sample_listens: "is_daemon_running (ci_host (sample_cli W)) (snd (sh_sys (sample_shell pm)))"
proof -
  have "fs_exists sock_path sock_fs" by code_simp
  then show ?thesis by (simp add: is_daemon_running_def sample_cli_def sample_shell_def)
qed

lemma sample_reaches: "wire_reads W req \<Longrightarrow> reaches (sample_cli W) req (sample_shell pm)"
  using sample_listens [of W pm] by (simp add: reaches_def) (simp add: sample_cli_def)

theorem command_runs_request_witness:
  "main_command sample_xt (sample_cli restart_wire) (CmdRestart ''web'') (sample_shell (process_manager_new True)) =
     (Inr (), (sample_shell (process_manager_new True))\<lparr>sh_out := [ErrLine (''error: '' @ not_found ''web'')]\<rparr>)"
proof -
  let ?s = "sample_shell (process_manager_new True)"
  have sys: "sh_sys ?s = (daemon_new, sample_world\<lparr>w_fs := sock_fs\<rparr>)" by (simp add: sample_shell_def daemon_new_def)
  have "sent_request sample_xt (w_fs (snd (sh_sys ?s))) (CmdRestart ''web'') = Some (Inr (ReqRestart ''web''))" by simp
  from command_runs_request [OF this sample_reaches [OF wire_reads_restart]] obtain ps
    where run: "main_command sample_xt (sample_cli restart_wire) (CmdRestart ''web'') ?s =
        (Inr (), ?s\<lparr>sh_sys := snd (handle_request sample_xt (ReqRestart ''web'') (sh_sys ?s)), sh_out := sh_out ?s @ ps\<rparr>)"
      and answer: "\<And>resp d. fst (handle_request sample_xt (ReqRestart ''web'') (sh_sys ?s)) = Some resp \<Longrightarrow> wr_resp_to restart_wire resp = Inr d \<Longrightarrow>
        wr_resp_from restart_wire d = Inr resp \<Longrightarrow> length d \<le> max_message \<Longrightarrow> ps = print_response resp"
    by (auto simp: sample_cli_def)
  have "ps = print_response (RespError (not_found ''web''))"
    by (rule answer [of _ "[2]"]) (simp_all add: sys restart_unknown restart_wire_def max_message_def)
  then show ?thesis
    using run by (simp add: sys restart_unknown print_response_def) (simp add: sample_shell_def daemon_new_def)
qed

theorem refused_run_changes_nothing_witness:
  "main_command sample_xt (sample_cli restart_wire) (CmdRun ''/srv/web'' None (Some ''eighty'') None None False None None None None) (sample_shell one_app) =
     (Inl ''exit status 1'', (sample_shell one_app)\<lparr>sh_out := [ErrLine ''error: invalid port: eighty'']\<rparr>)"
proof -
  have "parse_port_mapping ''eighty'' = Inl ''invalid port: eighty''" by code_simp
  then have "sent_request sample_xt (w_fs (snd (sh_sys (sample_shell one_app))))
      (CmdRun ''/srv/web'' None (Some ''eighty'') None None False None None None None) = Some (Inl ''invalid port: eighty'')"
    by (simp add: run_request_def)
  from refused_run_changes_nothing [OF this] show ?thesis by (simp add: sample_shell_def)
qed

definition kill_wire :: wire where
  "kill_wire = restart_wire\<lparr>wr_req_from := (\<lambda>_. Inr ReqKill)\<rparr>"


end
