(* ===== verification/Metrics_Server.thy ===== *)
theory Metrics_Server
  imports Server
begin

text \<open>
  \<open>src/metrics.rs\<close>: the instruments of the program, their registration, and the server that a scraper reads
  them from. The other theories record the calls on the instruments as \<open>metric_op\<close>s; here a call is resolved to its
  instrument, its labels and the change it makes. The registry of the library is the record
  \<open>registry_api\<close>; what an instrument shows after a sequence of calls is \<open>shown\<close>.
\<close>

section \<open>Instruments\<close>

datatype instrument =
    HttpRequestsTotal | HttpRequestDuration | ActiveConnections | CacheOperationsTotal | ManagedProcesses
  | ProcessRestartsTotal | ProcessCpuUsage | ProcessMemoryBytes | NetworkReceivedTotal | NetworkSentTotal
  | ResponseSize | UpstreamErrorsTotal | OciPullsTotal | OciPullErrorsTotal

type_synonym labels = "(string \<times> string) list"

definition request_labels :: "string \<Rightarrow> u16 \<Rightarrow> string \<Rightarrow> labels" where
  "request_labels meth status host = [(''method'', meth), (''status'', show_word status), (''host'', host)]"

definition process_labels :: "string \<Rightarrow> labels" where
  "process_labels name = [(''name'', name)]"

definition host_labels :: "string \<Rightarrow> labels" where
  "host_labels host = [(''host'', host)]"

definition cache_labels :: "string \<Rightarrow> labels" where
  "cache_labels outcome = [(''result'', outcome)]"

datatype change = Add int | SetTo int | Observe int

text \<open>The calls; \<open>record_cache_hit\<close> and \<open>record_cache_miss\<close> differ in their label.\<close>

fun metric_call :: "metric_op \<Rightarrow> instrument \<times> labels \<times> change" where
  "metric_call ManagedInc = (ManagedProcesses, [], Add 1)"
| "metric_call ManagedDec = (ManagedProcesses, [], Add (-1))"
| "metric_call (ManagedSet n) = (ManagedProcesses, [], SetTo n)"
| "metric_call (RestartInc name) = (ProcessRestartsTotal, process_labels name, Add 1)"
| "metric_call (CpuSet name v) = (ProcessCpuUsage, process_labels name, SetTo v)"
| "metric_call (MemSet name v) = (ProcessMemoryBytes, process_labels name, SetTo v)"
| "metric_call OciPullInc = (OciPullsTotal, [], Add 1)"
| "metric_call OciPullErrInc = (OciPullErrorsTotal, [], Add 1)"
| "metric_call ActiveInc = (ActiveConnections, [], Add 1)"
| "metric_call ActiveDec = (ActiveConnections, [], Add (-1))"
| "metric_call CacheHit = (CacheOperationsTotal, cache_labels ''hit'', Add 1)"
| "metric_call CacheMiss = (CacheOperationsTotal, cache_labels ''miss'', Add 1)"
| "metric_call (RequestInc meth status host) = (HttpRequestsTotal, request_labels meth status host, Add 1)"
| "metric_call (DurationObserve d) = (HttpRequestDuration, [], Observe d)"
| "metric_call (ReceivedInc host n) = (NetworkReceivedTotal, host_labels host, Add (uint n))"
| "metric_call (SentInc host n) = (NetworkSentTotal, host_labels host, Add (uint n))"
| "metric_call (SizeObserve n) = (ResponseSize, [], Observe (uint n))"
| "metric_call (UpstreamErrInc host) = (UpstreamErrorsTotal, host_labels host, Add 1)"

fun apply_change :: "change \<Rightarrow> int \<Rightarrow> int" where
  "apply_change (Add n) v = v + n"
| "apply_change (SetTo n) v = n"
| "apply_change (Observe n) v = v"

text \<open>The value of a counter or gauge under its labels.\<close>

definition shown :: "instrument \<Rightarrow> labels \<Rightarrow> metric_op list \<Rightarrow> int" where
  "shown i ls ops = fold (\<lambda>m v. case metric_call m of (j, ls', c) \<Rightarrow> if j = i \<and> ls' = ls then apply_change c v else v) ops 0"

section \<open>Registration\<close>

text \<open>Name, help text and instrument, in the order of registration; the library adds the suffix of counters.\<close>

definition registration :: "(string \<times> string \<times> instrument) list" where
  "registration =
     [(''nyrun_http_requests'', ''Total HTTP requests proxied'', HttpRequestsTotal),
      (''nyrun_http_request_duration_seconds'', ''HTTP request latency in seconds'', HttpRequestDuration),
      (''nyrun_active_connections'', ''Currently active proxy connections'', ActiveConnections),
      (''nyrun_cache_operations'', ''Cache hit/miss counts'', CacheOperationsTotal),
      (''nyrun_managed_processes'', ''Number of managed processes'', ManagedProcesses),
      (''nyrun_process_restarts'', ''Total process restarts'', ProcessRestartsTotal),
      (''nyrun_process_cpu_usage_percent'', ''CPU usage per process (percentage, 0-100 per core)'', ProcessCpuUsage),
      (''nyrun_process_memory_bytes'', ''Resident memory per process in bytes'', ProcessMemoryBytes),
      (''nyrun_network_received_bytes'', ''Total bytes received from clients'', NetworkReceivedTotal),
      (''nyrun_network_sent_bytes'', ''Total bytes sent to clients'', NetworkSentTotal),
      (''nyrun_response_size_bytes'', ''Response body size distribution in bytes'', ResponseSize),
      (''nyrun_upstream_errors'', ''Total upstream connection errors'', UpstreamErrorsTotal),
      (''nyrun_oci_pulls'', ''Total OCI image pulls'', OciPullsTotal),
      (''nyrun_oci_pull_errors'', ''Total OCI image pull failures'', OciPullErrorsTotal)]"

text \<open>The buckets of a histogram: the first bound in thousandths, the factor and the number of bounds.\<close>

fun exponential_buckets :: "instrument \<Rightarrow> (nat \<times> nat \<times> nat) option" where
  "exponential_buckets HttpRequestDuration = Some (1, 2, 16)"
| "exponential_buckets ResponseSize = Some (256000, 4, 10)"
| "exponential_buckets _ = None"

record 'r registry_api =
  rg_register :: "string \<Rightarrow> string \<Rightarrow> instrument \<Rightarrow> (nat \<times> nat \<times> nat) option \<Rightarrow> 'r \<Rightarrow> 'r"
  rg_encode :: "'r \<Rightarrow> metric_op list \<Rightarrow> string result"

definition new_registered :: "'r registry_api \<Rightarrow> 'r \<Rightarrow> 'r" where
  "new_registered R registry = fold (\<lambda>(name, help, i). rg_register R name help i (exponential_buckets i)) registration registry"

section \<open>The server\<close>

definition crlf :: string where "crlf = [CHR 0x0D, newline]"

definition metrics_response :: "string result \<Rightarrow> string" where
  "metrics_response encoded =
     (case encoded of
        Inl _ \<Rightarrow> ''HTTP/1.1 500 Internal Server Error'' @ crlf @ ''Content-Length: 0'' @ crlf @ crlf
      | Inr body \<Rightarrow> ''HTTP/1.1 200 OK'' @ crlf @ ''Content-Type: text/plain; version=0.0.4; charset=utf-8'' @ crlf @
          ''Content-Length: '' @ show_nat (length body) @ crlf @ crlf @ body)"

text \<open>A connection is accepted, with the calls on the instruments up to then, or not; or the server is told to stop.\<close>

datatype serve_event = Accepted "metric_op list" | AcceptError | StopServer

fun serve_loop :: "'r registry_api \<Rightarrow> 'r \<Rightarrow> serve_event list \<Rightarrow> string list" where
  "serve_loop R registry [] = []"
| "serve_loop R registry (Accepted ops # evs) = metrics_response (rg_encode R registry ops) # serve_loop R registry evs"
| "serve_loop R registry (AcceptError # evs) = serve_loop R registry evs"
| "serve_loop R registry (StopServer # evs) = []"

text \<open>What is written to the clients, one response each.\<close>

definition serve_metrics_with_shutdown :: "'r registry_api \<Rightarrow> unit result \<Rightarrow> 'r \<Rightarrow> serve_event list \<Rightarrow> string list" where
  "serve_metrics_with_shutdown R bound registry evs = (case bound of Inl _ \<Rightarrow> [] | Inr _ \<Rightarrow> serve_loop R registry evs)"

section \<open>Properties\<close>

text \<open>
  Every call that the program makes on a metric goes to an instrument that is registered exactly once, and no two instruments
  are registered under one name: nothing that is counted is missing from a scrape or merged with something else.
\<close>

theorem every_metric_is_registered:
  "length (filter (\<lambda>(_, _, i). i = fst (metric_call m)) registration) = 1 \<and> distinct (map fst registration)"
proof
  have "length (filter (\<lambda>(_, _, i). i = j) registration) = 1" for j
    by (cases j) (simp_all add: registration_def)
  then show "length (filter (\<lambda>(_, _, i). i = fst (metric_call m)) registration) = 1" .
  show "distinct (map fst registration)" by (simp add: registration_def)
qed

lemma shown_managed: "shown ManagedProcesses [] ops = managed_gauge ops"
proof -
  have "(case metric_call m of (j, ls', c) \<Rightarrow> if j = ManagedProcesses \<and> ls' = [] then apply_change c v else v) = managed_step m v" for m v
    by (cases m) simp_all
  then show ?thesis by (simp add: shown_def managed_gauge_def)
qed

subsection \<open>The metrics of the daemon stay switched on\<close>

definition metrics_on :: "'e dstate \<Rightarrow> bool" where
  "metrics_on s \<longleftrightarrow> pr_metrics (ds_process (fst s))"

abbreviation pm_metered :: "'e pstate \<Rightarrow> bool" where
  "pm_metered t \<equiv> pr_metrics (fst t)"

lemma metered_leaves [pres_intros]:
  "preserves pm_metered (onW m)" "preserves pm_metered (on_procs f)"
  by (auto simp: preserves_def onW_def zoom_def on_procs_def modify_def split: prod.split)

lemma metered_scan [pres_intros]:
  "preserves pm_metered (\<lambda>(pm, w). case scan X (pr_processes pm) (w_x w) of (ps, rs, e) \<Rightarrow> (Inr rs, (pm\<lparr>pr_processes := ps\<rparr>, w\<lparr>w_x := e\<rparr>)))"
  by (auto simp: preserves_def split: prod.split)

lemmas process_defs = lookup_process_def spawn_process_def register_spa_def delete_process_def restart_def reload_def kill_all_def
  update_config_def update_oci_config_def collect_process_stats_def check_and_restart_def pm_metric_def Let_def

lemma metered_ops [pres_intros]:
  "preserves pm_metered (spawn_process X c)" "preserves pm_metered (register_spa X c)" "preserves pm_metered (delete_process X n)"
  "preserves pm_metered (restart X n)" "preserves pm_metered (reload X n)" "preserves pm_metered (kill_all X)"
  "preserves pm_metered (update_config n p s a ef ev args)" "preserves pm_metered (update_oci_config n r ep)"
  "preserves pm_metered (collect_process_stats X)" "preserves pm_metered (check_and_restart X)" "preserves pm_metered (pm_metric m)"
  unfolding process_defs by (intro pres_intros preserves_prod; simp)+

lemma metrics_onPM [pres_intros]: "preserves pm_metered m \<Longrightarrow> preserves metrics_on (onPM m)"
  by (simp add: preserves_def metrics_on_def on_run)

lemma metrics_others [pres_intros]:
  "preserves metrics_on (onPx f)" "preserves metrics_on (onV g)" "preserves metrics_on (d_metric m)"
  by (simp_all add: preserves_def metrics_on_def on_run d_metric_def metered_ops(11) [THEN preservesD])

lemma metrics_onD: "(\<And>d. ds_process (f d) = ds_process d) \<Longrightarrow> preserves metrics_on (onD f)"
  by (simp add: preserves_def metrics_on_def onD_def)

lemma metrics_acme [pres_intros]: "preserves metrics_on (acme_if_requested e h)"
  unfolding acme_if_requested_def spawn_acme_issue_def by (intro pres_intros metrics_onD) simp

lemma metrics_handle_run [pres_intros]: "preserves metrics_on (handle_run X c)"
  unfolding handle_run_def run_spa_def run_proxied_def remap_port_def add_route_def Let_def
  by (intro pres_intros preserves_prod)

lemma metrics_handle_update [pres_intros]: "preserves metrics_on (handle_update X n p ssl acme ef args i)"
  unfolding handle_update_def pull_update_def update_route_def restart_updated_def add_route_def Let_def
  by (intro pres_intros preserves_prod)

lemma metrics_dispatch: "preserves metrics_on (dispatch X req)"
  by (cases req)
    (auto simp: as_ok_def handle_del_def handle_set_cache_ttl_def handle_save_def handle_link_def handle_unlink_def
      handle_kill_def handle_metrics_enable_def handle_metrics_disable_def intro!: pres_intros metrics_onD)

lemma metrics_step: "metrics_on s \<Longrightarrow> metrics_on (d_step X i s)"
proof (cases i)
  case (Req req)
  assume on: "metrics_on s"
  have fs: "metrics_on (fst s, (snd s)\<lparr>w_fs := fs\<rparr>)" for fs
    using on by (simp add: metrics_on_def)
  show ?thesis
    using handle_request_run [of req X s] set_default_registry_run [of X _ s] fs preservesD [OF metrics_dispatch on] Req
    by (metis d_step.simps(1) snd_conv)
next
  case Tick
  assume on: "metrics_on s"
  have "preserves metrics_on (health_tick X)"
    unfolding health_tick_def by (intro pres_intros metrics_onD) simp_all
  then show ?thesis using on Tick by (simp add: preservesD)
qed

interpretation mm: machine d_init "d_step X" "\<lambda>s. d_inv s \<and> metrics_on s"
proof
  show "d_inv s \<and> metrics_on s" if "d_init s" for s :: "'a dstate"
    using that dm.inv_init [OF that] by (simp add: metrics_on_def d_init_def daemon_new_def process_manager_new_def)
  show "d_inv (d_step X i s) \<and> metrics_on (d_step X i s)" if "d_inv s \<and> metrics_on s" for i and s :: "'a dstate"
    using that by (simp add: dm.inv_step metrics_step)
qed

text \<open>
  C26: From the start of the daemon on, after any requests and health checks, a scrape shows as the number of managed
  processes the number of entries of the process table.
\<close>

theorem scraped_process_count:
  assumes "d_init s"
  shows "shown ManagedProcesses [] (w_metrics (snd (fold (d_step X) steps s))) =
    int (length (pr_processes (ds_process (fst (fold (d_step X) steps s)))))"
  using mm.inv_from_init [OF assms, of X steps]
  by (simp add: shown_managed d_inv_def pr_inv_upto_def metrics_on_def gauge_is_def)

theorem scraped_process_count_witness:
  "shown ManagedProcesses [] (w_metrics (snd (fold (d_step sample_xt) [Req (ReqBin sample_config), Tick, Req (ReqDel ''web''), Req ReqKill]
       (daemon_new, sample_world)))) =
     int (length (pr_processes (ds_process (fst (fold (d_step sample_xt) [Req (ReqBin sample_config), Tick, Req (ReqDel ''web''), Req ReqKill]
       (daemon_new, sample_world))))))"
  by (rule scraped_process_count) (simp add: d_init_def sample_world_def)

subsection \<open>Responses\<close>

text \<open>A reader of HTTP responses: the status line and a body of the announced length.\<close>

fun read_head :: "nat \<Rightarrow> string \<Rightarrow> (string list \<times> string) option" where
  "read_head 0 s = None"
| "read_head (Suc n) s =
     (case split_once newline s of
        None \<Rightarrow> None
      | Some (l, rest) \<Rightarrow>
          if strip_cr l = [] then Some ([], rest) else map_option (\<lambda>(ls, b). (strip_cr l # ls, b)) (read_head n rest))"

definition http_read :: "string \<Rightarrow> (string \<times> string) option" where
  "http_read s =
     (case read_head (length s) s of
        None \<Rightarrow> None
      | Some (ls, body) \<Rightarrow>
          (case List.map_filter (strip_prefix ''Content-Length: '') ls of
             [n] \<Rightarrow> if parse_uint 64 n = Some (length body) then Some (hd ls, body) else None
           | _ \<Rightarrow> None))"

lemma split_crlf: "newline \<notin> set l \<Longrightarrow> split_once newline (l @ crlf @ rest) = Some (l @ [CHR 0x0D], rest)"
  by (auto simp: split_once_Some crlf_def)

lemma strip_cr_line [simp]: "strip_cr (l @ [CHR 0x0D]) = l"
  by (simp add: strip_cr_def)

lemma read_head_lines:
  "(\<forall>l\<in>set ls. l \<noteq> [] \<and> newline \<notin> set l) \<Longrightarrow> length ls < n \<Longrightarrow>
   read_head n (concat (map (\<lambda>l. l @ crlf) ls) @ crlf @ body) = Some (ls, body)"
proof (induction ls arbitrary: n)
  case Nil
  then obtain k where "n = Suc k" by (cases n) auto
  then show ?case using split_crlf [of "[]" body] by (simp add: strip_cr_def)
next
  case (Cons l ls)
  then obtain k where "n = Suc k" "length ls < k" by (cases n) auto
  then show ?case using Cons split_crlf [of l "concat (map (\<lambda>l. l @ crlf) ls) @ crlf @ body"] by simp
qed

text \<open>
  A scraper that follows the length that the response announces reads the whole text of the registry and nothing
  else, for any text below the size that the length can express.
\<close>

theorem scrape_reads_registry:
  assumes "length body < 2 ^ 64"
  shows "http_read (metrics_response (Inr body)) = Some (''HTTP/1.1 200 OK'', body)"
proof -
  let ?ls = "[''HTTP/1.1 200 OK'', ''Content-Type: text/plain; version=0.0.4; charset=utf-8'', ''Content-Length: '' @ show_nat (length body)]"
  have eq: "metrics_response (Inr body) = concat (map (\<lambda>l. l @ crlf) ?ls) @ crlf @ body"
    by (simp add: metrics_response_def)
  have nl: "newline \<notin> set (show_nat (length body))" by (rule show_nat_no_char) (simp add: is_digit_def)
  have "read_head (length (metrics_response (Inr body))) (metrics_response (Inr body)) = Some (?ls, body)"
    unfolding eq by (rule read_head_lines) (use nl in \<open>auto\<close>)
  then show ?thesis
    using parse_show_uint [OF assms] by (simp add: http_read_def List.map_filter_simps strip_prefix_def starts_with_def)
qed

theorem scrape_reads_registry_witness:
  "http_read (metrics_response (Inr ''nyrun_managed_processes 1'')) = Some (''HTTP/1.1 200 OK'', ''nyrun_managed_processes 1'')"
  by (rule scrape_reads_registry) simp

end
