(* ===== verification/Spec2Isabelle.thy ===== *)
theory Spec2Isabelle
  imports Server Acme Proxy_Http Sandbox Manifest Backup Daemon Client Cloud Cli Metrics_Server
begin

text \<open>
  nyrun is a process manager with a reverse proxy: one binary that is a command line client and a daemon. The client turns a
  command into a request, sends it over a Unix socket, and prints the response. The daemon keeps a table of
  managed processes, a table of routes from ports and host names to applications or directories, a
  certificate store, and a key-value database; a health checker restarts crashed processes, an ACME task renews
  certificates, and an optional agent takes commands from a cloud service. This library models the sources under
  \<open>src/src\<close>, one theory for each component.

  Conventions (\<open>Prelude\<close>). A fallible function is an action: a function from the state to a sum of error message and value, and the
  new state; \<open>bindA\<close> is the \<open>?\<close> operator, \<open>map_err\<close>, \<open>ignore\<close> and \<open>attempt\<close> are \<open>map_err\<close>, \<open>let _ =\<close> and a match on the result. A
  component runs on its part of the state through \<open>zoom\<close>. \<open>wp\<close> is the weakest precondition, \<open>preserves\<close> the
  preservation of a predicate; both compute through control structure with the collections \<open>wp_simps\<close> and \<open>pres_intros\<close>, so
  that only the calls of a handler are left to prove. Hash maps are association lists with distinct keys, so
  that the iteration order is a list; the locales \<open>keyed_store\<close>, \<open>codec\<close> and \<open>machine\<close> are the contracts of
  stores, of encoders with decoders, and of state machines with an invariant. Integers have the width of the
  source. A panic is an absent response.

  Theories, in the order of their dependence:
  \<^item> \<open>Rust_Str\<close>, \<open>Rust_Path\<close>, \<open>Rust_Fs\<close>: what the sources use of the standard library: strings as bytes, decimal
    numbers, paths and their components, a file system as a tree of directories and inodes with faults that may be injected at any
    operation.
  \<^item> \<open>Protocol\<close> (\<open>protocol.rs\<close>): the messages, and their framing by a length of four bytes.
  \<^item> \<open>World\<close>: the outside world: file system, metric calls, and the record \<open>xt\<close> of the external functions.
  \<^item> \<open>Oci\<close> (\<open>oci.rs\<close>): image references, pulling and unpacking layers, the entry point of an image.
  \<^item> \<open>Cli_Config\<close> (\<open>main.rs\<close>): parsers of ports, environment files and lists, manifests and configurations in both directions,
    the request of \<open>nyrun run\<close>.
  \<^item> \<open>Tls\<close> (\<open>tls.rs\<close>), \<open>Acme\<close> (\<open>acme.rs\<close>): the certificate store and the choice in the handshake; challenge answers, issuing and
    renewing certificates.
  \<^item> \<open>Proxy\<close>, \<open>Proxy_Http\<close> (\<open>proxy.rs\<close>): the route table, ports and servers; the callbacks for a request, the response cache
    and static files.
  \<^item> \<open>Process_Mgr\<close>, \<open>Logs\<close> (\<open>process.rs\<close>): the process table with all its operations, starting a process, the health check; capturing, rotating and
    reading logs.
  \<^item> \<open>Sandbox\<close> (\<open>sandbox.rs\<close>): the restrictions that a child puts on itself before it runs the program.
  \<^item> \<open>State_Store\<close> (\<open>state.rs\<close>, the end of \<open>cloud.rs\<close>): saving, loading and migrating configurations, the cloud credentials.
  \<^item> \<open>Server\<close> (\<open>server.rs\<close>): the daemon's state and every request handler over it, and the round of the health checker.
  \<^item> \<open>Metrics_Server\<close> (\<open>metrics.rs\<close>): instruments, labels, registration and the server that is scraped.
  \<^item> \<open>Daemon\<close> (\<open>daemon.rs\<close>), \<open>Client\<close> (\<open>client.rs\<close>, \<open>handle_client\<close> of \<open>server.rs\<close>): starting and finding the daemon; a request and its
    response on the socket, printing.
  \<^item> \<open>Manifest\<close>, \<open>Backup\<close> (\<open>main.rs\<close>): manifest files, backup and restore.
  \<^item> \<open>Cli\<close> (\<open>cli.rs\<close>, \<open>main\<close> of \<open>main.rs\<close>): the commands and what each does.
  \<^item> \<open>Cloud\<close> (\<open>cloud.rs\<close>): the cloud agent.

  What the lemmas show. Each operation of the process table, of the routes and of the certificates has a specification on all its
  branches (\<open>spawn_process_spec\<close>, \<open>restart_spec\<close>, \<open>find_route_spec\<close>, \<open>issue_cert_spec\<close> and others), and the invariant of its component
  is preserved by every operation. The daemon is a \<open>machine\<close> whose steps are the requests of all clients and the
  health checks, in the order in which they take the lock: \<open>daemon_invariant\<close>, \<open>started_daemon_invariant\<close>, \<open>routes_have_processes\<close> and
  \<open>scraped_process_count\<close> hold in every state it reaches. Above it, a command of the command line and a session with the cloud
  are shown to do to the daemon what their requests do (\<open>command_runs_request\<close>, \<open>session_refines_requests\<close>). \<open>run_serves_until_deleted\<close> follows
  a program from its run request through the proxy to its deletion. The other groups
  are round trips (framing, saved state, manifests, backup), the safety of what reaches the network or the file
  system (static files, sandbox, routes of other names), and the errors the code makes, each proved as what happens.

  Bounds. A message is at most ten megabytes (\<open>max_message\<close>), a cached response five (\<open>cache_limit\<close>). The walk of a backup has
  the nesting depth as fuel, with \<open>walk_max\<close> = 4096, and so has the copy of a program directory in \<open>Process_Mgr\<close> (\<open>path_max\<close>): the
  kernel refuses paths of 4096 bytes, so no tree that can be addressed is deeper; \<open>backup_walk_ends\<close> shows that the fuel
  of the walk suffices. Loops that may go on for ever (the agent, the servers) are functions of the list of their events.

  Parameters. External code is an argument: \<open>xt\<close> (processes, clock, registry client, tar, JSON, shell words, database,
  OpenSSL), \<open>acme_api\<close>, \<open>http_api\<close> (Pingora and the cache), \<open>sandbox_api\<close>, \<open>host_api\<close>, \<open>wire\<close> (the JSON of requests), \<open>yaml_api\<close>,
  \<open>zip_api\<close>, \<open>cloud_codec\<close>, \<open>registry_api\<close>, \<open>cli_api\<close>. What a property relies on is a named hypothesis about them: \<open>kv_db\<close>, \<open>config_codec\<close>,
  \<open>yaml_law\<close>, \<open>zip_law\<close>, \<open>zip_accepts\<close>, \<open>canon_law\<close>, \<open>cache_law\<close>, \<open>client_reads\<close>, \<open>req_header_law\<close>, \<open>wire_reads\<close>; each has an instance in a
  witness.

  Not modelled: the argument parser, the accept loop and the setup of logging, log and progress texts with the
  sizes in them (\<open>format_size\<close>), opening the database, timers (a timer is the event that it fires), the stub of the sandbox for other systems, and
  the scripts. Requests run one after the other because the handlers hold one lock; where a handler lets
  the lock go in between, as for pulling an image, the model runs it in one piece.
\<close>

section \<open>Saving and starting again\<close>

lemma get_configs_names: "pr_inv (pm, w) \<Longrightarrow> map pc_name (get_configs pm) = hm_keys (pr_processes pm)"
  by (auto simp: get_configs_def pr_inv_upto_def)

text \<open>
  C11: a save request followed by the load of the next start of the daemon gives back exactly the configurations of the
  managed processes, each once, whatever their names, in any state that the daemon reaches.
\<close>

theorem saved_processes_reload:
  assumes "d_inv s" and "kv_db X view" and "config_codec X (get_configs (ds_process (fst s)))"
  shows "\<exists>m s' cs. dispatch X ReqSave s = (Inr (RespOk m), s') \<and> fst (load_state X (w_x (snd s'))) = Inr cs \<and>
    mset cs = mset (get_configs (ds_process (fst s))) \<and> fst s' = fst s"
proof -
  have names: "distinct (map pc_name (get_configs (ds_process (fst s))))"
    using assms(1) get_configs_names [of "ds_process (fst s)" "snd s"] by (simp add: d_inv_def pr_inv_upto_def hm_wf_def)
  obtain e1 e2 cs where save: "save_state X (get_configs (ds_process (fst s))) (w_x (snd s)) = (Inr (), e1)"
    and load: "load_state X e1 = (Inr cs, e2)" "mset cs = mset (get_configs (ds_process (fst s)))"
    using save_load [OF assms(2,3) names] by metis
  have "dispatch X ReqSave s =
      (Inr (RespOk (''saved '' @ show_nat (length (get_configs (ds_process (fst s)))) @ '' processes'')), (fst s, (snd s)\<lparr>w_x := e1\<rparr>))"
    by (simp add: handle_save_def bindA_def gets_def onV_def onX_def zoom_def save ok_def)
  with load show ?thesis by auto
qed

theorem saved_processes_reload_witness:
  "\<exists>cs. fst (load_state db_xt (w_x (snd (snd (dispatch db_xt ReqSave
       (daemon_new\<lparr>ds_process := one_app\<rparr>, \<lparr>w_fs = sample_fs, w_metrics = [], w_x = []\<rparr>)))))) = Inr cs \<and> mset cs = {#sample_config#}"
proof -
  let ?s = "(daemon_new\<lparr>ds_process := one_app\<rparr>, \<lparr>w_fs = sample_fs, w_metrics = [], w_x = [] :: (string, string) hmap\<rparr>)"
  have "d_inv ?s"
    by (simp add: d_inv_def daemon_new_def px_inv_new pr_inv_upto_def one_app_def crashed_app_def sample_config_def mp_ok_def hm_wf_def)
  moreover have configs: "get_configs (ds_process (fst ?s)) = [sample_config]"
    by (simp add: get_configs_def one_app_def crashed_app_def)
  moreover have "config_codec db_xt (get_configs (ds_process (fst ?s)))"
    unfolding configs by (simp add: config_codec_def db_xt_def sample_config_def)
  ultimately show ?thesis
    using saved_processes_reload [OF _ db_xt_kv, of ?s] by fastforce
qed

section \<open>From the run request to the traffic\<close>

lemma find_route_alone:
  assumes "\<forall>q\<in>set es. re_port q = re_port r \<longrightarrow> re_name q = re_name r" and "re_host r = h"
  shows "find_route (filter (\<lambda>q. re_name q \<noteq> re_name r) es @ [r]) (re_port r) h = Some r"
proof -
  have "filter (\<lambda>q. re_port q = re_port r) (filter (\<lambda>q. re_name q \<noteq> re_name r) es) = []"
    using assms(1) by (auto simp: filter_empty_conv)
  then show ?thesis using assms(2) by (cases h) (simp_all add: find_route_def)
qed

lemma handle_del_proxy: "ds_proxy (fst (snd (handle_del X n s))) = remove_routes n (ds_proxy (fst s))"
proof -
  let ?P = "\<lambda>s'. ds_proxy (fst s') = remove_routes n (ds_proxy (fst s))"
  have "wp (handle_del X n) (\<lambda>_. ?P) (\<lambda>_. ?P) s"
    unfolding handle_del_def wp_bindA wp_onPx wp_modify wp_attempt wp_onPM
    by (rule wp_any) (auto simp: wp_simps)
  then show ?thesis by (simp add: wp_snd)
qed


definition host_port :: port_mapping where
  "host_port = \<lparr>pm_host = Some ''a.b'', pm_public_port = 80, pm_app_port = Some 90\<rparr>"

definition host_config :: process_config where
  "host_config = sample_config\<lparr>pc_port_mapping := Some host_port\<rparr>"

abbreviation host_run :: "response result \<times> nat dstate" where
  "host_run \<equiv> dispatch sample_xt (ReqRun host_config) (daemon_new, sample_world)"


end
